(* ===== verification/FF_Prelude.thy ===== *)
theory FF_Prelude
  imports
    Complex_Main
    "HOL-Library.Word"
    "HOL-Library.Char_ord"
    "HOL-Library.List_Lexorder"
    "HOL-Library.Sublist"
    "HOL-Library.Monad_Syntax"
begin

text \<open>
  Shared material of the development: the fact collections, the model of the parts of the
  Rust language and of its standard library that every component uses (byte strings with
  Unicode trimming, decimal printing, IEEE doubles, ordered maps), and the interface of an
  ordered map with its interpretation on ordered association lists.

  Rust strings are UTF-8 byte sequences. They are modelled as \<^typ>\<open>string\<close>, a list of
  bytes (a \<^typ>\<open>char\<close> has eight bits), so \<^verbatim>\<open>str::len\<close> is \<^const>\<open>length\<close>, the
  derived order of \<^verbatim>\<open>String\<close> is the lexicographic order of \<^verbatim>\<open>List_Lexorder\<close> over
  \<^verbatim>\<open>Char_ord\<close>, and substring tests on bytes agree with the tests on characters because
  UTF-8 is self-synchronising.
\<close>

named_theorems model_defs \<open>definitions unfolded to evaluate the model\<close>
named_theorems wf_defs \<open>definitions of the declarative well-formedness predicates\<close>

type_synonym u32 = "32 word"
type_synonym u64 = "64 word"
type_synonym uuid = "128 word"

section \<open>Machine words\<close>

lemma unat_u32_bound: "unat (w :: u32) < 2 ^ 32"
  using unsigned_less [of w] by simp

lemma unat_u64_bound: "unat (w :: u64) < 2 ^ 64"
  using unsigned_less [of w] by simp

lemma unat_u32_u64 [simp]: "unat (ucast (w :: u32) :: u64) = unat w"
  using unat_u32_bound [of w] by (simp add: unsigned_ucast_eq take_bit_nat_eq_self_iff)

lemma unat_u64_of_nat: "n < 2 ^ 64 \<Longrightarrow> unat (of_nat n :: u64) = n"
  by (simp add: unat_of_nat)

section \<open>Decimal and textual output\<close>

definition digit_char :: "nat \<Rightarrow> char" where
  "digit_char d = char_of (48 + d)"

fun show_nat :: "nat \<Rightarrow> string" where
  "show_nat n = (if n < 10 then [digit_char n]
                 else show_nat (n div 10) @ [digit_char (n mod 10)])"

declare show_nat.simps [simp del]

definition show_int :: "int \<Rightarrow> string" where
  "show_int i = (if i < 0 then ''-'' @ show_nat (nat (- i)) else show_nat (nat i))"

definition show_bool :: "bool \<Rightarrow> string" where
  "show_bool b = (if b then ''true'' else ''false'')"

text \<open>The back quotes the error messages put around names.\<close>

definition quoted :: "string \<Rightarrow> string" where
  "quoted s = ''`'' @ s @ ''`''"

section \<open>Strings\<close>

definition starts_with :: "string \<Rightarrow> string \<Rightarrow> bool" where
  "starts_with s p = (take (length p) s = p)"

definition ends_with :: "string \<Rightarrow> string \<Rightarrow> bool" where
  "ends_with s p = starts_with (rev s) (rev p)"

fun str_contains :: "string \<Rightarrow> string \<Rightarrow> bool" where
  "str_contains [] p = (p = [])"
| "str_contains (c # s) p = (starts_with (c # s) p \<or> str_contains s p)"

lemma starts_with_prefix: "starts_with s p \<longleftrightarrow> prefix p s"
  by (auto simp: starts_with_def prefix_def) (metis append_take_drop_id)

lemma ends_with_suffix: "ends_with s p \<longleftrightarrow> suffix p s"
  by (simp add: ends_with_def starts_with_prefix suffix_to_prefix)

lemma str_contains_sublist: "str_contains s p \<longleftrightarrow> sublist p s"
  by (induction s) (auto simp: starts_with_prefix sublist_Cons_right)

fun split_on :: "char \<Rightarrow> string \<Rightarrow> string list" where
  "split_on d [] = [[]]"
| "split_on d (c # s) =
     (if c = d then [] # split_on d s
      else (case split_on d s of [] \<Rightarrow> [[c]] | w # ws \<Rightarrow> (c # w) # ws))"

lemma split_on_ne [simp]: "split_on d s \<noteq> []"
  by (induction s) (auto split: list.splits)

lemma length_split_on: "length (split_on d s) = Suc (count_list s d)"
  by (induction s) (auto split: list.splits)

text \<open>The first \<open>n\<close> characters of a UTF-8 string: a continuation byte starts no character.\<close>

definition utf8_continuation :: "char \<Rightarrow> bool" where
  "utf8_continuation c = ((of_char c :: nat) div 64 = 2)"

fun utf8_take :: "nat \<Rightarrow> string \<Rightarrow> string" where
  "utf8_take n [] = []"
| "utf8_take n (c # s) =
     (if utf8_continuation c then c # utf8_take n s
      else (case n of 0 \<Rightarrow> [] | Suc m \<Rightarrow> c # utf8_take m s))"

text \<open>The number of characters, \<^verbatim>\<open>chars().count()\<close> and SQL's \<^verbatim>\<open>length\<close>.\<close>

definition utf8_length :: "string \<Rightarrow> nat" where
  "utf8_length s = length (filter (\<lambda>c. \<not> utf8_continuation c) s)"

text \<open>\<^verbatim>\<open>str::trim\<close> removes Unicode white space; these are its UTF-8 encodings.\<close>

definition ws_encodings :: "string list" where
  "ws_encodings =
     map (\<lambda>n. [char_of n]) [9, 10, 11, 12, 13, 32 :: nat] @
     map (map char_of)
       ([[194, 133], [194, 160], [225, 154, 128], [226, 128, 168], [226, 128, 169],
         [226, 128, 175], [226, 129, 159], [227, 128, 128]] @
        map (\<lambda>k. [226, 128, k]) [128, 129, 130, 131, 132, 133, 134, 135, 136, 137, 138 :: nat])"

lemma starts_with_shorter: "w \<noteq> [] \<Longrightarrow> starts_with s w \<Longrightarrow> length s - length w < length s"
  by (cases w; cases s) (auto simp: starts_with_def)

function trim_by :: "string list \<Rightarrow> string \<Rightarrow> string" where
  "trim_by ws s =
     (case find (\<lambda>w. w \<noteq> [] \<and> starts_with s w) ws of
        None \<Rightarrow> s
      | Some w \<Rightarrow> trim_by ws (drop (length w) s))"
  by pat_completeness auto
termination
  by (relation "measure (\<lambda>(ws, s). length s)")
     (auto simp: find_Some_iff intro: starts_with_shorter)

declare trim_by.simps [simp del]

definition str_trim :: "string \<Rightarrow> string" where
  "str_trim s = rev (trim_by (map rev ws_encodings) (rev (trim_by ws_encodings s)))"

definition trim_end_matches :: "char \<Rightarrow> string \<Rightarrow> string" where
  "trim_end_matches c s = rev (dropWhile (\<lambda>x. x = c) (rev s))"

definition is_blank :: "string \<Rightarrow> bool" where
  "is_blank s = (str_trim s = [])"

definition is_ascii_alphanumeric :: "char \<Rightarrow> bool" where
  "is_ascii_alphanumeric c =
     (let code = of_char c :: nat
      in list_ex (\<lambda>(first, last). first \<le> code \<and> code \<le> last) [(48, 57), (65, 90), (97, 122)])"

lemma trim_by_none: "\<forall>w \<in> set ws. w = [] \<or> \<not> starts_with s w \<Longrightarrow> trim_by ws s = s"
  by (subst trim_by.simps) (auto simp: find_None_iff split: option.splits simp: find_Some_iff)

lemma ws_encodings_ends:
  "list_all (\<lambda>w. w \<noteq> [] \<and> \<not> is_ascii_alphanumeric (hd w) \<and> \<not> is_ascii_alphanumeric (last w))
     ws_encodings"
  by code_simp

lemma starts_with_hd: "w \<noteq> [] \<Longrightarrow> starts_with s w \<Longrightarrow> s \<noteq> [] \<and> hd s = hd w"
  by (cases w; cases s) (auto simp: starts_with_def)

lemma trim_alphanumeric:
  assumes "s \<noteq> []" and "is_ascii_alphanumeric (hd s)" and "is_ascii_alphanumeric (last s)"
  shows "str_trim s = s"
proof -
  have "trim_by ws_encodings s = s"
    by (rule trim_by_none) (use ws_encodings_ends assms starts_with_hd in \<open>fastforce simp: list_all_iff\<close>)
  moreover have "trim_by (map rev ws_encodings) (rev s) = rev s"
    by (rule trim_by_none)
       (use ws_encodings_ends assms starts_with_hd [of "rev _" "rev s"] in \<open>fastforce simp: list_all_iff hd_rev\<close>)
  ultimately show ?thesis by (simp add: str_trim_def)
qed

lemma alphanumeric_not_blank:
  "s \<noteq> [] \<Longrightarrow> is_ascii_alphanumeric (hd s) \<Longrightarrow> is_ascii_alphanumeric (last s) \<Longrightarrow> \<not> is_blank s"
  by (simp add: is_blank_def trim_alphanumeric)
section \<open>IEEE doubles\<close>

text \<open>
  A double is NaN, an infinity or a finite rational. Nothing here rounds except the
  conversion from integers and the printing of the shortest decimal that reads back as the
  same double; comparisons are exact. The two zeros are one value, which no operation of
  the modelled code tells apart.
\<close>

datatype f64 = NaN | Infinity (negative: bool) | Finite (rat_of: rat)

definition f64_eq :: "f64 \<Rightarrow> f64 \<Rightarrow> bool" where
  "f64_eq a b = (a \<noteq> NaN \<and> a = b)"

fun f64_lt :: "f64 \<Rightarrow> f64 \<Rightarrow> bool" where
  "f64_lt NaN _ = False"
| "f64_lt _ NaN = False"
| "f64_lt (Infinity n) (Infinity m) = (n \<and> \<not> m)"
| "f64_lt (Infinity n) (Finite _) = n"
| "f64_lt (Finite _) (Infinity m) = (\<not> m)"
| "f64_lt (Finite a) (Finite b) = (a < b)"

definition f64_le :: "f64 \<Rightarrow> f64 \<Rightarrow> bool" where
  "f64_le a b = (f64_lt a b \<or> f64_eq a b)"

lemma f64_lt_irrefl [simp]: "\<not> f64_lt a a"
  by (cases a) auto

lemma f64_lt_asym: "f64_lt a b \<Longrightarrow> \<not> f64_lt b a"
  by (cases a; cases b) auto

lemma f64_trichotomy:
  "a \<noteq> NaN \<Longrightarrow> b \<noteq> NaN \<Longrightarrow> \<not> f64_lt a b \<Longrightarrow> \<not> f64_lt b a \<Longrightarrow> f64_eq a b"
  by (cases a; cases b) (auto simp: f64_eq_def)

text \<open>The exponent of the leading bit; the fuel covers the exponents -1074 to 1023.\<close>

fun log2_search :: "nat \<Rightarrow> rat \<Rightarrow> int \<Rightarrow> int" where
  "log2_search 0 x e = e"
| "log2_search (Suc n) x e =
     (if 2 \<le> x then log2_search n (x / 2) (e + 1)
      else if x < 1 then log2_search n (x * 2) (e - 1) else e)"

definition pow2 :: "int \<Rightarrow> rat" where
  "pow2 e = (if 0 \<le> e then 2 ^ nat e else 1 / 2 ^ nat (- e))"

definition pow10 :: "int \<Rightarrow> rat" where
  "pow10 e = (if 0 \<le> e then 10 ^ nat e else 1 / 10 ^ nat (- e))"

definition ulp_exponent :: "rat \<Rightarrow> int" where
  "ulp_exponent x = max (log2_search 1100 x 0 - 52) (- 1074)"

definition round_half_even :: "rat \<Rightarrow> int" where
  "round_half_even x =
     (let l = \<lfloor>x\<rfloor>; d = x - of_int l
      in if d < 1 / 2 then l else if 1 / 2 < d then l + 1 else if even l then l else l + 1)"

text \<open>\<^verbatim>\<open>as f64\<close> on integers rounds to the nearest double, ties to even.\<close>

definition f64_of_int :: "int \<Rightarrow> f64" where
  "f64_of_int i =
     (if \<bar>i\<bar> < 2 ^ 53 then Finite (of_int i)
      else let e = ulp_exponent (of_int \<bar>i\<bar>)
           in Finite (of_int (sgn i * round_half_even (of_int \<bar>i\<bar> / pow2 e)) * pow2 e))"

text \<open>
  \<^verbatim>\<open>f64::to_string\<close> prints the shortest decimal that rounds to the double, the closest
  one among those of equal length, and never uses an exponent. Seventeen digits are always
  enough for a double.
\<close>

definition in_rounding_interval :: "rat \<Rightarrow> rat \<Rightarrow> bool" where
  "in_rounding_interval x y =
     (let e = ulp_exponent x; m = x / pow2 e; up = pow2 e / 2;
          down = (if m = 2 ^ 52 \<and> - 1074 < e then pow2 e / 4 else pow2 e / 2)
      in if even \<lfloor>m\<rfloor> then x - down \<le> y \<and> y \<le> x + up else x - down < y \<and> y < x + up)"

fun decimal_exponent :: "nat \<Rightarrow> rat \<Rightarrow> int \<Rightarrow> int" where
  "decimal_exponent 0 x k = k"
| "decimal_exponent (Suc n) x k =
     (if 1 \<le> x then decimal_exponent n (x / 10) (k + 1)
      else if x < 1 / 10 then decimal_exponent n (x * 10) (k - 1) else k)"

fun shortest_from :: "nat \<Rightarrow> rat \<Rightarrow> int \<Rightarrow> nat \<Rightarrow> nat \<times> int" where
  "shortest_from 0 x k n = (nat \<lfloor>x / pow10 (k - int n)\<rfloor>, k - int n)"
| "shortest_from (Suc fuel) x k n =
     (let unit = pow10 (k - int n); l = \<lfloor>x / unit\<rfloor>;
          low = in_rounding_interval x (of_int l * unit);
          high = in_rounding_interval x (of_int (l + 1) * unit)
      in if low \<and> (\<not> high \<or> x - of_int l * unit \<le> of_int (l + 1) * unit - x)
         then (nat l, k - int n)
         else if high then (nat (l + 1), k - int n)
         else shortest_from fuel x k (Suc n))"

definition strip_zeros :: "string \<Rightarrow> string" where
  "strip_zeros s = rev (dropWhile (\<lambda>c. c = CHR ''0'') (rev s))"

definition show_positive :: "rat \<Rightarrow> string" where
  "show_positive x =
     (let (c, p) = shortest_from 17 x (decimal_exponent 400 x 0) 1;
          ds = show_nat c; e = p + int (length ds); ds' = strip_zeros ds
      in if e \<le> 0 then ''0.'' @ replicate (nat (- e)) CHR ''0'' @ ds'
         else if e < int (length ds') then take (nat e) ds' @ ''.'' @ drop (nat e) ds'
         else ds' @ replicate (nat e - length ds') CHR ''0'')"

fun f64_to_string :: "f64 \<Rightarrow> string" where
  "f64_to_string NaN = ''NaN''"
| "f64_to_string (Infinity n) = (if n then ''-inf'' else ''inf'')"
| "f64_to_string (Finite x) =
     (if x = 0 then ''0'' else if x < 0 then ''-'' @ show_positive (- x) else show_positive x)"

section \<open>Ordered maps\<close>

text \<open>
  \<^verbatim>\<open>BTreeMap\<close> as an ordered association list: iteration is in ascending key order and an
  insertion of a present key replaces its value.
\<close>

type_synonym ('k, 'v) btree = "('k \<times> 'v) list"

fun bt_insert :: "'k::linorder \<Rightarrow> 'v \<Rightarrow> ('k, 'v) btree \<Rightarrow> ('k, 'v) btree" where
  "bt_insert k v [] = [(k, v)]"
| "bt_insert k v ((k', v') # m) =
     (if k < k' then (k, v) # (k', v') # m
      else if k = k' then (k, v) # m
      else (k', v') # bt_insert k v m)"

definition bt_get :: "('k, 'v) btree \<Rightarrow> 'k \<Rightarrow> 'v option" where
  "bt_get = map_of"

definition bt_values :: "('k, 'v) btree \<Rightarrow> 'v list" where
  "bt_values = map snd"

fun bt_collect :: "('k::linorder \<times> 'v) list \<Rightarrow> ('k, 'v) btree \<Rightarrow> ('k, 'v) btree" where
  "bt_collect [] m = m"
| "bt_collect ((k, v) # kvs) m = bt_collect kvs (bt_insert k v m)"

definition bt_ordered :: "('k::linorder, 'v) btree \<Rightarrow> bool" where
  "bt_ordered m = sorted_wrt (<) (map fst m)"

lemma bt_get_insert: "bt_get (bt_insert k v m) = (bt_get m)(k \<mapsto> v)"
  unfolding bt_get_def by (induction m) auto

lemma bt_insert_keys: "fst ` set (bt_insert k v m) = insert k (fst ` set m)"
  by (induction k v m rule: bt_insert.induct) (simp_all add: insert_commute)

lemma bt_ordered_insert: "bt_ordered m \<Longrightarrow> bt_ordered (bt_insert k v m)"
proof (induction m)
  case Nil
  then show ?case by (simp add: bt_ordered_def)
next
  case (Cons p m)
  obtain k' v' where p: "p = (k', v')" by force
  have keys: "fst ` set (bt_insert k v m) = insert k (fst ` set m)"
    by (rule bt_insert_keys)
  with Cons p show ?case
    by (auto simp: bt_ordered_def)
qed

lemma bt_ordered_distinct: "bt_ordered m \<Longrightarrow> distinct (map fst m)"
  by (simp add: bt_ordered_def strict_sorted_iff)

text \<open>The interface of an ordered map: what its clients rely on.\<close>

locale ordered_map =
  fixes empty :: "'m"
    and put :: "'k::linorder \<Rightarrow> 'v \<Rightarrow> 'm \<Rightarrow> 'm"
    and get :: "'m \<Rightarrow> 'k \<Rightarrow> 'v option"
    and entries :: "'m \<Rightarrow> ('k \<times> 'v) list"
    and invar :: "'m \<Rightarrow> bool"
  assumes get_empty: "get empty k = None"
    and get_put: "get (put k v m) = (get m)(k \<mapsto> v)"
    and invar_empty: "invar empty"
    and invar_put: "invar m \<Longrightarrow> invar (put k v m)"
    and get_entries: "invar m \<Longrightarrow> get m k = map_of (entries m) k"
    and entries_ordered: "invar m \<Longrightarrow> sorted_wrt (<) (map fst (entries m))"
begin

definition put_all :: "('k \<times> 'v) list \<Rightarrow> 'm" where
  "put_all kvs = fold (\<lambda>(k, v) m. put k v m) kvs empty"

lemma get_fold_put: "get (fold (\<lambda>(k, v) m. put k v m) kvs m) = get m ++ map_of (rev kvs)"
  by (induction kvs arbitrary: m) (auto simp: get_put fun_eq_iff map_add_def split: option.splits)

lemma get_put_all: "get (put_all kvs) k = map_of (rev kvs) k"
  by (simp add: put_all_def get_fold_put get_empty map_add_def split: option.splits)

lemma invar_fold_put: "invar m \<Longrightarrow> invar (fold (\<lambda>(k, v) m. put k v m) kvs m)"
  by (induction kvs arbitrary: m) (auto simp: invar_put)

lemma invar_put_all: "invar (put_all kvs)"
  by (simp add: put_all_def invar_fold_put invar_empty)

lemma entries_iff_get: "invar m \<Longrightarrow> (k, v) \<in> set (entries m) \<longleftrightarrow> get m k = Some v"
  using entries_ordered [of m] by (simp add: get_entries strict_sorted_iff)

lemma entries_unique:
  "invar m \<Longrightarrow> invar m' \<Longrightarrow> get m = get m' \<Longrightarrow> set (entries m) = set (entries m')"
  by (auto simp: entries_iff_get)

end

interpretation bt: ordered_map "[]" bt_insert bt_get "\<lambda>m. m" bt_ordered
  by unfold_locales
     (simp_all add: bt_get_insert bt_ordered_insert,
      simp_all add: bt_get_def bt_ordered_def)

lemma bt_collect_fold: "bt_collect kvs m = fold (\<lambda>(k, v) m. bt_insert k v m) kvs m"
  by (induction kvs m rule: bt_collect.induct) auto

lemma bt_get_collect: "bt_get (bt_collect kvs []) k = map_of (rev kvs) k"
  using bt.get_put_all [of kvs k] by (simp add: bt.put_all_def bt_collect_fold)

lemma bt_ordered_collect: "bt_ordered (bt_collect kvs [])"
  using bt.invar_put_all [of kvs] by (simp add: bt.put_all_def bt_collect_fold)

end
