(* ===== verification/Core_Values.thy ===== *)
theory Core_Values
  imports FF_Prelude
begin

text \<open>
  \<^verbatim>\<open>crates/core/src/value.rs\<close> and \<^verbatim>\<open>context.rs\<close>: the dynamically typed payload of a
  variant, the attribute values conditions compare against, and the evaluation context with
  the subject a rollout hashes on.
\<close>

section \<open>JSON values\<close>

text \<open>\<^verbatim>\<open>serde_json::Value\<close>; a number is an unsigned or a negative integer or a double.\<close>

datatype json_number = PosInt u64 | NegInt int | Float f64

datatype json =
    JNull
  | JBool bool
  | JNumber json_number
  | JString string
  | JArray "json list"
  | JObject "(string \<times> json) list"

fun json_number_as_f64 :: "json_number \<Rightarrow> f64 option" where
  "json_number_as_f64 (PosInt n) = Some (f64_of_int (uint n))"
| "json_number_as_f64 (NegInt i) = Some (f64_of_int i)"
| "json_number_as_f64 (Float x) = Some x"

section \<open>Variant payloads\<close>

datatype variant_value =
    VBool bool
  | VNumber f64
  | VString string
  | VJson json

fun variant_as_bool :: "variant_value \<Rightarrow> bool option" where
  "variant_as_bool (VBool b) = Some b"
| "variant_as_bool (VJson (JBool b)) = Some b"
| "variant_as_bool _ = None"

fun variant_as_f64 :: "variant_value \<Rightarrow> f64 option" where
  "variant_as_f64 (VNumber n) = Some n"
| "variant_as_f64 (VJson (JNumber n)) = json_number_as_f64 n"
| "variant_as_f64 _ = None"

fun variant_as_str :: "variant_value \<Rightarrow> string option" where
  "variant_as_str (VString s) = Some s"
| "variant_as_str (VJson (JString s)) = Some s"
| "variant_as_str _ = None"

definition variant_null :: variant_value where
  "variant_null = VJson JNull"

section \<open>Attribute values\<close>

datatype attribute_value =
    ABool bool
  | ANumber f64
  | AString string
  | AList "attribute_value list"

fun attr_as_str :: "attribute_value \<Rightarrow> string option" where
  "attr_as_str (AString s) = Some s"
| "attr_as_str _ = None"

fun attr_as_f64 :: "attribute_value \<Rightarrow> f64 option" where
  "attr_as_f64 (ANumber n) = Some n"
| "attr_as_f64 _ = None"

text \<open>
  An integral double below \<open>10 ^ 15\<close> is printed through \<^verbatim>\<open>i64\<close>, so without a fraction.
\<close>

fun format_number :: "f64 \<Rightarrow> string" where
  "format_number (Finite x) =
     (if x = of_int \<lfloor>x\<rfloor> \<and> \<bar>x\<bar> < 10 ^ 15 then show_int \<lfloor>x\<rfloor>
      else f64_to_string (Finite x))"
| "format_number n = f64_to_string n"

fun attr_to_text :: "attribute_value \<Rightarrow> string option" where
  "attr_to_text (AString s) = Some s"
| "attr_to_text (ABool b) = Some (show_bool b)"
| "attr_to_text (ANumber n) = Some (format_number n)"
| "attr_to_text (AList _) = None"

fun attr_scalars :: "attribute_value \<Rightarrow> attribute_value list" where
  "attr_scalars (AList items) = items"
| "attr_scalars v = [v]"

lemma attr_to_text_None_iff: "attr_to_text v = None \<longleftrightarrow> (\<exists>vs. v = AList vs)"
  by (cases v) auto

section \<open>The evaluation context\<close>

record evaluation_context =
  ctx_key :: string
  ctx_attributes :: "(string, attribute_value) btree"

definition context_new :: "string \<Rightarrow> evaluation_context" where
  "context_new k = \<lparr>ctx_key = k, ctx_attributes = []\<rparr>"

definition context_with ::
  "evaluation_context \<Rightarrow> string \<Rightarrow> attribute_value \<Rightarrow> evaluation_context" where
  "context_with ctx name v = ctx\<lparr>ctx_attributes := bt_insert name v (ctx_attributes ctx)\<rparr>"

definition ctx_attribute :: "evaluation_context \<Rightarrow> string \<Rightarrow> attribute_value option" where
  "ctx_attribute ctx name = bt_get (ctx_attributes ctx) name"

text \<open>The string a rollout hashes on: the context key, or the text of the named attribute.\<close>

definition bucketing_subject :: "evaluation_context \<Rightarrow> string option \<Rightarrow> string option" where
  "bucketing_subject ctx bucket_by =
     (case bucket_by of
        None \<Rightarrow> Some (ctx_key ctx)
      | Some name \<Rightarrow> Option.bind (bt_get (ctx_attributes ctx) name) attr_to_text)"

lemmas context_defs [model_defs] =
  context_new_def context_with_def ctx_attribute_def bucketing_subject_def bt_get_def

lemma ctx_attribute_with [simp]:
  "ctx_attribute (context_with ctx name v) n =
     (if n = name then Some v else ctx_attribute ctx n)"
  by (simp add: ctx_attribute_def context_with_def bt_get_insert)

lemma context_with_key [simp]: "ctx_key (context_with ctx name v) = ctx_key ctx"
  by (simp add: context_with_def)

lemma bucketing_subject_key [simp]: "bucketing_subject ctx None = Some (ctx_key ctx)"
  by (simp add: bucketing_subject_def)

lemma bucketing_subject_None_iff:
  "bucketing_subject ctx b = None \<longleftrightarrow>
     (\<exists>name. b = Some name \<and>
        (ctx_attribute ctx name = None \<or> (\<exists>vs. ctx_attribute ctx name = Some (AList vs))))"
  by (auto simp: bucketing_subject_def ctx_attribute_def attr_to_text_None_iff
      split: option.splits bind_split)

end
