(* ===== verification/Core_Model.thy ===== *)
theory Core_Model
  imports Core_Values
begin

text \<open>
  \<^verbatim>\<open>crates/core/src/flag.rs\<close> and \<^verbatim>\<open>segment.rs\<close>: the configuration model. A flag has
  variants, a master switch, an off variant, a fallthrough distribution and ordered rules; a
  segment is a named audience. The functions of third-party crates the engine calls (SHA-256,
  regular expressions, semantic versions, UUID printing) are the fields of
  \<^verbatim>\<open>externals\<close>, an argument of every definition that uses them.
\<close>

section \<open>Third-party code\<close>

record ('re, 'ver) externals =
  sha256 :: "string \<Rightarrow> string"
  regex_new :: "string \<Rightarrow> string + 're"
  regex_is_match :: "'re \<Rightarrow> string \<Rightarrow> bool"
  semver_parse :: "string \<Rightarrow> 'ver option"
  semver_less :: "'ver \<Rightarrow> 'ver \<Rightarrow> bool"
  uuid_to_string :: "uuid \<Rightarrow> string"

section \<open>Flags\<close>

definition TOTAL_WEIGHT :: u32 where
  "TOTAL_WEIGHT = 100000"

record variant =
  variant_key :: string
  variant_value :: variant_value

record weighted_variant =
  wv_variant :: string
  wv_weight :: u32

datatype distribution =
    Fixed string
  | Rollout "weighted_variant list" "string option"

datatype operator =
    In
  | NotIn
  | Contains
  | NotContains
  | StartsWith
  | EndsWith
  | GreaterThan
  | GreaterThanOrEqual
  | LessThan
  | LessThanOrEqual
  | Matches
  | NotMatches
  | SemverEqual
  | SemverGreaterThan
  | SemverLessThan
  | Exists
  | NotExists

definition is_negated :: "operator \<Rightarrow> bool" where
  "is_negated op = (op \<in> {NotIn, NotContains, NotMatches, NotExists})"

definition takes_values :: "operator \<Rightarrow> bool" where
  "takes_values op = (op \<notin> {Exists, NotExists})"

text \<open>The derived \<^verbatim>\<open>Debug\<close> output of an operator, which an error message prints.\<close>

fun operator_debug :: "operator \<Rightarrow> string" where
  "operator_debug In = ''In''"
| "operator_debug NotIn = ''NotIn''"
| "operator_debug Contains = ''Contains''"
| "operator_debug NotContains = ''NotContains''"
| "operator_debug StartsWith = ''StartsWith''"
| "operator_debug EndsWith = ''EndsWith''"
| "operator_debug GreaterThan = ''GreaterThan''"
| "operator_debug GreaterThanOrEqual = ''GreaterThanOrEqual''"
| "operator_debug LessThan = ''LessThan''"
| "operator_debug LessThanOrEqual = ''LessThanOrEqual''"
| "operator_debug Matches = ''Matches''"
| "operator_debug NotMatches = ''NotMatches''"
| "operator_debug SemverEqual = ''SemverEqual''"
| "operator_debug SemverGreaterThan = ''SemverGreaterThan''"
| "operator_debug SemverLessThan = ''SemverLessThan''"
| "operator_debug Exists = ''Exists''"
| "operator_debug NotExists = ''NotExists''"

record condition =
  cond_attribute :: string
  cond_operator :: operator
  cond_values :: "attribute_value list"

section \<open>Segments\<close>

record segment_match =
  sm_any_of :: "string list"
  sm_none_of :: "string list"

definition segment_match_any_of :: "string list \<Rightarrow> segment_match" where
  "segment_match_any_of keys = \<lparr>sm_any_of = keys, sm_none_of = []\<rparr>"

definition segment_match_none_of :: "string list \<Rightarrow> segment_match" where
  "segment_match_none_of keys = \<lparr>sm_any_of = [], sm_none_of = keys\<rparr>"

definition segment_match_is_empty :: "segment_match \<Rightarrow> bool" where
  "segment_match_is_empty m = (sm_any_of m = [] \<and> sm_none_of m = [])"

definition segment_match_referenced :: "segment_match \<Rightarrow> string list" where
  "segment_match_referenced m = sm_any_of m @ sm_none_of m"

record segment_rollout =
  sr_percentage :: u32
  sr_bucket_by :: "string option"

record segment_rule =
  srule_id :: uuid
  srule_description :: "string option"
  srule_conditions :: "condition list"
  srule_rollout :: "segment_rollout option"

definition segment_rule_new :: "uuid \<Rightarrow> condition list \<Rightarrow> segment_rule" where
  "segment_rule_new i cs =
     \<lparr>srule_id = i, srule_description = None, srule_conditions = cs, srule_rollout = None\<rparr>"

text \<open>\<^verbatim>\<open>BTreeSet<String>\<close> is the ascending list of its elements.\<close>

record segment =
  seg_key :: string
  seg_description :: "string option"
  seg_included :: "string list"
  seg_excluded :: "string list"
  seg_rules :: "segment_rule list"
  seg_version :: int

definition segment_new :: "string \<Rightarrow> segment" where
  "segment_new k =
     \<lparr>seg_key = k, seg_description = None, seg_included = [], seg_excluded = [],
      seg_rules = [], seg_version = 1\<rparr>"

definition segment_with_rules :: "segment \<Rightarrow> segment_rule list \<Rightarrow> segment" where
  "segment_with_rules s rs = s\<lparr>seg_rules := rs\<rparr>"

type_synonym segment_set = "(string, segment) btree"

section \<open>Rules and flags\<close>

record rule =
  rule_id :: uuid
  rule_description :: "string option"
  rule_conditions :: "condition list"
  rule_segments :: "segment_match option"
  rule_distribution :: distribution

definition rule_new :: "uuid \<Rightarrow> condition list \<Rightarrow> distribution \<Rightarrow> rule" where
  "rule_new i cs d =
     \<lparr>rule_id = i, rule_description = None, rule_conditions = cs, rule_segments = None,
      rule_distribution = d\<rparr>"

definition rule_targeting :: "rule \<Rightarrow> segment_match \<Rightarrow> rule" where
  "rule_targeting r m = r\<lparr>rule_segments := Some m\<rparr>"

record flag =
  flag_key :: string
  flag_variants :: "variant list"
  flag_enabled :: bool
  flag_off_variant :: string
  flag_fallthrough :: distribution
  flag_rules :: "rule list"
  flag_version :: int

definition flag_boolean :: "string \<Rightarrow> flag" where
  "flag_boolean k =
     \<lparr>flag_key = k,
      flag_variants =
        [\<lparr>variant_key = ''on'', variant_value = VBool True\<rparr>,
         \<lparr>variant_key = ''off'', variant_value = VBool False\<rparr>],
      flag_enabled = False, flag_off_variant = ''off'', flag_fallthrough = Fixed ''on'',
      flag_rules = [], flag_version = 1\<rparr>"

definition flag_variant :: "flag \<Rightarrow> string \<Rightarrow> variant option" where
  "flag_variant f k = find (\<lambda>v. variant_key v = k) (flag_variants f)"

definition flag_with_rules :: "flag \<Rightarrow> rule list \<Rightarrow> flag" where
  "flag_with_rules f rs = f\<lparr>flag_rules := rs\<rparr>"

definition flag_set_enabled :: "flag \<Rightarrow> bool \<Rightarrow> flag" where
  "flag_set_enabled f b = f\<lparr>flag_enabled := b\<rparr>"

lemmas model_builders [model_defs] =
  segment_match_any_of_def segment_match_none_of_def segment_match_is_empty_def
  segment_match_referenced_def segment_rule_new_def segment_new_def segment_with_rules_def
  rule_new_def rule_targeting_def flag_boolean_def flag_variant_def flag_with_rules_def
  flag_set_enabled_def TOTAL_WEIGHT_def is_negated_def takes_values_def

lemma flag_variant_Some:
  "flag_variant f k = Some v \<Longrightarrow> variant_key v = k \<and> v \<in> set (flag_variants f)"
  by (auto simp: flag_variant_def find_Some_iff)

lemma flag_variant_None_iff:
  "flag_variant f k = None \<longleftrightarrow> k \<notin> variant_key ` set (flag_variants f)"
  by (auto simp: flag_variant_def find_None_iff)

lemma unat_TOTAL_WEIGHT [simp]: "unat TOTAL_WEIGHT = 100000"
  by (simp add: TOTAL_WEIGHT_def)

end
