(* ===== verification/Core_Bucket.thy ===== *)
theory Core_Bucket
  imports Core_Model
begin

text \<open>
  \<^verbatim>\<open>crates/core/src/bucket.rs\<close>: the hash of (salt, key, subject) into \<open>[0, TOTAL_WEIGHT)\<close>
  and the walk over cumulative weights. SHA-256 is third-party code; what is relied on is that
  a digest has 32 bytes. The lemmas show that the hashed bytes determine the triple, that the
  bucket is in range, that the walk finds the unique interval holding the bucket, that the
  share of every variant is exactly its weight, and that raising the first weight only adds
  buckets to the first variant.
\<close>

section \<open>Definitions\<close>

text \<open>\<^verbatim>\<open>u64::to_be_bytes\<close> and \<^verbatim>\<open>u64::from_be_bytes\<close>.\<close>

definition u64_to_be_bytes :: "u64 \<Rightarrow> string" where
  "u64_to_be_bytes w = map (\<lambda>i. char_of (unat w div 256 ^ (7 - i))) [0..<8]"

definition u64_from_be_bytes :: "string \<Rightarrow> u64" where
  "u64_from_be_bytes bs = fold (\<lambda>c acc. acc * 256 + of_char c) bs 0"

definition hashed_part :: "string \<Rightarrow> string" where
  "hashed_part part = u64_to_be_bytes (of_nat (length part)) @ part"

definition bucket_input :: "string \<Rightarrow> string \<Rightarrow> string \<Rightarrow> string" where
  "bucket_input salt key subject = concat (map hashed_part [salt, key, subject])"

definition bucket ::
  "('re, 'ver) externals \<Rightarrow> string \<Rightarrow> string \<Rightarrow> string \<Rightarrow> u32" where
  "bucket X salt key subject =
     (let digest = sha256 X (bucket_input salt key subject);
          head = u64_from_be_bytes (take 8 digest)
      in ucast (head mod ucast TOTAL_WEIGHT))"

fun pick_from :: "u64 \<Rightarrow> weighted_variant list \<Rightarrow> u32 \<Rightarrow> string option" where
  "pick_from cumulative [] b = None"
| "pick_from cumulative (entry # es) b =
     (let cumulative' = cumulative + ucast (wv_weight entry)
      in if ucast b < cumulative' then Some (wv_variant entry)
         else pick_from cumulative' es b)"

definition pick_weighted :: "weighted_variant list \<Rightarrow> u32 \<Rightarrow> string option" where
  "pick_weighted weights b = pick_from 0 weights b"

lemmas bucket_defs [model_defs] =
  u64_to_be_bytes_def u64_from_be_bytes_def hashed_part_def bucket_input_def bucket_def
  pick_weighted_def

section \<open>The hashed bytes determine the triple\<close>

lemma length_u64_to_be_bytes [simp]: "length (u64_to_be_bytes w) = 8"
  by (simp add: u64_to_be_bytes_def)

lemma div_256_digits:
  fixes n :: nat
  assumes "n < 256 ^ k" and "m < 256 ^ k"
    and "\<And>i. i < k \<Longrightarrow> n div 256 ^ i mod 256 = m div 256 ^ i mod 256"
  shows "n = m"
  using assms
proof (induction k arbitrary: n m)
  case 0
  then show ?case by simp
next
  case (Suc k)
  have "n div 256 div 256 ^ i mod 256 = m div 256 div 256 ^ i mod 256" if "i < k" for i
    using Suc.prems(3) [of "Suc i"] that by (simp add: div_mult2_eq)
  moreover have "n div 256 < 256 ^ k" and "m div 256 < 256 ^ k"
    using Suc.prems(1,2) by (auto simp: less_mult_imp_div_less mult.commute)
  ultimately have "n div 256 = m div 256" by (rule Suc.IH [rotated 2])
  moreover have "n mod 256 = m mod 256" using Suc.prems(3) [of 0] by simp
  ultimately show ?case by (metis div_mult_mod_eq)
qed

lemma u64_to_be_bytes_nth:
  assumes "i < 8"
  shows "u64_to_be_bytes w ! i = char_of (unat w div 256 ^ (7 - i))"
proof -
  have "[0..<8] ! i = i" using assms by (simp add: nth_upt)
  moreover have "i < length [0..<8]" using assms by simp
  ultimately show ?thesis by (simp only: u64_to_be_bytes_def nth_map)
qed

lemma u64_to_be_bytes_digit:
  assumes "u64_to_be_bytes v = u64_to_be_bytes w" and "i < 8"
  shows "unat v div 256 ^ i mod 256 = unat w div 256 ^ i mod 256"
proof -
  have "7 - i < 8" and i: "7 - (7 - i) = i" using assms(2) by auto
  then have pos: "u64_to_be_bytes x ! (7 - i) = char_of (unat x div 256 ^ i)" for x
    by (simp only: u64_to_be_bytes_nth i)
  have "(char_of (unat v div 256 ^ i) :: char) = char_of (unat w div 256 ^ i)"
    using assms(1) by (simp only: flip: pos)
  then have "(of_char (char_of (unat v div 256 ^ i)) :: nat) =
      of_char (char_of (unat w div 256 ^ i))"
    by (simp only:)
  then show ?thesis by (simp only: of_char_of)
qed

lemma u64_to_be_bytes_inj:
  assumes "u64_to_be_bytes v = u64_to_be_bytes w"
  shows "v = w"
proof -
  have bound: "unat x < 256 ^ 8" for x :: u64
    using unat_u64_bound [of x] by simp
  have "unat v = unat w"
    by (rule div_256_digits [OF bound bound]) (rule u64_to_be_bytes_digit [OF assms])
  then show ?thesis by (simp add: word_unat_eq_iff)
qed

lemma hashed_part_append_inj:
  assumes "length p < 2 ^ 64" and "length q < 2 ^ 64"
    and eq: "hashed_part p @ r = hashed_part q @ s"
  shows "p = q \<and> r = s"
proof -
  from eq have "u64_to_be_bytes (of_nat (length p)) = u64_to_be_bytes (of_nat (length q))"
    and rest: "p @ r = q @ s"
    by (auto simp: hashed_part_def)
  then have "(of_nat (length p) :: u64) = of_nat (length q)" by (blast dest: u64_to_be_bytes_inj)
  then have "length p = length q"
    using assms(1,2) by (metis unat_u64_of_nat)
  with rest show ?thesis by simp
qed

lemma bucket_input_eq_iff:
  assumes "length s < 2 ^ 64" and "length k < 2 ^ 64" and "length u < 2 ^ 64"
    and "length s' < 2 ^ 64" and "length k' < 2 ^ 64" and "length u' < 2 ^ 64"
  shows "bucket_input s k u = bucket_input s' k' u' \<longleftrightarrow> s = s' \<and> k = k' \<and> u = u'"
proof
  assume "bucket_input s k u = bucket_input s' k' u'"
  then have "hashed_part s @ hashed_part k @ hashed_part u =
      hashed_part s' @ hashed_part k' @ hashed_part u'"
    by (simp add: bucket_input_def)
  then have "s = s'" and "hashed_part k @ hashed_part u = hashed_part k' @ hashed_part u'"
    using hashed_part_append_inj [OF assms(1,4)] by auto
  moreover from this(2) have "k = k'" and "hashed_part u @ [] = hashed_part u' @ []"
    using hashed_part_append_inj [OF assms(2,5)] by auto
  moreover from this(2) have "u = u'"
    using hashed_part_append_inj [OF assms(3,6)] by auto
  ultimately show "s = s' \<and> k = k' \<and> u = u'" by simp
qed simp

section \<open>Weights as natural numbers\<close>

definition weight_sum :: "weighted_variant list \<Rightarrow> nat" where
  "weight_sum ws = sum_list (map (unat \<circ> wv_weight) ws)"

fun pick_nat :: "nat \<Rightarrow> weighted_variant list \<Rightarrow> nat \<Rightarrow> string option" where
  "pick_nat c [] b = None"
| "pick_nat c (e # es) b =
     (if b < c + unat (wv_weight e) then Some (wv_variant e)
      else pick_nat (c + unat (wv_weight e)) es b)"

lemma weight_sum_simps [simp]:
  "weight_sum [] = 0"
  "weight_sum (e # es) = unat (wv_weight e) + weight_sum es"
  by (simp_all add: weight_sum_def)

lemma weight_sum_append [simp]: "weight_sum (xs @ ys) = weight_sum xs + weight_sum ys"
  by (simp add: weight_sum_def)

lemma weight_sum_bound: "weight_sum ws \<le> length ws * (2 ^ 32 - 1)"
proof (induction ws)
  case (Cons e ws)
  have "unat (wv_weight e) \<le> 2 ^ 32 - 1" using unat_u32_bound [of "wv_weight e"] by simp
  with Cons show ?case by simp
qed simp

lemma weight_sum_no_wrap: "length ws < 2 ^ 32 \<Longrightarrow> weight_sum ws < 2 ^ 64"
proof -
  assume "length ws < 2 ^ 32"
  then have "length ws * (2 ^ 32 - 1) \<le> (2 ^ 32) * (2 ^ 32 - 1 :: nat)" by simp
  with weight_sum_bound [of ws] show ?thesis by simp
qed

lemma pick_from_nat:
  "unat c + weight_sum ws < 2 ^ 64 \<Longrightarrow> pick_from c ws b = pick_nat (unat c) ws (unat b)"
proof (induction ws arbitrary: c)
  case Nil
  then show ?case by simp
next
  case (Cons e ws)
  have c': "unat (c + ucast (wv_weight e) :: u64) = unat c + unat (wv_weight e)"
    using Cons.prems by (simp add: unat_word_ariths)
  have lt: "(ucast b < (c + ucast (wv_weight e) :: u64)) = (unat b < unat c + unat (wv_weight e))"
    by (simp add: word_less_nat_alt c')
  have "pick_from (c + ucast (wv_weight e)) ws b = pick_nat (unat c + unat (wv_weight e)) ws (unat b)"
    using Cons.IH [of "c + ucast (wv_weight e)"] Cons.prems by (simp add: c')
  with lt show ?case by (simp add: Let_def)
qed

lemma pick_weighted_nat:
  "length ws < 2 ^ 32 \<Longrightarrow> pick_weighted ws b = pick_nat 0 ws (unat b)"
  unfolding pick_weighted_def
  using pick_from_nat [of 0 ws b] weight_sum_no_wrap [of ws] by simp

lemma pick_nat_None_iff: "pick_nat c ws b = None \<longleftrightarrow> c + weight_sum ws \<le> b \<or> ws = []"
  by (induction ws arbitrary: c) auto

lemma pick_nat_at:
  assumes "i < length ws"
    and "c + weight_sum (take i ws) \<le> b" and "b < c + weight_sum (take (Suc i) ws)"
  shows "pick_nat c ws b = Some (wv_variant (ws ! i))"
  using assms
proof (induction ws arbitrary: c i)
  case Nil
  then show ?case by simp
next
  case (Cons e ws)
  show ?case
  proof (cases i)
    case 0
    with Cons.prems show ?thesis by simp
  next
    case (Suc j)
    with Cons.prems have "pick_nat (c + unat (wv_weight e)) ws b = Some (wv_variant (ws ! j))"
      by (intro Cons.IH) (simp_all add: add.assoc)
    with Suc Cons.prems show ?thesis by simp
  qed
qed

text \<open>Every bucket below the total lies in exactly one of the cumulative intervals.\<close>

lemma weight_interval_exists:
  "b < weight_sum ws \<Longrightarrow>
     \<exists>i < length ws. weight_sum (take i ws) \<le> b \<and> b < weight_sum (take (Suc i) ws)"
proof (induction ws rule: rev_induct)
  case Nil
  then show ?case by simp
next
  case (snoc e ws)
  show ?case
  proof (cases "b < weight_sum ws")
    case True
    then obtain i where "i < length ws"
      and "weight_sum (take i ws) \<le> b" and "b < weight_sum (take (Suc i) ws)"
      using snoc.IH by blast
    then show ?thesis by (intro exI [of _ i]) simp
  next
    case False
    with snoc.prems show ?thesis by (intro exI [of _ "length ws"]) simp
  qed
qed

lemma weight_sum_take_mono: "i \<le> j \<Longrightarrow> weight_sum (take i ws) \<le> weight_sum (take j ws)"
  by (metis le_add1 le_iff_add take_add weight_sum_append)

lemma weight_sum_take_Suc:
  "i < length ws \<Longrightarrow>
     weight_sum (take (Suc i) ws) = weight_sum (take i ws) + unat (wv_weight (ws ! i))"
  by (simp add: take_Suc_conv_app_nth)

lemma weight_interval_unique:
  assumes "weight_sum (take i ws) \<le> b" and "b < weight_sum (take (Suc i) ws)"
    and "weight_sum (take j ws) \<le> b" and "b < weight_sum (take (Suc j) ws)"
  shows "i = j"
  using assms weight_sum_take_mono [of "Suc i" j ws] weight_sum_take_mono [of "Suc j" i ws]
  by (cases i j rule: linorder_cases) auto

lemma card_u32_interval:
  assumes "n \<le> 2 ^ 32"
  shows "card {b :: u32. m \<le> unat b \<and> unat b < n} = n - m"
proof -
  have "{b :: u32. m \<le> unat b \<and> unat b < n} = of_nat ` {m..<n}"
  proof safe
    fix b :: u32
    assume "m \<le> unat b" and "unat b < n"
    then show "b \<in> of_nat ` {m..<n}" by (intro image_eqI [of _ _ "unat b"]) auto
  qed (use assms in \<open>auto simp: unat_of_nat\<close>)
  moreover have "inj_on (of_nat :: nat \<Rightarrow> u32) {m..<n}"
    by (rule inj_on_inverseI [of _ unat]) (use assms in \<open>auto simp: unat_of_nat\<close>)
  ultimately show ?thesis by (simp add: card_image)
qed

text \<open>A bucket is below the total weight, whatever the digest is.\<close>

lemma bucket_in_range: "bucket X salt key subject < TOTAL_WEIGHT"
proof -
  define h where "h = u64_from_be_bytes (take 8 (sha256 X (bucket_input salt key subject)))"
  have "unat (h mod ucast TOTAL_WEIGHT) < 100000"
    by (simp add: unat_mod_distrib TOTAL_WEIGHT_def)
  then have "unat (ucast (h mod ucast TOTAL_WEIGHT) :: u32) < 100000"
    by (simp add: unsigned_ucast_eq le_less_trans [OF take_bit_nat_less_eq_self])
  then show ?thesis
    by (simp add: bucket_def h_def Let_def word_less_nat_alt)
qed

section \<open>Properties\<close>

text \<open>
  The bytes fed to the hash determine the salt, the key and the subject: length prefixes
  make the concatenation unambiguous, so distinct triples never hash the same input.
\<close>

theorem bucket_input_injective:
  assumes "length s < 2 ^ 64" and "length k < 2 ^ 64" and "length u < 2 ^ 64"
    and "length s' < 2 ^ 64" and "length k' < 2 ^ 64" and "length u' < 2 ^ 64"
    and "(s, k, u) \<noteq> (s', k', u')"
  shows "bucket_input s k u \<noteq> bucket_input s' k' u'"
  using assms by (auto simp: bucket_input_eq_iff)

theorem bucket_input_injective_witness:
  "bucket_input ''s'' ''ab'' ''c'' \<noteq> bucket_input ''s'' ''a'' ''bc''"
  by (rule bucket_input_injective) simp_all

text \<open>
  C20. The walk over the cumulative weights returns the variant of an entry exactly when the
  bucket lies in that entry's interval, and nothing exactly when the bucket is at or beyond
  the sum of the weights; no sum wraps around.
\<close>

theorem pick_weighted_spec:
  assumes "length ws < 2 ^ 32"
  shows "pick_weighted ws b =
    (case find (\<lambda>i. weight_sum (take i ws) \<le> unat b \<and> unat b < weight_sum (take (Suc i) ws))
            [0..<length ws] of
       None \<Rightarrow> None
     | Some i \<Rightarrow> Some (wv_variant (ws ! i)))
    \<and> (pick_weighted ws b = None \<longleftrightarrow> weight_sum ws \<le> unat b)"
proof -
  have none: "pick_weighted ws b = None \<longleftrightarrow> weight_sum ws \<le> unat b"
    using assms pick_nat_None_iff [of 0 ws "unat b"] by (auto simp: pick_weighted_nat)
  show ?thesis
  proof (cases "find (\<lambda>i. weight_sum (take i ws) \<le> unat b \<and> unat b < weight_sum (take (Suc i) ws))
            [0..<length ws]")
    case None
    then have "\<not> unat b < weight_sum ws"
      using weight_interval_exists [of "unat b" ws] by (auto simp: find_None_iff)
    with none None show ?thesis by simp
  next
    case (Some i)
    then have "i < length ws" "weight_sum (take i ws) \<le> unat b"
      "unat b < weight_sum (take (Suc i) ws)"
      by (auto simp: find_Some_iff)
    with assms have "pick_weighted ws b = Some (wv_variant (ws ! i))"
      by (simp add: pick_weighted_nat pick_nat_at)
    with none Some show ?thesis by simp
  qed
qed

abbreviation demo_weights :: "weighted_variant list" where
  "demo_weights \<equiv> [\<lparr>wv_variant = ''a'', wv_weight = 30000\<rparr>, \<lparr>wv_variant = ''b'', wv_weight = 70000\<rparr>]"

theorem pick_weighted_spec_witness:
  "pick_weighted demo_weights 29999 = Some ''a'' \<and> pick_weighted demo_weights 30000 = Some ''b''
   \<and> pick_weighted demo_weights 100000 = None"
  using pick_weighted_spec [of demo_weights 29999] pick_weighted_spec [of demo_weights 30000]
    pick_weighted_spec [of demo_weights 100000]
  by (simp add: upt_rec)

text \<open>
  When the weights of a rollout form a full partition over distinct variants, each
  variant owns exactly its weight in buckets, no more and no fewer.
\<close>

theorem rollout_share_exact:
  assumes "distinct (map wv_variant ws)" and "weight_sum ws = unat TOTAL_WEIGHT"
    and "length ws < 2 ^ 32" and "i < length ws"
  shows "card {b. b < TOTAL_WEIGHT \<and> pick_weighted ws b = Some (wv_variant (ws ! i))}
    = unat (wv_weight (ws ! i))"
proof -
  have pick: "pick_weighted ws b = Some (wv_variant (ws ! i)) \<longleftrightarrow>
      weight_sum (take i ws) \<le> unat b \<and> unat b < weight_sum (take (Suc i) ws)"
    if b: "b < TOTAL_WEIGHT" for b
  proof -
    obtain j where j: "j < length ws" "weight_sum (take j ws) \<le> unat b"
      "unat b < weight_sum (take (Suc j) ws)"
      using weight_interval_exists [of "unat b" ws] b assms(2) by (auto simp: word_less_nat_alt)
    then have "pick_weighted ws b = Some (wv_variant (ws ! j))"
      using assms(3) by (simp add: pick_weighted_nat pick_nat_at)
    moreover have "wv_variant (ws ! j) = wv_variant (ws ! i) \<longleftrightarrow> j = i"
      using assms(1,4) j(1) nth_eq_iff_index_eq [of "map wv_variant ws" j i] by simp
    ultimately show ?thesis
      using weight_interval_unique [of i ws "unat b" j] j by auto
  qed
  have le: "weight_sum (take (Suc i) ws) \<le> unat TOTAL_WEIGHT"
    using weight_sum_take_mono [of "Suc i" "length ws" ws] assms(2,4) by simp
  have "{b. b < TOTAL_WEIGHT \<and> pick_weighted ws b = Some (wv_variant (ws ! i))} =
      {b. weight_sum (take i ws) \<le> unat b \<and> unat b < weight_sum (take (Suc i) ws)}"
    using pick le by (auto simp: word_less_nat_alt)
  then show ?thesis
    using le card_u32_interval [of "weight_sum (take (Suc i) ws)" "weight_sum (take i ws)"]
    by (simp add: weight_sum_take_Suc assms(4))
qed

theorem rollout_share_exact_witness:
  "card {b. b < TOTAL_WEIGHT \<and> pick_weighted demo_weights b = Some ''b''} = 70000"
  using rollout_share_exact [of demo_weights 1] by simp

text \<open>
  Ramping up is sticky: raising the weight of the first variant of a rollout keeps every
  bucket it already had, whatever happens to the other weights.
\<close>

theorem ramp_up_is_sticky:
  assumes "w \<le> w'" and "b < w"
  shows "pick_weighted (\<lparr>wv_variant = v, wv_weight = w\<rparr> # rest) b = Some v \<and>
    pick_weighted (\<lparr>wv_variant = v, wv_weight = w'\<rparr> # rest') b = Some v"
proof -
  have "unat b < unat w" and "unat b < unat w'"
    using assms by (auto simp: word_less_nat_alt word_le_nat_alt)
  then have "(ucast b :: u64) < ucast w" and "(ucast b :: u64) < ucast w'"
    by (simp_all add: word_less_nat_alt)
  then show ?thesis by (simp add: pick_weighted_def Let_def)
qed

theorem ramp_up_is_sticky_witness:
  "pick_weighted (\<lparr>wv_variant = ''on'', wv_weight = 5000\<rparr> # []) 4999 = Some ''on'' \<and>
   pick_weighted (\<lparr>wv_variant = ''on'', wv_weight = 20000\<rparr> # []) 4999 = Some ''on''"
  by (rule ramp_up_is_sticky) simp_all

end
