(* ===== verification/Core_Matcher.thy ===== *)
theory Core_Matcher
  imports Core_Bucket
begin

text \<open>
  \<^verbatim>\<open>crates/core/src/matcher.rs\<close>: conditions, segment membership and rule matching, and the
  bounded process-wide cache of compiled regular expressions. Matching is modelled twice: as a
  pure function over the external regex compiler, and as the code runs it, threading the cache
  through every comparison. The lemmas show that the two agree in every reachable cache state.
\<close>

section \<open>Comparisons\<close>

record evaluation_env =
  env_salt :: string
  env_segments :: segment_set

fun positive_counterpart :: "operator \<Rightarrow> operator" where
  "positive_counterpart NotIn = In"
| "positive_counterpart NotContains = Contains"
| "positive_counterpart NotMatches = Matches"
| "positive_counterpart op = op"

definition attr_equals :: "attribute_value \<Rightarrow> attribute_value \<Rightarrow> bool" where
  "attr_equals actual expected =
     (case (attr_as_f64 actual, attr_as_f64 expected) of
        (Some a, Some e) \<Rightarrow> f64_eq a e
      | _ \<Rightarrow> (case (attr_to_text actual, attr_to_text expected) of
               (Some a, Some e) \<Rightarrow> a = e
             | _ \<Rightarrow> False))"

definition text_pair :: "attribute_value \<Rightarrow> attribute_value \<Rightarrow> (string \<times> string) option" where
  "text_pair actual expected =
     do { a \<leftarrow> attr_to_text actual; e \<leftarrow> attr_to_text expected; Some (a, e) }"

definition numeric_pair :: "attribute_value \<Rightarrow> attribute_value \<Rightarrow> (f64 \<times> f64) option" where
  "numeric_pair actual expected =
     do { a \<leftarrow> attr_as_f64 actual; e \<leftarrow> attr_as_f64 expected; Some (a, e) }"

text \<open>Versions with one or two parts are padded; anything else that does not parse is refused.\<close>

definition lenient_semver :: "('re, 'ver) externals \<Rightarrow> string \<Rightarrow> 'ver option" where
  "lenient_semver X raw =
     (case semver_parse X raw of
        Some v \<Rightarrow> Some v
      | None \<Rightarrow>
          (let parts = length (split_on CHR ''.'' raw)
           in if parts = 1 then semver_parse X (raw @ ''.0.0'')
              else if parts = 2 then semver_parse X (raw @ ''.0'')
              else None))"

definition semver_pair ::
  "('re, 'ver) externals \<Rightarrow> attribute_value \<Rightarrow> attribute_value \<Rightarrow> ('ver \<times> 'ver) option" where
  "semver_pair X actual expected =
     do { (a, e) \<leftarrow> text_pair actual expected;
          va \<leftarrow> lenient_semver X a; ve \<leftarrow> lenient_semver X e; Some (va, ve) }"

definition is_some_and :: "'a option \<Rightarrow> ('a \<Rightarrow> bool) \<Rightarrow> bool" where
  "is_some_and x P = (case x of None \<Rightarrow> False | Some v \<Rightarrow> P v)"

text \<open>The compiled pattern, without the cache: \<^verbatim>\<open>Regex::new(pattern).ok()\<close>.\<close>

definition regex_compile :: "('re, 'ver) externals \<Rightarrow> string \<Rightarrow> 're option" where
  "regex_compile X pattern = (case regex_new X pattern of Inl _ \<Rightarrow> None | Inr re \<Rightarrow> Some re)"

fun compare ::
  "('re, 'ver) externals \<Rightarrow> operator \<Rightarrow> attribute_value \<Rightarrow> attribute_value \<Rightarrow> bool" where
  "compare X In a e = attr_equals a e"
| "compare X Contains a e = is_some_and (text_pair a e) (\<lambda>(a, e). str_contains a e)"
| "compare X StartsWith a e = is_some_and (text_pair a e) (\<lambda>(a, e). starts_with a e)"
| "compare X EndsWith a e = is_some_and (text_pair a e) (\<lambda>(a, e). ends_with a e)"
| "compare X GreaterThan a e = is_some_and (numeric_pair a e) (\<lambda>(a, e). f64_lt e a)"
| "compare X GreaterThanOrEqual a e = is_some_and (numeric_pair a e) (\<lambda>(a, e). f64_le e a)"
| "compare X LessThan a e = is_some_and (numeric_pair a e) (\<lambda>(a, e). f64_lt a e)"
| "compare X LessThanOrEqual a e = is_some_and (numeric_pair a e) (\<lambda>(a, e). f64_le a e)"
| "compare X Matches a e =
     (case (attr_to_text a, attr_as_str e) of
        (Some text, Some pattern) \<Rightarrow>
          is_some_and (regex_compile X pattern) (\<lambda>re. regex_is_match X re text)
      | _ \<Rightarrow> False)"
| "compare X SemverEqual a e = is_some_and (semver_pair X a e) (\<lambda>(a, e). a = e)"
| "compare X SemverGreaterThan a e = is_some_and (semver_pair X a e) (\<lambda>(a, e). semver_less X e a)"
| "compare X SemverLessThan a e = is_some_and (semver_pair X a e) (\<lambda>(a, e). semver_less X a e)"
| "compare X Exists a e = False"
| "compare X NotExists a e = False"
| "compare X NotIn a e = False"
| "compare X NotContains a e = False"
| "compare X NotMatches a e = False"

definition condition_matches ::
  "('re, 'ver) externals \<Rightarrow> condition \<Rightarrow> evaluation_context \<Rightarrow> bool" where
  "condition_matches X c ctx =
     (let present = ctx_attribute ctx (cond_attribute c) in
      if cond_operator c = Exists then present \<noteq> None
      else if cond_operator c = NotExists then present = None
      else (case present of
        None \<Rightarrow> False
      | Some actual \<Rightarrow>
          if cond_values c = [] then False
          else let base = positive_counterpart (cond_operator c);
                   any_match = list_ex (\<lambda>scalar. list_ex (compare X base scalar) (cond_values c))
                     (attr_scalars actual)
               in if is_negated (cond_operator c) then \<not> any_match else any_match))"

section \<open>Segments and rules\<close>

definition segment_namespace :: "string \<Rightarrow> string" where
  "segment_namespace segment_key = ''segment:'' @ segment_key"

definition segment_rule_matches ::
  "('re, 'ver) externals \<Rightarrow> segment_rule \<Rightarrow> string \<Rightarrow> evaluation_context \<Rightarrow> string \<Rightarrow> bool" where
  "segment_rule_matches X rule segment_key ctx salt =
     (if \<not> list_all (\<lambda>c. condition_matches X c ctx) (srule_conditions rule) then False
      else (case srule_rollout rule of
        None \<Rightarrow> True
      | Some rollout \<Rightarrow>
          (case bucketing_subject ctx (sr_bucket_by rollout) of
             None \<Rightarrow> False
           | Some subject \<Rightarrow>
               bucket X salt (segment_namespace segment_key) subject < sr_percentage rollout)))"

definition segment_contains ::
  "('re, 'ver) externals \<Rightarrow> segment \<Rightarrow> evaluation_context \<Rightarrow> string \<Rightarrow> bool" where
  "segment_contains X segment ctx salt =
     (if ctx_key ctx \<in> set (seg_excluded segment) then False
      else if ctx_key ctx \<in> set (seg_included segment) then True
      else list_ex (\<lambda>rule. segment_rule_matches X rule (seg_key segment) ctx salt)
             (seg_rules segment))"

definition in_segment ::
  "('re, 'ver) externals \<Rightarrow> string \<Rightarrow> evaluation_context \<Rightarrow> evaluation_env \<Rightarrow> bool" where
  "in_segment X key ctx env =
     is_some_and (bt_get (env_segments env) key)
       (\<lambda>segment. segment_contains X segment ctx (env_salt env))"

definition segment_match_holds ::
  "('re, 'ver) externals \<Rightarrow> segment_match \<Rightarrow> evaluation_context \<Rightarrow> evaluation_env \<Rightarrow> bool" where
  "segment_match_holds X required ctx env =
     (let positive = (sm_any_of required = [] \<or>
            list_ex (\<lambda>k. in_segment X k ctx env) (sm_any_of required))
      in positive \<and> \<not> list_ex (\<lambda>k. in_segment X k ctx env) (sm_none_of required))"

definition rule_matches ::
  "('re, 'ver) externals \<Rightarrow> rule \<Rightarrow> evaluation_context \<Rightarrow> evaluation_env \<Rightarrow> bool" where
  "rule_matches X rule ctx env =
     (list_all (\<lambda>c. condition_matches X c ctx) (rule_conditions rule) \<and>
      (case rule_segments rule of None \<Rightarrow> True | Some m \<Rightarrow> segment_match_holds X m ctx env))"

section \<open>The cache of compiled patterns\<close>

definition REGEX_CACHE_CAPACITY :: nat where
  "REGEX_CACHE_CAPACITY = 1024"

text \<open>
  The cache is a hash map from pattern to the compiled expression, or to \<^const>\<open>None\<close> for a
  pattern that does not compile; its order does not matter. The lock is only poisoned by a
  panic inside a critical section, and none of them can panic.
\<close>

type_synonym 're regex_cache = "(string, 're option) btree"

definition compiled ::
  "('re, 'ver) externals \<Rightarrow> string \<Rightarrow> 're regex_cache \<Rightarrow> 're option \<times> 're regex_cache" where
  "compiled X pattern cache =
     (case bt_get cache pattern of
        Some entry \<Rightarrow> (entry, cache)
      | None \<Rightarrow>
          (let re = regex_compile X pattern
           in (re, if length cache < REGEX_CACHE_CAPACITY then bt_insert pattern re cache
                   else cache)))"

definition compare_cached ::
  "('re, 'ver) externals \<Rightarrow> operator \<Rightarrow> attribute_value \<Rightarrow> attribute_value \<Rightarrow>
     're regex_cache \<Rightarrow> bool \<times> 're regex_cache" where
  "compare_cached X op a e cache =
     (case (op, attr_to_text a, attr_as_str e) of
        (Matches, Some text, Some pattern) \<Rightarrow>
          (let (re, cache') = compiled X pattern cache
           in (is_some_and re (\<lambda>re. regex_is_match X re text), cache'))
      | _ \<Rightarrow> (compare X op a e, cache))"

text \<open>\<^verbatim>\<open>Iterator::any\<close> with a stateful predicate: it stops at the first hit.\<close>

fun any_st :: "('a \<Rightarrow> 's \<Rightarrow> bool \<times> 's) \<Rightarrow> 'a list \<Rightarrow> 's \<Rightarrow> bool \<times> 's" where
  "any_st f [] s = (False, s)"
| "any_st f (x # xs) s = (let (b, s') = f x s in if b then (True, s') else any_st f xs s')"

definition condition_matches_cached ::
  "('re, 'ver) externals \<Rightarrow> condition \<Rightarrow> evaluation_context \<Rightarrow> 're regex_cache \<Rightarrow>
     bool \<times> 're regex_cache" where
  "condition_matches_cached X c ctx cache =
     (let present = ctx_attribute ctx (cond_attribute c) in
      if cond_operator c = Exists then (present \<noteq> None, cache)
      else if cond_operator c = NotExists then (present = None, cache)
      else (case present of
        None \<Rightarrow> (False, cache)
      | Some actual \<Rightarrow>
          if cond_values c = [] then (False, cache)
          else let base = positive_counterpart (cond_operator c);
                   (any_match, cache') =
                     any_st (\<lambda>scalar. any_st (compare_cached X base scalar) (cond_values c))
                       (attr_scalars actual) cache
               in (if is_negated (cond_operator c) then \<not> any_match else any_match, cache')))"

text \<open>The states the cache reaches, whatever patterns the threads of the process ask for.\<close>

inductive cache_reachable :: "('re, 'ver) externals \<Rightarrow> 're regex_cache \<Rightarrow> bool"
  for X :: "('re, 'ver) externals" where
  cache_start: "cache_reachable X []"
| cache_step: "cache_reachable X cache \<Longrightarrow> cache_reachable X (snd (compiled X pattern cache))"

lemmas matcher_defs [model_defs] =
  attr_equals_def text_pair_def numeric_pair_def lenient_semver_def semver_pair_def
  is_some_and_def regex_compile_def condition_matches_def segment_namespace_def
  segment_rule_matches_def segment_contains_def in_segment_def segment_match_holds_def
  rule_matches_def

section \<open>Lemmas\<close>

lemma is_some_and_simps [simp]:
  "is_some_and None P = False"
  "is_some_and (Some v) P = P v"
  by (simp_all add: is_some_and_def)

definition cache_coherent :: "('re, 'ver) externals \<Rightarrow> 're regex_cache \<Rightarrow> bool" where
  "cache_coherent X cache =
     (length cache \<le> REGEX_CACHE_CAPACITY \<and>
      (\<forall>p entry. bt_get cache p = Some entry \<longrightarrow> entry = regex_compile X p))"

lemma length_bt_insert: "length (bt_insert k v m) \<le> Suc (length m)"
  by (induction m) auto

lemma compiled_coherent:
  assumes "cache_coherent X cache"
  shows "fst (compiled X p cache) = regex_compile X p"
    and "cache_coherent X (snd (compiled X p cache))"
  using assms length_bt_insert [of p "regex_compile X p" cache]
  by (auto simp: compiled_def cache_coherent_def bt_get_insert Let_def split: option.splits)

lemma cache_reachable_coherent: "cache_reachable X cache \<Longrightarrow> cache_coherent X cache"
proof (induction rule: cache_reachable.induct)
  case cache_start
  show ?case by (simp add: cache_coherent_def bt_get_def)
next
  case (cache_step cache pattern)
  from cache_step.IH show ?case by (rule compiled_coherent(2))
qed

lemma compare_cached_correct:
  assumes "cache_reachable X cache"
  shows "fst (compare_cached X op a e cache) = compare X op a e"
    and "cache_reachable X (snd (compare_cached X op a e cache))"
  using compiled_coherent(1) [OF cache_reachable_coherent [OF assms]]
    cache_step [OF assms] assms
  by (auto simp: compare_cached_def split_beta Let_def split: operator.split option.split)

lemma any_st_correct:
  assumes "\<And>x s. P s \<Longrightarrow> fst (f x s) = g x \<and> P (snd (f x s))" and "P s"
  shows "fst (any_st f xs s) = list_ex g xs \<and> P (snd (any_st f xs s))"
  using assms(2)
  by (induction xs arbitrary: s) (auto simp: assms(1) split_beta Let_def)

lemma condition_matches_cached_reachable:
  assumes "cache_reachable X cache"
  shows "fst (condition_matches_cached X c ctx cache) = condition_matches X c ctx \<and>
    cache_reachable X (snd (condition_matches_cached X c ctx cache))"
proof -
  have inner: "fst (any_st (compare_cached X op a) vs s) = list_ex (compare X op a) vs \<and>
      cache_reachable X (snd (any_st (compare_cached X op a) vs s))"
    if "cache_reachable X s" for op a vs s
    by (rule any_st_correct [where P = "cache_reachable X"])
       (simp_all add: compare_cached_correct that)
  have outer: "fst (any_st (\<lambda>a. any_st (compare_cached X op a) vs) as cache) =
        list_ex (\<lambda>a. list_ex (compare X op a) vs) as \<and>
      cache_reachable X (snd (any_st (\<lambda>a. any_st (compare_cached X op a) vs) as cache))"
    for op vs as
    by (rule any_st_correct [where P = "cache_reachable X"]) (simp_all add: inner assms)
  show ?thesis
    using assms outer [of "positive_counterpart (cond_operator c)" "cond_values c"]
    by (auto simp: condition_matches_cached_def condition_matches_def Let_def split_beta
        split: option.splits)
qed

lemma in_segment_unknown: "bt_get (env_segments env) k = None \<Longrightarrow> \<not> in_segment X k ctx env"
  by (simp add: in_segment_def)

lemma segment_contains_excluded:
  "ctx_key ctx \<in> set (seg_excluded s) \<Longrightarrow> \<not> segment_contains X s ctx salt"
  by (simp add: segment_contains_def)

lemma in_segment_excluded:
  "bt_get (env_segments env) k = Some s \<Longrightarrow> ctx_key ctx \<in> set (seg_excluded s) \<Longrightarrow>
     \<not> in_segment X k ctx env"
  by (simp add: in_segment_def segment_contains_excluded)

text \<open>One rule is at least as wide as another: the same conditions, a larger or no rollout.\<close>

definition rule_widens :: "segment_rule \<Rightarrow> segment_rule \<Rightarrow> bool" where
  "rule_widens r r' =
     (srule_conditions r = srule_conditions r' \<and>
      (case (srule_rollout r, srule_rollout r') of
         (_, None) \<Rightarrow> True
       | (Some a, Some b) \<Rightarrow> sr_bucket_by a = sr_bucket_by b \<and> sr_percentage a \<le> sr_percentage b
       | (None, Some _) \<Rightarrow> False))"

lemma segment_rule_matches_widens:
  "rule_widens r r' \<Longrightarrow> segment_rule_matches X r k ctx salt \<Longrightarrow> segment_rule_matches X r' k ctx salt"
  by (auto simp: rule_widens_def segment_rule_matches_def split: option.splits if_splits)

lemma list_ex_all2:
  "list_all2 R xs ys \<Longrightarrow> (\<And>x y. R x y \<Longrightarrow> P x \<Longrightarrow> Q y) \<Longrightarrow> list_ex P xs \<Longrightarrow> list_ex Q ys"
  by (induction rule: list_all2_induct) auto

text \<open>Concrete third-party functions for the witnesses.\<close>

definition demo_externals :: "(string, nat) externals" where
  "demo_externals =
     \<lparr>sha256 = (\<lambda>s. take 32 (rev s @ replicate 32 (char_of (0 :: nat)))),
      regex_new = (\<lambda>p. if p = ''(['' then Inl ''unclosed group'' else Inr p),
      regex_is_match = (\<lambda>re s. str_contains s re),
      semver_parse = (\<lambda>s. if length (split_on CHR ''.'' s) = 3 then Some (length s) else None),
      semver_less = (<),
      uuid_to_string = (\<lambda>u. show_nat (unat u))\<rparr>"

definition demo_context :: evaluation_context where
  "demo_context =
     context_with (context_with (context_new ''user-1'') ''plan'' (AString ''pro''))
       ''email'' (AString ''ada@example.com'')"

lemmas demo_defs = demo_externals_def demo_context_def

section \<open>Properties\<close>

text \<open>
  C24. The cache of compiled regular expressions is transparent and bounded: in every state it
  can reach, evaluating a condition through the cache gives the answer of evaluating it
  without one, leaves the cache reachable, and the cache holds at most 1024 patterns.
\<close>

theorem regex_cache_transparent:
  assumes "cache_reachable X cache"
  shows "fst (condition_matches_cached X c ctx cache) = condition_matches X c ctx \<and>
    cache_reachable X (snd (condition_matches_cached X c ctx cache)) \<and>
    length cache \<le> REGEX_CACHE_CAPACITY"
  using condition_matches_cached_reachable [OF assms] cache_reachable_coherent [OF assms]
  by (simp add: cache_coherent_def)

theorem regex_cache_transparent_witness:
  "fst (condition_matches_cached demo_externals
     \<lparr>cond_attribute = ''email'', cond_operator = Matches, cond_values = [AString ''ada@'']\<rparr>
     demo_context []) = True"
  using regex_cache_transparent [OF cache_start, of demo_externals
      "\<lparr>cond_attribute = ''email'', cond_operator = Matches, cond_values = [AString ''ada@'']\<rparr>"
      demo_context]
  by (simp add: demo_defs condition_matches_def is_negated_def regex_compile_def starts_with_def
      context_new_def)

text \<open>
  A condition on an attribute the context does not carry matches for exactly one
  operator, \<^verbatim>\<open>not_exists\<close>: in particular no other negated operator targets contexts that
  forgot to send the attribute.
\<close>

theorem missing_attribute_fails_closed:
  assumes "ctx_attribute ctx (cond_attribute c) = None"
  shows "condition_matches X c ctx \<longleftrightarrow> cond_operator c = NotExists"
  using assms by (cases "cond_operator c") (simp_all add: condition_matches_def)

theorem missing_attribute_fails_closed_witness:
  "\<not> condition_matches demo_externals
     \<lparr>cond_attribute = ''country'', cond_operator = NotIn, cond_values = [AString ''US'']\<rparr>
     demo_context"
  using missing_attribute_fails_closed [of demo_context
      "\<lparr>cond_attribute = ''country'', cond_operator = NotIn, cond_values = [AString ''US'']\<rparr>"
      demo_externals]
  by (simp add: demo_context_def context_new_def ctx_attribute_def bt_get_def context_with_def)

text \<open>
  On an attribute that is present, with at least one value to compare against, each
  negated operator is exactly the complement of its positive twin, also for lists.
\<close>

theorem negated_operator_complement:
  assumes "(pos, neg) \<in> {(In, NotIn), (Contains, NotContains), (Matches, NotMatches)}"
    and "ctx_attribute ctx a = Some v" and "vs \<noteq> []"
  shows "condition_matches X \<lparr>cond_attribute = a, cond_operator = neg, cond_values = vs\<rparr> ctx \<longleftrightarrow>
    \<not> condition_matches X \<lparr>cond_attribute = a, cond_operator = pos, cond_values = vs\<rparr> ctx"
  using assms by (auto simp: condition_matches_def is_negated_def)

theorem negated_operator_complement_witness:
  "condition_matches demo_externals
     \<lparr>cond_attribute = ''plan'', cond_operator = NotIn, cond_values = [AString ''free'']\<rparr> demo_context \<longleftrightarrow>
   \<not> condition_matches demo_externals
     \<lparr>cond_attribute = ''plan'', cond_operator = In, cond_values = [AString ''free'']\<rparr> demo_context"
  by (rule negated_operator_complement [where v = "AString ''pro''"])
     (simp_all add: demo_context_def context_new_def)

text \<open>
  Widening a segment never loses a member: if every rule of a segment keeps its
  conditions and its bucketing attribute and its percentage is raised (or its rollout
  dropped), the included list grows and the excluded list shrinks, then every context that
  was a member still is.
\<close>

theorem widening_keeps_members:
  assumes "list_all2 rule_widens (seg_rules s) (seg_rules s')" and "seg_key s' = seg_key s"
    and "set (seg_included s) \<subseteq> set (seg_included s')"
    and "set (seg_excluded s') \<subseteq> set (seg_excluded s)"
    and "segment_contains X s ctx salt"
  shows "segment_contains X s' ctx salt"
proof -
  have "list_ex (\<lambda>r. segment_rule_matches X r (seg_key s) ctx salt) (seg_rules s')"
    if "list_ex (\<lambda>r. segment_rule_matches X r (seg_key s) ctx salt) (seg_rules s)"
    using list_ex_all2 [OF assms(1) segment_rule_matches_widens that] .
  then show ?thesis
    using assms(2-5) by (auto simp: segment_contains_def split: if_splits)
qed

definition demo_cohort :: "u32 \<Rightarrow> segment" where
  "demo_cohort p =
     (segment_new ''beta'')\<lparr>seg_included := [''u''], seg_rules :=
        [(segment_rule_new 1 [])\<lparr>srule_rollout := Some \<lparr>sr_percentage = p, sr_bucket_by = None\<rparr>\<rparr>]\<rparr>"

theorem widening_keeps_members_witness:
  "segment_contains demo_externals (demo_cohort 50000) (context_new ''u'') ''salt''"
  by (rule widening_keeps_members [of "demo_cohort 0"])
     (simp_all add: demo_cohort_def segment_new_def segment_rule_new_def rule_widens_def
        segment_contains_def context_new_def)

text \<open>
  The two ends of a segment rollout: a rule without conditions and with the full
  percentage admits exactly the contexts that have the bucketing attribute, and with
  percentage zero it admits nobody.
\<close>

theorem segment_rollout_extremes:
  "(segment_rule_matches X
      ((segment_rule_new i [])\<lparr>srule_rollout := Some \<lparr>sr_percentage = TOTAL_WEIGHT, sr_bucket_by = b\<rparr>\<rparr>)
      k ctx salt \<longleftrightarrow> bucketing_subject ctx b \<noteq> None) \<and>
   \<not> segment_rule_matches X
      ((segment_rule_new i [])\<lparr>srule_rollout := Some \<lparr>sr_percentage = 0, sr_bucket_by = b\<rparr>\<rparr>)
      k ctx salt"
  using bucket_in_range
  by (auto simp: segment_rule_matches_def segment_rule_new_def split: option.splits)

end
