(* ===== verification/Core_Engine.thy ===== *)
theory Core_Engine
  imports Core_Matcher
begin

text \<open>
  \<^verbatim>\<open>crates/core/src/engine.rs\<close>: evaluation of a flag for a context. Evaluation never fails:
  an inconsistent flag degrades to the value of its off variant with an explanatory reason.
\<close>

section \<open>Definitions\<close>

definition evaluation_env_new :: "string \<Rightarrow> evaluation_env" where
  "evaluation_env_new salt = \<lparr>env_salt = salt, env_segments = []\<rparr>"

definition evaluation_env_with_segments :: "string \<Rightarrow> segment_set \<Rightarrow> evaluation_env" where
  "evaluation_env_with_segments salt segs = \<lparr>env_salt = salt, env_segments = segs\<rparr>"

datatype reason =
    Off
  | TargetMatch uuid nat
  | Fallthrough
  | FlagNotFound
  | Error string

fun is_healthy :: "reason \<Rightarrow> bool" where
  "is_healthy (Error _) = False"
| "is_healthy FlagNotFound = False"
| "is_healthy _ = True"

record evaluation =
  ev_flag_key :: string
  ev_variant :: "string option"
  ev_value :: variant_value
  ev_reason :: reason
  ev_version :: int

definition evaluation_not_found :: "string \<Rightarrow> variant_value \<Rightarrow> evaluation" where
  "evaluation_not_found k fallback =
     \<lparr>ev_flag_key = k, ev_variant = None, ev_value = fallback, ev_reason = FlagNotFound,
      ev_version = 0\<rparr>"

definition is_on :: "evaluation \<Rightarrow> bool" where
  "is_on e = (case variant_as_bool (ev_value e) of None \<Rightarrow> False | Some b \<Rightarrow> b)"

definition degrade :: "flag \<Rightarrow> string \<Rightarrow> evaluation" where
  "degrade f message =
     \<lparr>ev_flag_key = flag_key f, ev_variant = None,
      ev_value = (case flag_variant f (flag_off_variant f) of
                    None \<Rightarrow> variant_null | Some v \<Rightarrow> variant_value v),
      ev_reason = Error message, ev_version = flag_version f\<rparr>"

definition serve :: "flag \<Rightarrow> string \<Rightarrow> reason \<Rightarrow> evaluation" where
  "serve f key reason =
     (case flag_variant f key of
        Some v \<Rightarrow>
          \<lparr>ev_flag_key = flag_key f, ev_variant = Some (variant_key v),
           ev_value = variant_value v, ev_reason = reason, ev_version = flag_version f\<rparr>
      | None \<Rightarrow> degrade f (''variant '' @ quoted key @ '' is not defined on this flag''))"

definition resolve ::
  "('re, 'ver) externals \<Rightarrow> flag \<Rightarrow> distribution \<Rightarrow> evaluation_context \<Rightarrow> string \<Rightarrow>
     string + string" where
  "resolve X f d ctx salt =
     (case d of
        Fixed v \<Rightarrow> Inr v
      | Rollout weights bucket_by \<Rightarrow>
          (case bucketing_subject ctx bucket_by of
             None \<Rightarrow>
               Inl (''rollout buckets on attribute '' @
                    quoted (case bucket_by of None \<Rightarrow> ''<key>'' | Some a \<Rightarrow> a) @
                    '', which the context did not provide'')
           | Some subject \<Rightarrow>
               (let slot = bucket X salt (flag_key f) subject
                in case pick_weighted weights slot of
                     Some v \<Rightarrow> Inr v
                   | None \<Rightarrow>
                       Inl (''rollout weights do not cover bucket '' @ show_nat (unat slot)))))"

text \<open>What both arms of \<^verbatim>\<open>evaluate\<close> do with the distribution they reached.\<close>

definition answer ::
  "('re, 'ver) externals \<Rightarrow> flag \<Rightarrow> distribution \<Rightarrow> evaluation_context \<Rightarrow> string \<Rightarrow> reason \<Rightarrow>
     evaluation" where
  "answer X f d ctx salt reason =
     (case resolve X f d ctx salt of
        Inr v \<Rightarrow> serve f v reason
      | Inl message \<Rightarrow> degrade f message)"

fun eval_rules ::
  "('re, 'ver) externals \<Rightarrow> flag \<Rightarrow> evaluation_context \<Rightarrow> evaluation_env \<Rightarrow> nat \<Rightarrow> rule list \<Rightarrow>
     evaluation option" where
  "eval_rules X f ctx env index [] = None"
| "eval_rules X f ctx env index (rule # rules) =
     (if rule_matches X rule ctx env
      then Some (answer X f (rule_distribution rule) ctx (env_salt env)
                   (TargetMatch (rule_id rule) index))
      else eval_rules X f ctx env (Suc index) rules)"

definition evaluate ::
  "('re, 'ver) externals \<Rightarrow> flag \<Rightarrow> evaluation_context \<Rightarrow> evaluation_env \<Rightarrow> evaluation" where
  "evaluate X f ctx env =
     (if \<not> flag_enabled f then serve f (flag_off_variant f) Off
      else (case eval_rules X f ctx env 0 (flag_rules f) of
              Some e \<Rightarrow> e
            | None \<Rightarrow> answer X f (flag_fallthrough f) ctx (env_salt env) Fallthrough))"

lemmas engine_defs [model_defs] =
  evaluation_env_new_def evaluation_env_with_segments_def evaluation_not_found_def is_on_def
  degrade_def serve_def resolve_def answer_def evaluate_def

section \<open>Lemmas\<close>

text \<open>The distribution an enabled flag reaches, and the reason it reports for it.\<close>

definition reached ::
  "('re, 'ver) externals \<Rightarrow> flag \<Rightarrow> evaluation_context \<Rightarrow> evaluation_env \<Rightarrow> distribution \<times> reason"
  where
  "reached X f ctx env =
     (case find (\<lambda>i. rule_matches X (flag_rules f ! i) ctx env) [0..<length (flag_rules f)] of
        Some i \<Rightarrow> (rule_distribution (flag_rules f ! i), TargetMatch (rule_id (flag_rules f ! i)) i)
      | None \<Rightarrow> (flag_fallthrough f, Fallthrough))"

lemma eval_rules_None:
  "\<forall>r \<in> set rs. \<not> rule_matches X r ctx env \<Longrightarrow> eval_rules X f ctx env n rs = None"
  by (induction rs arbitrary: n) auto

lemma eval_rules_at:
  "i < length rs \<Longrightarrow> rule_matches X (rs ! i) ctx env \<Longrightarrow>
   \<forall>j < i. \<not> rule_matches X (rs ! j) ctx env \<Longrightarrow>
     eval_rules X f ctx env n rs =
       Some (answer X f (rule_distribution (rs ! i)) ctx (env_salt env)
               (TargetMatch (rule_id (rs ! i)) (n + i)))"
proof (induction rs arbitrary: n i)
  case Nil
  then show ?case by simp
next
  case (Cons r rs)
  show ?case
  proof (cases i)
    case 0
    with Cons.prems show ?thesis by simp
  next
    case (Suc j)
    with Cons.prems(3) have "\<not> rule_matches X r ctx env"
      and "\<forall>k < j. \<not> rule_matches X (rs ! k) ctx env" by auto
    with Suc Cons.prems(1,2) Cons.IH [of j "Suc n"] show ?thesis by simp
  qed
qed

lemma find_upt_Some_iff:
  "find P [0..<n] = Some i \<longleftrightarrow> i < n \<and> P i \<and> (\<forall>j < i. \<not> P j)"
  by (auto simp: find_Some_iff)

lemma evaluate_enabled:
  assumes "flag_enabled f"
  shows "evaluate X f ctx env =
    (case reached X f ctx env of (d, reason) \<Rightarrow> answer X f d ctx (env_salt env) reason)"
proof (cases "find (\<lambda>i. rule_matches X (flag_rules f ! i) ctx env) [0..<length (flag_rules f)]")
  case None
  then have "\<forall>r \<in> set (flag_rules f). \<not> rule_matches X r ctx env"
    by (auto simp: find_None_iff in_set_conv_nth)
  with None assms show ?thesis
    by (simp add: evaluate_def reached_def eval_rules_None)
next
  case (Some i)
  then have "i < length (flag_rules f)" and "rule_matches X (flag_rules f ! i) ctx env"
    and "\<forall>j < i. \<not> rule_matches X (flag_rules f ! j) ctx env"
    by (auto simp: find_upt_Some_iff)
  from eval_rules_at [OF this, of f 0] Some assms show ?thesis
    by (simp add: evaluate_def reached_def)
qed

lemma serve_defined:
  "key \<in> variant_key ` set (flag_variants f) \<Longrightarrow>
     ev_reason (serve f key reason) = reason \<and> ev_variant (serve f key reason) = Some key"
  using flag_variant_None_iff [of f key]
  by (auto simp: serve_def split: option.splits dest: flag_variant_Some)

lemma degrade_reason [simp]: "ev_reason (degrade f m) = Error m"
  and degrade_variant [simp]: "ev_variant (degrade f m) = None"
  and degrade_flag_key [simp]: "ev_flag_key (degrade f m) = flag_key f"
  and degrade_version [simp]: "ev_version (degrade f m) = flag_version f"
  by (simp_all add: degrade_def)

lemma serve_flag_key [simp]: "ev_flag_key (serve f k r) = flag_key f"
  and serve_version [simp]: "ev_version (serve f k r) = flag_version f"
  by (simp_all add: serve_def split: option.splits)

lemma answer_flag_key [simp]: "ev_flag_key (answer X f d ctx salt r) = flag_key f"
  and answer_version [simp]: "ev_version (answer X f d ctx salt r) = flag_version f"
  by (simp_all add: answer_def split: sum.splits)

lemma evaluate_flag_key [simp]: "ev_flag_key (evaluate X f ctx env) = flag_key f"
  by (cases "flag_enabled f")
     (simp add: evaluate_enabled split: prod.split, simp add: evaluate_def)

lemma evaluate_version [simp]: "ev_version (evaluate X f ctx env) = flag_version f"
  by (cases "flag_enabled f")
     (simp add: evaluate_enabled split: prod.split, simp add: evaluate_def)

text \<open>A decision either names a variant and carries its value, or is an error with a fallback.\<close>

definition decision_sound :: "flag \<Rightarrow> evaluation \<Rightarrow> bool" where
  "decision_sound f e =
     (case ev_variant e of
        Some k \<Rightarrow> list_ex (\<lambda>v. variant_key v = k \<and> variant_value v = ev_value e) (flag_variants f) \<and>
                  is_healthy (ev_reason e)
      | None \<Rightarrow> \<not> is_healthy (ev_reason e) \<and>
                (ev_value e = variant_null \<or>
                 list_ex (\<lambda>v. variant_key v = flag_off_variant f \<and> variant_value v = ev_value e)
                   (flag_variants f)))"

lemma degrade_sound: "decision_sound f (degrade f m)"
  by (auto simp: decision_sound_def degrade_def list_ex_iff split: option.splits
      dest: flag_variant_Some)

lemma serve_sound: "is_healthy r \<Longrightarrow> decision_sound f (serve f k r)"
  by (cases "flag_variant f k")
     (auto simp: serve_def degrade_sound, auto simp: decision_sound_def list_ex_iff
        dest: flag_variant_Some)

lemma answer_sound: "is_healthy r \<Longrightarrow> decision_sound f (answer X f d ctx salt r)"
  by (simp add: answer_def degrade_sound serve_sound split: sum.splits)

lemma reached_healthy: "is_healthy (snd (reached X f ctx env))"
  by (simp add: reached_def split: option.splits)

section \<open>Properties\<close>

text \<open>
  C12. The first matching rule decides: on an enabled flag, if rule \<open>i\<close> matches and no
  earlier rule does, the decision is the resolution of that rule's distribution, whatever the
  later rules and the fallthrough say; if no rule matches, the fallthrough decides.
\<close>

theorem first_matching_rule_wins:
  assumes "flag_enabled f"
    and "i \<le> length (flag_rules f)"
    and "\<forall>j < i. \<not> rule_matches X (flag_rules f ! j) ctx env"
    and "i = length (flag_rules f) \<or> rule_matches X (flag_rules f ! i) ctx env"
  shows "evaluate X f ctx env =
    (if i = length (flag_rules f)
     then answer X f (flag_fallthrough f) ctx (env_salt env) Fallthrough
     else answer X f (rule_distribution (flag_rules f ! i)) ctx (env_salt env)
            (TargetMatch (rule_id (flag_rules f ! i)) i))"
proof (cases "i = length (flag_rules f)")
  case True
  with assms(3) have "find (\<lambda>j. rule_matches X (flag_rules f ! j) ctx env) [0..<i] = None"
    by (auto simp: find_None_iff)
  with True assms(1) show ?thesis by (simp add: evaluate_enabled reached_def)
next
  case False
  with assms have "find (\<lambda>j. rule_matches X (flag_rules f ! j) ctx env)
      [0..<length (flag_rules f)] = Some i"
    by (auto simp: find_upt_Some_iff)
  with False assms(1) show ?thesis by (simp add: evaluate_enabled reached_def)
qed

abbreviation demo_rules :: "rule list" where
  "demo_rules \<equiv>
    [rule_new 1 [\<lparr>cond_attribute = ''plan'', cond_operator = In, cond_values = [AString ''free'']\<rparr>]
       (Fixed ''off''),
     rule_new 2 [] (Fixed ''on'')]"

definition demo_flag :: flag where
  "demo_flag = flag_set_enabled (flag_with_rules (flag_boolean ''checkout.v2'') demo_rules) True"

lemma demo_rule_matches:
  "\<not> rule_matches demo_externals (demo_rules ! 0) demo_context env"
  "rule_matches demo_externals (demo_rules ! 1) demo_context env"
  by (simp_all add: rule_matches_def rule_new_def condition_matches_def is_negated_def demo_context_def
      context_new_def attr_equals_def)

theorem first_matching_rule_wins_witness:
  "ev_reason (evaluate demo_externals demo_flag demo_context (evaluation_env_new ''s'')) = TargetMatch 2 1"
proof -
  have "evaluate demo_externals demo_flag demo_context (evaluation_env_new ''s'') =
      answer demo_externals demo_flag (Fixed ''on'') demo_context ''s'' (TargetMatch 2 1)"
    using first_matching_rule_wins [of demo_flag 1 demo_externals demo_context
        "evaluation_env_new ''s''"] demo_rule_matches [of "evaluation_env_new ''s''"]
    by (simp add: demo_flag_def flag_set_enabled_def flag_with_rules_def evaluation_env_new_def
        rule_new_def)
  then show ?thesis
    by (simp add: answer_def resolve_def serve_def demo_flag_def flag_set_enabled_def
        flag_with_rules_def flag_boolean_def flag_variant_def)
qed

text \<open>
  The master switch is absolute: a disabled flag gives the same answer in every context
  and environment and under every rule set, with the reason \<^verbatim>\<open>off\<close> whenever its off variant
  exists.
\<close>

theorem disabled_flag_ignores_everything:
  assumes "\<not> flag_enabled f"
  shows "evaluate X f ctx env =
      evaluate X' (f\<lparr>flag_rules := rules', flag_fallthrough := d'\<rparr>) ctx' env' \<and>
    (flag_off_variant f \<in> variant_key ` set (flag_variants f) \<longrightarrow>
       ev_reason (evaluate X f ctx env) = Off \<and>
       ev_variant (evaluate X f ctx env) = Some (flag_off_variant f))"
  using assms serve_defined [of "flag_off_variant f" f Off]
  by (auto simp: evaluate_def serve_def degrade_def flag_variant_def split: option.splits)

theorem disabled_flag_ignores_everything_witness:
  "ev_variant (evaluate demo_externals (flag_boolean ''f'') demo_context (evaluation_env_new ''s''))
     = Some ''off''"
  using disabled_flag_ignores_everything [where f = "flag_boolean ''f''" and
      X = demo_externals and ctx = demo_context and env = "evaluation_env_new ''s''",
      THEN conjunct2]
  by (simp add: flag_boolean_def)

text \<open>
  Evaluation always answers, and soundly: a decision that names a variant carries that
  variant's configured value under a healthy reason, and a decision that names none is an
  error whose value is the off variant's or null. The key and the version are the flag's.
\<close>

theorem evaluate_decision_sound:
  "decision_sound f (evaluate X f ctx env) \<and>
   ev_flag_key (evaluate X f ctx env) = flag_key f \<and>
   ev_version (evaluate X f ctx env) = flag_version f"
proof (cases "flag_enabled f")
  case True
  then show ?thesis
    using reached_healthy [of X f ctx env]
    by (auto simp: evaluate_enabled answer_sound split: prod.split)
next
  case False
  then show ?thesis by (simp add: evaluate_def serve_sound)
qed

text \<open>
  A rollout keeps a group together: two contexts with the same value of the bucketing
  attribute get the same variant from a flag whose traffic reaches a rollout on that
  attribute, however different their keys and their other attributes are.
\<close>

theorem rollout_group_sticky:
  assumes "bucketing_subject ctx b = bucketing_subject ctx' b"
  shows "answer X f (Rollout ws b) ctx salt reason = answer X f (Rollout ws b) ctx' salt reason"
  using assms by (simp add: answer_def resolve_def)

theorem rollout_group_sticky_witness:
  "answer demo_externals demo_flag (Rollout demo_weights (Some ''account''))
     (context_with (context_new ''u1'') ''account'' (AString ''acme'')) ''s'' Fallthrough =
   answer demo_externals demo_flag (Rollout demo_weights (Some ''account''))
     (context_with (context_new ''u2'') ''account'' (AString ''acme'')) ''s'' Fallthrough"
  by (rule rollout_group_sticky) (simp add: bucketing_subject_def context_with_def context_new_def)

end
