(* ===== verification/Core_Validate.thy ===== *)
theory Core_Validate
  imports Core_Engine
begin

text \<open>
  \<^verbatim>\<open>crates/core/src/validate.rs\<close>: what the write path refuses to persist. The checks are
  translated as the code runs them, accumulating issues with their paths and messages, and
  are then shown equivalent to a declarative notion of well-formed flag and segment. The
  properties connect validation with the engine: what a validated flag can and cannot answer.
\<close>

section \<open>Definitions\<close>

definition MAX_KEY_LEN :: nat where
  "MAX_KEY_LEN = 128"

record validation_issue =
  issue_path :: string
  issue_message :: string

definition issue :: "string \<Rightarrow> string \<Rightarrow> validation_issue" where
  "issue path message = \<lparr>issue_path = path, issue_message = message\<rparr>"

text \<open>The path segment \<^verbatim>\<open>name[i]\<close>.\<close>

definition indexed :: "string \<Rightarrow> nat \<Rightarrow> string" where
  "indexed name i = name @ ''['' @ show_nat i @ '']''"

definition is_valid_key :: "string \<Rightarrow> bool" where
  "is_valid_key key =
     (key \<noteq> [] \<and> length key \<le> MAX_KEY_LEN \<and>
      list_all (\<lambda>c. is_ascii_alphanumeric c \<or> c \<in> {CHR ''.'', CHR ''_'', CHR ''-''}) key)"

definition check_key :: "string \<Rightarrow> validation_issue list" where
  "check_key key =
     (if is_valid_key key then []
      else [issue ''key''
        (''must be 1-'' @ show_nat MAX_KEY_LEN @ '' characters of [a-zA-Z0-9], `.`, `_` or `-`, got '' @
         quoted key)])"

text \<open>The loop over the variants; \<open>seen\<close> is the hash set it fills.\<close>

fun check_variants :: "nat \<Rightarrow> string set \<Rightarrow> variant list \<Rightarrow> validation_issue list" where
  "check_variants i seen [] = []"
| "check_variants i seen (v # vs) =
     (let path = indexed ''variants'' i @ ''.key'' in
      (if is_valid_key (variant_key v) then []
       else [issue path (''invalid variant key '' @ quoted (variant_key v))]) @
      (if variant_key v \<in> seen
       then [issue path (''duplicate variant key '' @ quoted (variant_key v))] else []) @
      check_variants (Suc i) (insert (variant_key v) seen) vs)"

text \<open>The loop over the weights of a rollout.\<close>

fun check_weights ::
  "string \<Rightarrow> string set \<Rightarrow> nat \<Rightarrow> string set \<Rightarrow> weighted_variant list \<Rightarrow> validation_issue list" where
  "check_weights path variants i seen [] = []"
| "check_weights path variants i seen (w # ws) =
     (let here = path @ ''.'' @ indexed ''weights'' i @ ''.variant'' in
      (if wv_variant w \<in> variants then []
       else [issue here (quoted (wv_variant w) @ '' is not one of the flag's variants'')]) @
      (if wv_variant w \<in> seen
       then [issue here (quoted (wv_variant w) @ '' appears twice in the same rollout'')] else []) @
      check_weights path variants (Suc i) (insert (wv_variant w) seen) ws)"

text \<open>The sum of the weights, in 64 bits.\<close>

definition weights_total :: "weighted_variant list \<Rightarrow> u64" where
  "weights_total ws = fold (\<lambda>w total. total + ucast (wv_weight w)) ws 0"

definition check_bucket_by :: "string \<Rightarrow> string option \<Rightarrow> validation_issue list" where
  "check_bucket_by path bucket_by =
     (case bucket_by of
        None \<Rightarrow> []
      | Some attribute \<Rightarrow>
          if is_blank attribute
          then [issue (path @ ''.bucket_by'') ''bucketing attribute cannot be empty''] else [])"

fun check_distribution ::
  "distribution \<Rightarrow> string \<Rightarrow> string set \<Rightarrow> validation_issue list" where
  "check_distribution (Fixed v) path variants =
     (if v \<in> variants then []
      else [issue (path @ ''.variant'') (quoted v @ '' is not one of the flag's variants'')])"
| "check_distribution (Rollout weights bucket_by) path variants =
     (if weights = []
      then [issue (path @ ''.weights'') ''a rollout needs at least one weighted variant'']
      else check_weights path variants 0 {} weights @
        (if weights_total weights \<noteq> ucast TOTAL_WEIGHT
         then [issue (path @ ''.weights'')
                (''weights must sum to '' @ show_nat (unat TOTAL_WEIGHT) @ '' (got '' @
                 show_nat (unat (weights_total weights)) @ '')'')]
         else []) @
        check_bucket_by path bucket_by)"

fun check_patterns ::
  "('re, 'ver) externals \<Rightarrow> string \<Rightarrow> nat \<Rightarrow> attribute_value list \<Rightarrow> validation_issue list" where
  "check_patterns X path k [] = []"
| "check_patterns X path k (v # vs) =
     (let here = path @ ''.'' @ indexed ''values'' k in
      (case attr_as_str v of
         Some pattern \<Rightarrow>
           (case regex_new X pattern of
              Inl err \<Rightarrow> [issue here (''invalid regular expression: '' @ err)]
            | Inr _ \<Rightarrow> [])
       | None \<Rightarrow> [issue here ''regex operators take string patterns'']) @
      check_patterns X path (Suc k) vs)"

definition check_condition ::
  "('re, 'ver) externals \<Rightarrow> condition \<Rightarrow> string \<Rightarrow> validation_issue list" where
  "check_condition X c path =
     (if is_blank (cond_attribute c)
      then [issue (path @ ''.attribute'') ''attribute name cannot be empty''] else []) @
     (if takes_values (cond_operator c) \<and> cond_values c = []
      then [issue (path @ ''.values'')
             (''operator '' @ quoted (operator_debug (cond_operator c)) @
              '' requires at least one value'')]
      else []) @
     (if cond_operator c \<in> {Matches, NotMatches} then check_patterns X path 0 (cond_values c)
      else [])"

fun check_conditions_from ::
  "('re, 'ver) externals \<Rightarrow> nat \<Rightarrow> condition list \<Rightarrow> string \<Rightarrow> validation_issue list" where
  "check_conditions_from X j [] base_path = []"
| "check_conditions_from X j (c # cs) base_path =
     check_condition X c (base_path @ ''.'' @ indexed ''conditions'' j) @
     check_conditions_from X (Suc j) cs base_path"

definition check_conditions ::
  "('re, 'ver) externals \<Rightarrow> condition list \<Rightarrow> string \<Rightarrow> validation_issue list" where
  "check_conditions X cs base_path = check_conditions_from X 0 cs base_path"

definition check_segment_match :: "segment_match \<Rightarrow> string \<Rightarrow> validation_issue list" where
  "check_segment_match required path =
     (if segment_match_is_empty required
      then [issue path ''a segment requirement must name at least one segment'']
      else
        map (\<lambda>key. issue path ''segment key cannot be empty'')
          (filter is_blank (segment_match_referenced required)) @
        map (\<lambda>key. issue path
               (quoted key @ '' is both required and excluded, so the rule can never match''))
          (filter (\<lambda>key. key \<in> set (sm_none_of required)) (sm_any_of required)))"

fun check_rules ::
  "('re, 'ver) externals \<Rightarrow> string set \<Rightarrow> nat \<Rightarrow> uuid set \<Rightarrow> rule list \<Rightarrow> validation_issue list" where
  "check_rules X variants i seen [] = []"
| "check_rules X variants i seen (r # rs) =
     (let path = indexed ''rules'' i in
      (if rule_id r \<in> seen
       then [issue (path @ ''.id'')
              (''duplicate rule id '' @ quoted (uuid_to_string X (rule_id r)))] else []) @
      check_conditions X (rule_conditions r) path @
      (case rule_segments r of
         None \<Rightarrow> [] | Some required \<Rightarrow> check_segment_match required (path @ ''.segments'')) @
      check_distribution (rule_distribution r) (path @ ''.distribution'') variants @
      check_rules X variants (Suc i) (insert (rule_id r) seen) rs)"

definition issues_result :: "validation_issue list \<Rightarrow> validation_issue list + unit" where
  "issues_result issues = (if issues = [] then Inr () else Inl issues)"

definition validate ::
  "('re, 'ver) externals \<Rightarrow> flag \<Rightarrow> validation_issue list + unit" where
  "validate X f =
     (let variant_keys = set (map variant_key (flag_variants f)) in
      issues_result
        (check_key (flag_key f) @
         (if flag_variants f = []
          then [issue ''variants'' ''a flag needs at least one variant''] else []) @
         check_variants 0 {} (flag_variants f) @
         (if flag_off_variant f \<in> variant_keys then []
          else [issue ''off_variant''
                 (quoted (flag_off_variant f) @ '' is not one of the flag's variants'')]) @
         check_distribution (flag_fallthrough f) ''fallthrough'' variant_keys @
         check_rules X variant_keys 0 {} (flag_rules f)))"

definition check_segment_rollout ::
  "segment_rollout option \<Rightarrow> string \<Rightarrow> validation_issue list" where
  "check_segment_rollout rollout path =
     (case rollout of
        None \<Rightarrow> []
      | Some r \<Rightarrow>
          (if TOTAL_WEIGHT < sr_percentage r
           then [issue (path @ ''.percentage'')
                  (''must be between 0 and '' @ show_nat (unat TOTAL_WEIGHT) @ '' (got '' @
                   show_nat (unat (sr_percentage r)) @ '')'')]
           else []) @
          check_bucket_by path (sr_bucket_by r))"

fun check_segment_rules ::
  "('re, 'ver) externals \<Rightarrow> nat \<Rightarrow> uuid set \<Rightarrow> segment_rule list \<Rightarrow> validation_issue list" where
  "check_segment_rules X i seen [] = []"
| "check_segment_rules X i seen (r # rs) =
     (let path = indexed ''rules'' i in
      (if srule_id r \<in> seen
       then [issue (path @ ''.id'')
              (''duplicate rule id '' @ quoted (uuid_to_string X (srule_id r)))] else []) @
      check_conditions X (srule_conditions r) path @
      check_segment_rollout (srule_rollout r) (path @ ''.rollout'') @
      check_segment_rules X (Suc i) (insert (srule_id r) seen) rs)"

definition validate_segment ::
  "('re, 'ver) externals \<Rightarrow> segment \<Rightarrow> validation_issue list + unit" where
  "validate_segment X s =
     issues_result
       (check_key (seg_key s) @
        map (\<lambda>key. issue ''excluded'' (quoted key @ '' is both included and excluded''))
          (filter (\<lambda>key. key \<in> set (seg_excluded s)) (seg_included s)) @
        check_segment_rules X 0 {} (seg_rules s))"

fun check_references :: "nat \<Rightarrow> string set \<Rightarrow> rule list \<Rightarrow> validation_issue list" where
  "check_references i known [] = []"
| "check_references i known (r # rs) =
     (case rule_segments r of
        None \<Rightarrow> []
      | Some required \<Rightarrow>
          map (\<lambda>key. issue (indexed ''rules'' i @ ''.segments'')
                 (''no segment '' @ quoted key @ '' in this environment''))
            (filter (\<lambda>key. key \<notin> known) (segment_match_referenced required))) @
     check_references (Suc i) known rs"

definition validate_references ::
  "flag \<Rightarrow> string set \<Rightarrow> validation_issue list + unit" where
  "validate_references f known = issues_result (check_references 0 known (flag_rules f))"

lemmas validate_defs [model_defs] =
  MAX_KEY_LEN_def issue_def indexed_def is_valid_key_def check_key_def weights_total_def
  check_bucket_by_def check_condition_def check_conditions_def check_segment_match_def
  issues_result_def validate_def check_segment_rollout_def validate_segment_def
  validate_references_def

section \<open>Well-formedness, declaratively\<close>

definition wf_condition :: "('re, 'ver) externals \<Rightarrow> condition \<Rightarrow> bool" where
  "wf_condition X c =
     (\<not> is_blank (cond_attribute c) \<and>
      (takes_values (cond_operator c) \<longrightarrow> cond_values c \<noteq> []) \<and>
      (cond_operator c \<in> {Matches, NotMatches} \<longrightarrow>
         list_all (\<lambda>v. is_some_and (attr_as_str v) (\<lambda>p. regex_compile X p \<noteq> None)) (cond_values c)))"

definition wf_bucket_by :: "string option \<Rightarrow> bool" where
  "wf_bucket_by b = (b = None \<or> is_some_and b (\<lambda>a. \<not> is_blank a))"

fun wf_distribution :: "string set \<Rightarrow> distribution \<Rightarrow> bool" where
  "wf_distribution ks (Fixed v) = (v \<in> ks)"
| "wf_distribution ks (Rollout ws b) =
     (ws \<noteq> [] \<and> wv_variant ` set ws \<subseteq> ks \<and> distinct (map wv_variant ws) \<and>
      weight_sum ws = unat TOTAL_WEIGHT \<and> wf_bucket_by b)"

definition wf_segment_match :: "segment_match \<Rightarrow> bool" where
  "wf_segment_match m =
     (\<not> segment_match_is_empty m \<and> list_all (\<lambda>k. \<not> is_blank k) (segment_match_referenced m) \<and>
      set (sm_any_of m) \<inter> set (sm_none_of m) = {})"

definition wf_rule :: "('re, 'ver) externals \<Rightarrow> string set \<Rightarrow> rule \<Rightarrow> bool" where
  "wf_rule X ks r =
     (list_all (wf_condition X) (rule_conditions r) \<and>
      (rule_segments r = None \<or> is_some_and (rule_segments r) wf_segment_match) \<and>
      wf_distribution ks (rule_distribution r))"

definition wf_flag :: "('re, 'ver) externals \<Rightarrow> flag \<Rightarrow> bool" where
  "wf_flag X f =
     (let ks = variant_key ` set (flag_variants f) in
      is_valid_key (flag_key f) \<and> flag_variants f \<noteq> [] \<and>
      list_all (is_valid_key \<circ> variant_key) (flag_variants f) \<and>
      distinct (map variant_key (flag_variants f)) \<and> flag_off_variant f \<in> ks \<and>
      wf_distribution ks (flag_fallthrough f) \<and>
      distinct (map rule_id (flag_rules f)) \<and> list_all (wf_rule X ks) (flag_rules f))"

definition wf_segment_rule :: "('re, 'ver) externals \<Rightarrow> segment_rule \<Rightarrow> bool" where
  "wf_segment_rule X r =
     (list_all (wf_condition X) (srule_conditions r) \<and>
      (srule_rollout r = None \<or>
       is_some_and (srule_rollout r)
         (\<lambda>ro. sr_percentage ro \<le> TOTAL_WEIGHT \<and> wf_bucket_by (sr_bucket_by ro))))"

definition wf_segment :: "('re, 'ver) externals \<Rightarrow> segment \<Rightarrow> bool" where
  "wf_segment X s =
     (is_valid_key (seg_key s) \<and> set (seg_included s) \<inter> set (seg_excluded s) = {} \<and>
      distinct (map srule_id (seg_rules s)) \<and> list_all (wf_segment_rule X) (seg_rules s))"

text \<open>No rollout has \<open>2 ^ 32\<close> entries, so no 64-bit sum of 32-bit weights wraps.\<close>

fun small_distribution :: "distribution \<Rightarrow> bool" where
  "small_distribution (Fixed v) = True"
| "small_distribution (Rollout ws b) = (length ws < 2 ^ 32)"

definition small_flag :: "flag \<Rightarrow> bool" where
  "small_flag f =
     (small_distribution (flag_fallthrough f) \<and>
      list_all (small_distribution \<circ> rule_distribution) (flag_rules f))"

lemmas wf_definitions [wf_defs] =
  wf_condition_def wf_bucket_by_def wf_segment_match_def wf_rule_def wf_flag_def
  wf_segment_rule_def wf_segment_def small_flag_def

section \<open>Each check accepts exactly the well-formed\<close>

lemma issues_result_Inr [simp]: "issues_result is = Inr () \<longleftrightarrow> is = []"
  by (simp add: issues_result_def)

lemma check_key_Nil [simp]: "check_key k = [] \<longleftrightarrow> is_valid_key k"
  by (simp add: check_key_def)

lemma check_variants_Nil:
  "check_variants i seen vs = [] \<longleftrightarrow>
     list_all (is_valid_key \<circ> variant_key) vs \<and> distinct (map variant_key vs) \<and>
     seen \<inter> variant_key ` set vs = {}"
  by (induction i seen vs rule: check_variants.induct) (auto simp: Let_def)

lemma check_weights_Nil:
  "check_weights path ks i seen ws = [] \<longleftrightarrow>
     wv_variant ` set ws \<subseteq> ks \<and> distinct (map wv_variant ws) \<and> seen \<inter> wv_variant ` set ws = {}"
  by (induction path ks i seen ws rule: check_weights.induct) (auto simp: Let_def)

lemma check_bucket_by_Nil [simp]: "check_bucket_by path b = [] \<longleftrightarrow> wf_bucket_by b"
  by (cases b) (simp_all add: check_bucket_by_def wf_bucket_by_def)

lemma weights_total_from:
  "unat t + weight_sum ws < 2 ^ 64 \<Longrightarrow>
     unat (fold (\<lambda>w total. total + ucast (wv_weight w)) ws t :: u64) = unat t + weight_sum ws"
proof (induction ws arbitrary: t)
  case (Cons w ws)
  have "unat (t + ucast (wv_weight w) :: u64) = unat t + unat (wv_weight w)"
    using Cons.prems by (simp add: unat_word_ariths)
  with Cons show ?case by simp
qed simp

lemma weights_total_eq: "length ws < 2 ^ 32 \<Longrightarrow> unat (weights_total ws) = weight_sum ws"
  using weights_total_from [of 0 ws] weight_sum_no_wrap [of ws] by (simp add: weights_total_def)

lemma weights_total_iff:
  "length ws < 2 ^ 32 \<Longrightarrow>
     weights_total ws = ucast TOTAL_WEIGHT \<longleftrightarrow> weight_sum ws = unat TOTAL_WEIGHT"
  by (simp only: word_unat_eq_iff weights_total_eq unat_u32_u64)

lemma check_distribution_Nil:
  "small_distribution d \<Longrightarrow> check_distribution d path ks = [] \<longleftrightarrow> wf_distribution ks d"
  by (cases d) (auto simp: check_weights_Nil weights_total_iff simp del: unat_TOTAL_WEIGHT)

lemma check_patterns_Nil:
  "check_patterns X path k vs = [] \<longleftrightarrow>
     list_all (\<lambda>v. is_some_and (attr_as_str v) (\<lambda>p. regex_compile X p \<noteq> None)) vs"
  by (induction X path k vs rule: check_patterns.induct)
     (auto simp: Let_def regex_compile_def split: option.splits sum.splits)

lemma check_condition_Nil: "check_condition X c path = [] \<longleftrightarrow> wf_condition X c"
  by (auto simp: check_condition_def wf_condition_def check_patterns_Nil)

lemma check_conditions_from_Nil:
  "check_conditions_from X j cs path = [] \<longleftrightarrow> list_all (wf_condition X) cs"
  by (induction X j cs path rule: check_conditions_from.induct) (simp_all add: check_condition_Nil)

lemma check_conditions_Nil: "check_conditions X cs path = [] \<longleftrightarrow> list_all (wf_condition X) cs"
  by (simp add: check_conditions_def check_conditions_from_Nil)

lemma check_segment_match_Nil: "check_segment_match m path = [] \<longleftrightarrow> wf_segment_match m"
  by (auto simp: check_segment_match_def wf_segment_match_def filter_empty_conv list_all_iff)

lemma check_rules_Nil:
  assumes "list_all (small_distribution \<circ> rule_distribution) rs"
  shows "check_rules X ks i seen rs = [] \<longleftrightarrow>
    distinct (map rule_id rs) \<and> seen \<inter> rule_id ` set rs = {} \<and> list_all (wf_rule X ks) rs"
  using assms
  by (induction X ks i seen rs rule: check_rules.induct)
     (auto simp: Let_def check_conditions_Nil check_distribution_Nil check_segment_match_Nil
        wf_rule_def split: option.splits)

lemma check_segment_rules_Nil:
  "check_segment_rules X i seen rs = [] \<longleftrightarrow>
     distinct (map srule_id rs) \<and> seen \<inter> srule_id ` set rs = {} \<and>
     list_all (wf_segment_rule X) rs"
  by (induction X i seen rs rule: check_segment_rules.induct)
     (auto simp: Let_def check_conditions_Nil check_segment_rollout_def wf_segment_rule_def
        split: option.splits)

lemma check_references_Nil:
  "check_references i known rs = [] \<longleftrightarrow>
     list_all (\<lambda>r. rule_segments r = None \<or>
        is_some_and (rule_segments r) (\<lambda>m. set (segment_match_referenced m) \<subseteq> known)) rs"
  by (induction i known rs rule: check_references.induct)
     (auto simp: filter_empty_conv split: option.splits)

lemma validate_wf: "small_flag f \<Longrightarrow> validate X f = Inr () \<longleftrightarrow> wf_flag X f"
  by (auto simp: validate_def wf_flag_def small_flag_def Let_def check_variants_Nil
      check_distribution_Nil check_rules_Nil)

section \<open>Validated flags and the engine\<close>

lemma wf_distribution_serves:
  assumes "wf_distribution (variant_key ` set (flag_variants f)) d" and "small_distribution d"
  shows "(case resolve X f d ctx salt of
      Inr v \<Rightarrow> v \<in> variant_key ` set (flag_variants f)
    | Inl _ \<Rightarrow> (case d of Fixed _ \<Rightarrow> False | Rollout _ b \<Rightarrow> bucketing_subject ctx b = None))"
proof (cases d)
  case (Fixed v)
  with assms show ?thesis by (simp add: resolve_def)
next
  case (Rollout ws b)
  show ?thesis
  proof (cases "bucketing_subject ctx b")
    case None
    with Rollout show ?thesis by (simp add: resolve_def)
  next
    case (Some subject)
    let ?slot = "bucket X salt (flag_key f) subject"
    have "unat ?slot < weight_sum ws"
      using bucket_in_range [of X salt "flag_key f" subject] assms Rollout
      by (simp add: word_less_nat_alt)
    then obtain i where "i < length ws" and "pick_weighted ws ?slot = Some (wv_variant (ws ! i))"
      using weight_interval_exists [of "unat ?slot" ws] assms(2) Rollout
      by (auto simp: pick_weighted_nat pick_nat_at)
    moreover from this(1) have "wv_variant (ws ! i) \<in> variant_key ` set (flag_variants f)"
      using assms(1) Rollout by (auto dest: nth_mem)
    ultimately show ?thesis using Rollout Some by (simp add: resolve_def)
  qed
qed

lemma wf_distribution_answer:
  assumes "wf_distribution (variant_key ` set (flag_variants f)) d" and "small_distribution d"
    and "is_healthy reason"
  shows "is_healthy (ev_reason (answer X f d ctx salt reason)) \<longleftrightarrow>
    (case d of Fixed _ \<Rightarrow> True | Rollout _ b \<Rightarrow> bucketing_subject ctx b \<noteq> None)"
proof (cases "resolve X f d ctx salt")
  case (Inl m)
  then show ?thesis
    using wf_distribution_serves [OF assms(1,2), where X = X and ctx = ctx and salt = salt]
    by (auto simp: answer_def split: distribution.splits)
next
  case (Inr v)
  then have "is_healthy (ev_reason (answer X f d ctx salt reason))"
    using wf_distribution_serves [OF assms(1,2), where X = X and ctx = ctx and salt = salt] assms(3)
      serve_defined [of v f reason]
    by (simp add: answer_def)
  moreover have "case d of Fixed _ \<Rightarrow> True | Rollout _ b \<Rightarrow> bucketing_subject ctx b \<noteq> None"
    using Inr by (auto simp: resolve_def split: distribution.splits option.splits)
  ultimately show ?thesis by simp
qed

lemma reached_wf:
  assumes "wf_flag X f" and "small_flag f"
  shows "wf_distribution (variant_key ` set (flag_variants f)) (fst (reached X f ctx env)) \<and>
    small_distribution (fst (reached X f ctx env))"
  using assms
  by (auto simp: wf_flag_def small_flag_def reached_def Let_def list_all_length wf_rule_def
      find_Some_iff split: option.splits)

lemma segment_namespace_invalid_key: "\<not> is_valid_key (segment_namespace k)"
  by (simp add: is_valid_key_def segment_namespace_def is_ascii_alphanumeric_def)

lemma is_valid_key_length: "is_valid_key k \<Longrightarrow> length k \<le> 128"
  by (simp add: is_valid_key_def MAX_KEY_LEN_def)

section \<open>Properties\<close>

text \<open>
  C14. Validation accepts exactly the well-formed flags: the accumulating checks of the write
  path find no issue if and only if the flag satisfies the declarative definition (keys,
  distinct variants and rule ids, existing off variant, full partitions over existing
  variants, compilable patterns, consistent segment requirements).
\<close>

theorem validate_iff_wf_flag:
  assumes "small_flag f"
  shows "validate X f = Inr () \<longleftrightarrow> wf_flag X f"
  using assms by (rule validate_wf)

text \<open>A flag with a rule, a rollout on an attribute and a pattern, for the witnesses.\<close>

definition demo_rollout_flag :: flag where
  "demo_rollout_flag =
     \<lparr>flag_key = ''checkout'',
      flag_variants =
        [\<lparr>variant_key = ''a'', variant_value = VBool True\<rparr>,
         \<lparr>variant_key = ''b'', variant_value = VBool False\<rparr>],
      flag_enabled = True, flag_off_variant = ''b'',
      flag_fallthrough = Rollout demo_weights (Some ''account''),
      flag_rules =
        [rule_targeting
           (rule_new 7 [\<lparr>cond_attribute = ''plan'', cond_operator = Matches,
                          cond_values = [AString ''^ent'']\<rparr>] (Fixed ''a''))
           (segment_match_any_of [''beta''])],
      flag_version = 3\<rparr>"

lemma demo_not_blank: "\<not> is_blank ''plan''" "\<not> is_blank ''account''" "\<not> is_blank ''beta''"
  by (rule alphanumeric_not_blank; code_simp)+

lemma demo_valid_keys: "is_valid_key ''checkout''" "is_valid_key ''a''" "is_valid_key ''b''"
    "is_valid_key ''beta''"
  by code_simp+

lemma demo_rollout_flag_small: "small_flag demo_rollout_flag"
  by (simp add: small_flag_def demo_rollout_flag_def rule_targeting_def rule_new_def)

lemma demo_rollout_flag_wf: "wf_flag demo_externals demo_rollout_flag"
  by (simp add: wf_flag_def demo_rollout_flag_def demo_valid_keys demo_not_blank wf_bucket_by_def
      wf_rule_def rule_targeting_def rule_new_def wf_condition_def wf_segment_match_def
      segment_match_any_of_def segment_match_is_empty_def segment_match_referenced_def
      regex_compile_def demo_externals_def)

lemma demo_rollout_flag_valid: "validate demo_externals demo_rollout_flag = Inr ()"
  by (simp add: validate_wf demo_rollout_flag_small demo_rollout_flag_wf)

theorem validate_iff_wf_flag_witness: "validate demo_externals demo_rollout_flag = Inr ()"
  using validate_iff_wf_flag [of demo_rollout_flag demo_externals] demo_rollout_flag_small
    demo_rollout_flag_wf
  by simp

text \<open>
  Segment validation accepts exactly the well-formed segments: a valid key, no context
  key on both lists, distinct rule ids, well-formed conditions, percentages within the
  total and no empty bucketing attribute.
\<close>

theorem validate_segment_iff_wf_segment: "validate_segment X s = Inr () \<longleftrightarrow> wf_segment X s"
  by (auto simp: validate_segment_def wf_segment_def check_segment_rules_Nil filter_empty_conv)

text \<open>
  A flag whose references validate against the keys of an environment has no dangling
  one: every segment any of its rules names is resolved by that environment.
\<close>

theorem validate_references_no_dangling:
  assumes "validate_references f (fst ` set (env_segments env)) = Inr ()"
    and "r \<in> set (flag_rules f)" and "rule_segments r = Some m"
    and "k \<in> set (segment_match_referenced m)"
  shows "\<exists>s. bt_get (env_segments env) k = Some s"
proof -
  from assms have "k \<in> fst ` set (env_segments env)"
    by (force simp: validate_references_def check_references_Nil list_all_iff)
  then show ?thesis by (simp add: bt_get_def weak_map_of_SomeI image_iff) (metis weak_map_of_SomeI prod.collapse)
qed

theorem validate_references_no_dangling_witness:
  "\<exists>s. bt_get [(''beta'', segment_new ''beta'')] ''beta'' = Some s"
  using validate_references_no_dangling [of demo_rollout_flag
      "evaluation_env_with_segments ''s'' [(''beta'', segment_new ''beta'')]"
      "flag_rules demo_rollout_flag ! 0" "segment_match_any_of [''beta'']" "''beta''"]
  by (simp add: demo_rollout_flag_def rule_targeting_def segment_match_any_of_def
      segment_match_referenced_def evaluation_env_with_segments_def validate_references_def)

text \<open>
  C13. What a validated flag can answer: it is healthy in every context and environment,
  except when the distribution reached is a rollout over an attribute the context has no
  scalar value for; the value it then carries is its off variant's.
\<close>

theorem validated_flag_decides:
  assumes "validate X f = Inr ()" and "small_flag f"
  shows "(is_healthy (ev_reason (evaluate X f ctx env)) \<longleftrightarrow>
      \<not> flag_enabled f \<or>
      (case fst (reached X f ctx env) of
         Fixed _ \<Rightarrow> True | Rollout _ b \<Rightarrow> bucketing_subject ctx b \<noteq> None)) \<and>
    (is_healthy (ev_reason (evaluate X f ctx env)) \<or>
     is_some_and (flag_variant f (flag_off_variant f))
       (\<lambda>v. ev_value (evaluate X f ctx env) = variant_value v))"
proof -
  have wf: "wf_flag X f" using assms by (simp add: validate_wf)
  then have off: "flag_off_variant f \<in> variant_key ` set (flag_variants f)"
    by (simp add: wf_flag_def Let_def)
  obtain v where v: "flag_variant f (flag_off_variant f) = Some v"
    using flag_variant_None_iff [of f "flag_off_variant f"] off by auto
  show ?thesis
  proof (cases "flag_enabled f")
    case False
    then show ?thesis
      using serve_defined [OF off, of Off] by (simp add: evaluate_def)
  next
    case True
    obtain d reason where r: "reached X f ctx env = (d, reason)" by force
    have "is_healthy (ev_reason (answer X f d ctx (env_salt env) reason)) \<longleftrightarrow>
        (case d of Fixed _ \<Rightarrow> True | Rollout _ b \<Rightarrow> bucketing_subject ctx b \<noteq> None)"
      using reached_wf [OF wf assms(2), of ctx env] reached_healthy [of X f ctx env] r
      by (simp add: wf_distribution_answer)
    moreover have "is_healthy (ev_reason (answer X f d ctx (env_salt env) reason)) \<or>
        ev_value (answer X f d ctx (env_salt env) reason) = variant_value v"
      using reached_healthy [of X f ctx env] r v
      by (auto simp: answer_def serve_def degrade_def split: sum.splits option.splits)
    ultimately show ?thesis using True r v by (simp add: evaluate_enabled)
  qed
qed

theorem validated_flag_decides_witness:
  "is_healthy (ev_reason (evaluate demo_externals demo_rollout_flag
     (context_with (context_new ''u'') ''account'' (AString ''acme'')) (evaluation_env_new ''s'')))"
  using validated_flag_decides [OF demo_rollout_flag_valid demo_rollout_flag_small, THEN conjunct1,
      of "context_with (context_new ''u'') ''account'' (AString ''acme'')" "evaluation_env_new ''s''"]
  by (simp add: reached_def demo_rollout_flag_def rule_matches_def rule_targeting_def rule_new_def
      condition_matches_def context_new_def bucketing_subject_def context_with_def ctx_attribute_def
      bt_get_def)

text \<open>
  The guarantee has a gap: a flag that validates, stored and enabled, still answers with
  an error reason for a context that does not carry the attribute its rollout buckets on.
\<close>

theorem validated_flag_can_answer_error:
  "validate demo_externals demo_rollout_flag = Inr () \<and>
   \<not> is_healthy (ev_reason (evaluate demo_externals demo_rollout_flag (context_new ''u'')
       (evaluation_env_new ''s'')))"
  by (simp add: demo_rollout_flag_valid)
     (simp add: evaluate_enabled reached_def demo_rollout_flag_def rule_matches_def
        rule_targeting_def rule_new_def condition_matches_def context_new_def bucketing_subject_def
        ctx_attribute_def bt_get_def answer_def resolve_def)

text \<open>
  A flag and a segment never share a bucketing space: the bytes hashed for a validated
  flag key differ from those hashed for any segment key, even when the two keys, the salt and
  the subject are equal.
\<close>

theorem flag_and_segment_buckets_disjoint:
  assumes "validate X f = Inr ()"
    and "length salt < 2 ^ 64" and "length u < 2 ^ 64" and "length k < 2 ^ 63" and "length u' < 2 ^ 64"
  shows "bucket_input salt (flag_key f) u \<noteq> bucket_input salt (segment_namespace k) u'"
proof
  assume eq: "bucket_input salt (flag_key f) u = bucket_input salt (segment_namespace k) u'"
  have "is_valid_key (flag_key f)"
    using assms(1) by (simp add: validate_def Let_def)
  then have "length (flag_key f) < 2 ^ 64" and "flag_key f \<noteq> segment_namespace k"
    using is_valid_key_length [of "flag_key f"] segment_namespace_invalid_key [of k] by auto
  moreover have "length (segment_namespace k) < 2 ^ 64"
    using assms(4) by (simp add: segment_namespace_def)
  ultimately show False
    using bucket_input_eq_iff [of salt "flag_key f" u salt "segment_namespace k" u'] eq assms
    by simp
qed

theorem flag_and_segment_buckets_disjoint_witness:
  "bucket_input ''s'' ''checkout'' ''u'' \<noteq> bucket_input ''s'' (segment_namespace ''checkout'') ''u''"
  using flag_and_segment_buckets_disjoint [of demo_externals demo_rollout_flag "''s''" "''u''"
      "''checkout''" "''u''"] demo_rollout_flag_valid
  by (simp add: demo_rollout_flag_def)

end
