(* ===== verification/Core_Experiment.thy ===== *)
theory Core_Experiment
  imports FF_Prelude
begin

text \<open>
  \<^verbatim>\<open>crates/core/src/experiment.rs\<close>: the part of an experiment an SDK receives, and the
  statistics behind a verdict. The formulas are translated over the real numbers: rounding of
  doubles is not modelled. A failed assertion of \<^verbatim>\<open>f64::clamp\<close> is the result \<^const>\<open>None\<close>, so
  that the absence of panics is something to prove.
\<close>

section \<open>Definitions\<close>

record experiment_spec =
  xs_key :: string
  xs_flag_key :: string
  xs_metric_key :: string
  xs_control_variant :: string
  xs_version :: int

record variant_counts =
  vc_variant :: string
  vc_exposures :: u64
  vc_conversions :: u64

record confidence_interval =
  ci_low :: real
  ci_high :: real

record comparison =
  cmp_lift :: real
  cmp_z :: real
  cmp_p_value :: real
  cmp_significant :: bool

record variant_result =
  vr_variant :: string
  vr_exposures :: u64
  vr_conversions :: u64
  vr_rate :: "real option"
  vr_interval :: "confidence_interval option"
  vr_vs_control :: "comparison option"

definition ALPHA :: real where
  "ALPHA = 5 / 100"

definition Z_95 :: real where
  "Z_95 = 1959963984540054 / 10 ^ 15"

definition erf_poly :: "real \<Rightarrow> real" where
  "erf_poly t =
     t * (254829592 / 10 ^ 9 + t * (- 284496736 / 10 ^ 9 + t * (1421413741 / 10 ^ 9 +
       t * (- 1453152027 / 10 ^ 9 + t * (1061405429 / 10 ^ 9)))))"

definition erf :: "real \<Rightarrow> real" where
  "erf x0 =
     (let sign = (if x0 < 0 then - 1 else 1);
          x = \<bar>x0\<bar>;
          t = 1 / (1 + 3275911 / 10 ^ 7 * x)
      in sign * (1 - erf_poly t * exp (- x * x)))"

definition phi :: "real \<Rightarrow> real" where
  "phi x = 1 / 2 * (1 + erf (x / sqrt 2))"

definition two_proportion_z :: "real \<times> real \<Rightarrow> real \<times> real \<Rightarrow> comparison option" where
  "two_proportion_z own control =
     (let (x1, n1) = own; (x2, n2) = control;
          pooled = (x1 + x2) / (n1 + n2);
          variance = pooled * (1 - pooled) * (1 / n1 + 1 / n2)
      in if variance \<le> 0 then None
         else let lift = x1 / n1 - x2 / n2;
                  z = lift / sqrt variance;
                  p_value = 2 * (1 - phi \<bar>z\<bar>)
              in Some \<lparr>cmp_lift = lift, cmp_z = z, cmp_p_value = p_value,
                       cmp_significant = (p_value < ALPHA)\<rparr>)"

text \<open>\<^verbatim>\<open>f64::clamp\<close> panics unless the bounds are ordered.\<close>

definition clamp :: "real \<Rightarrow> real \<Rightarrow> real \<Rightarrow> real option" where
  "clamp x lo hi =
     (if lo \<le> hi then Some (if x < lo then lo else if hi < x then hi else x) else None)"

definition wilson_bounds :: "real \<Rightarrow> real \<Rightarrow> real \<times> real" where
  "wilson_bounds rate n =
     (let z2 = Z_95 * Z_95;
          denominator = 1 + z2 / n;
          center = (rate + z2 / (2 * n)) / denominator;
          half_width = (Z_95 / denominator) * sqrt (rate * (1 - rate) / n + z2 / (4 * n * n))
      in (center - half_width, center + half_width))"

definition wilson :: "real \<Rightarrow> real \<Rightarrow> confidence_interval option" where
  "wilson rate n =
     do { low \<leftarrow> clamp (fst (wilson_bounds rate n)) 0 rate;
          high \<leftarrow> clamp (snd (wilson_bounds rate n)) rate 1;
          Some \<lparr>ci_low = low, ci_high = high\<rparr> }"

text \<open>\<^verbatim>\<open>as f64\<close> on a counter.\<close>

definition count_f64 :: "u64 \<Rightarrow> real" where
  "count_f64 w = real (unat w)"

definition observed :: "variant_counts \<Rightarrow> (real \<times> real) option" where
  "observed c =
     (if 0 < vc_exposures c
      then Some (count_f64 (min (vc_conversions c) (vc_exposures c)), count_f64 (vc_exposures c))
      else None)"

text \<open>The closure of \<^verbatim>\<open>results\<close> for one variant; \<^const>\<open>None\<close> is a panic.\<close>

definition variant_result_of ::
  "string \<Rightarrow> (real \<times> real) option \<Rightarrow> variant_counts \<Rightarrow> variant_result option" where
  "variant_result_of control_variant control c =
     (let own = observed c;
          vs_control =
            (if vc_variant c = control_variant then None
             else (case (own, control) of
                     (Some own, Some control) \<Rightarrow> two_proportion_z own control
                   | _ \<Rightarrow> None))
      in do { interval \<leftarrow> (case own of
                 None \<Rightarrow> Some None
               | Some (x, n) \<Rightarrow> map_option Some (wilson (x / n) n));
              Some \<lparr>vr_variant = vc_variant c, vr_exposures = vc_exposures c,
                    vr_conversions = vc_conversions c,
                    vr_rate = map_option (\<lambda>(x, n). x / n) own,
                    vr_interval = interval, vr_vs_control = vs_control\<rparr> })"

definition results :: "string \<Rightarrow> variant_counts list \<Rightarrow> variant_result list option" where
  "results control_variant counts =
     (let control = Option.bind (find (\<lambda>c. vc_variant c = control_variant) counts) observed
      in those (map (variant_result_of control_variant control) counts))"

lemmas experiment_defs [model_defs] =
  phi_def two_proportion_z_def clamp_def wilson_def observed_def variant_result_of_def results_def

section \<open>The Wilson interval\<close>

lemma Z_95_pos: "0 < Z_95"
  by (simp add: Z_95_def)

text \<open>With \<open>a = z\<^sup>2 / n\<close>, the scaled half width is the root of \<open>a p (1 - p) + a\<^sup>2 / 4\<close>.\<close>

lemma wilson_bounds_eq:
  assumes "0 < n"
  defines "a \<equiv> Z_95 * Z_95 / n"
  shows "wilson_bounds p n =
    ((p + a / 2 - sqrt (a * p * (1 - p) + a * a / 4)) / (1 + a),
     (p + a / 2 + sqrt (a * p * (1 - p) + a * a / 4)) / (1 + a))"
proof -
  have "Z_95 * sqrt (p * (1 - p) / n + Z_95 * Z_95 / (4 * n * n)) =
      sqrt (Z_95 * Z_95 * (p * (1 - p) / n + Z_95 * Z_95 / (4 * n * n)))"
    using Z_95_pos by (simp add: real_sqrt_mult)
  also have "Z_95 * Z_95 * (p * (1 - p) / n + Z_95 * Z_95 / (4 * n * n)) =
      a * p * (1 - p) + a * a / 4"
    using assms(1) by (simp add: a_def field_simps)
  finally have "Z_95 * sqrt (p * (1 - p) / n + Z_95 * Z_95 / (4 * n * n)) =
      sqrt (a * p * (1 - p) + a * a / 4)" .
  then show ?thesis
    by (simp add: wilson_bounds_def Let_def a_def diff_divide_distrib add_divide_distrib)
qed

lemma wilson_root_bound:
  fixes a p :: real
  assumes "0 < a" and "0 \<le> p" and "p \<le> 1"
  shows "sqrt (a * p * (1 - p) + a * a / 4) \<le> p + a / 2"
    and "\<bar>a * (1 / 2 - p)\<bar> \<le> sqrt (a * p * (1 - p) + a * a / 4)"
proof -
  have "(p + a / 2)\<^sup>2 - (a * p * (1 - p) + a * a / 4) = p * p * (1 + a)"
    by (simp add: power2_eq_square algebra_simps)
  moreover have "0 \<le> p * p * (1 + a)" using assms by simp
  ultimately have "a * p * (1 - p) + a * a / 4 \<le> (p + a / 2)\<^sup>2" by linarith
  then show "sqrt (a * p * (1 - p) + a * a / 4) \<le> p + a / 2"
    using assms by (intro real_le_lsqrt) auto
  have "a * p * (1 - p) + a * a / 4 - (a * (1 / 2 - p))\<^sup>2 = a * p * (1 - p) * (1 + a)"
    by (simp add: power2_eq_square algebra_simps)
  moreover have "0 \<le> a * p * (1 - p) * (1 + a)" using assms by simp
  ultimately have "\<bar>a * (1 / 2 - p)\<bar>\<^sup>2 \<le> a * p * (1 - p) + a * a / 4" by simp
  then show "\<bar>a * (1 / 2 - p)\<bar> \<le> sqrt (a * p * (1 - p) + a * a / 4)"
    by (rule real_le_rsqrt)
qed

lemma wilson_bounds_sound:
  assumes "0 < n" and "0 \<le> p" and "p \<le> 1"
  shows "0 \<le> fst (wilson_bounds p n) \<and> fst (wilson_bounds p n) \<le> p \<and>
    p \<le> snd (wilson_bounds p n) \<and> snd (wilson_bounds p n) \<le> 1"
proof -
  define a where "a = Z_95 * Z_95 / n"
  define s where "s = sqrt (a * p * (1 - p) + a * a / 4)"
  have a: "0 < a" using assms(1) Z_95_pos by (simp add: a_def)
  have s1: "s \<le> p + a / 2" and s2: "\<bar>a * (1 / 2 - p)\<bar> \<le> s"
    unfolding s_def by (rule wilson_root_bound [OF a assms(2,3)])+
  have s3: "s \<le> (1 - p) + a / 2"
    unfolding s_def using wilson_root_bound(1) [OF a, of "1 - p"] assms by (simp add: mult_ac)
  have b: "wilson_bounds p n = ((p + a / 2 - s) / (1 + a), (p + a / 2 + s) / (1 + a))"
    using wilson_bounds_eq [OF assms(1), of p] by (simp add: a_def s_def)
  have "p + a / 2 - s \<le> p * (1 + a)" and "p * (1 + a) \<le> p + a / 2 + s"
    using s2 by (auto simp: algebra_simps)
  with a b s1 s3 show ?thesis
    by (simp add: pos_le_divide_eq pos_divide_le_eq)
qed

lemma wilson_exact:
  assumes "0 < n" and "0 \<le> p" and "p \<le> 1"
  shows "wilson p n = Some \<lparr>ci_low = fst (wilson_bounds p n), ci_high = snd (wilson_bounds p n)\<rparr>"
  using wilson_bounds_sound [OF assms] assms by (simp add: wilson_def clamp_def)

section \<open>The error function\<close>

lemma quadratic_pos:
  fixes a b c t :: real
  assumes "0 < a" and "b * b < 4 * a * c"
  shows "0 < a * t * t + b * t + c"
proof -
  have "4 * a * (a * t * t + b * t + c) = (2 * a * t + b)\<^sup>2 + (4 * a * c - b * b)"
    by (simp add: power2_eq_square algebra_simps)
  also have "\<dots> > 0" using assms(2) zero_le_power2 [of "2 * a * t + b"] by linarith
  finally show ?thesis using assms(1) by (simp add: zero_less_mult_iff)
qed

lemma erf_poly_deriv:
  "(erf_poly has_real_derivative
     254829592 / 10 ^ 9 - 2 * (284496736 / 10 ^ 9) * t +
     t * t * (3 * (1421413741 / 10 ^ 9) - 4 * (1453152027 / 10 ^ 9) * t +
       5 * (1061405429 / 10 ^ 9) * t * t)) (at t)"
  unfolding erf_poly_def [abs_def]
  by (auto intro!: derivative_eq_intros simp: algebra_simps power2_eq_square)

lemma erf_poly_deriv_pos:
  fixes t :: real
  shows "0 \<le> 254829592 / 10 ^ 9 - 2 * (284496736 / 10 ^ 9) * t +
     t * t * (3 * (1421413741 / 10 ^ 9) - 4 * (1453152027 / 10 ^ 9) * t +
       5 * (1061405429 / 10 ^ 9) * t * t)"
proof -
  let ?q = "3 * (1421413741 / 10 ^ 9) - 4 * (1453152027 / 10 ^ 9) * t +
       5 * (1061405429 / 10 ^ 9) * t * t"
  have "2 \<le> ?q"
    using quadratic_pos [of "5 * (1061405429 / 10 ^ 9)" "- 4 * (1453152027 / 10 ^ 9)"
        "3 * (1421413741 / 10 ^ 9) - 2" t] by simp
  then have "t * t * 2 \<le> t * t * ?q" by (intro mult_left_mono) auto
  moreover have "0 < 2 * t * t + (- 2 * (284496736 / 10 ^ 9)) * t + 254829592 / 10 ^ 9"
    by (rule quadratic_pos) simp_all
  ultimately show ?thesis by simp
qed

lemma erf_poly_mono: "s \<le> t \<Longrightarrow> erf_poly s \<le> erf_poly t"
  by (rule DERIV_nonneg_imp_nondecreasing) (blast intro: erf_poly_deriv erf_poly_deriv_pos)+

lemma erf_poly_range: "0 < t \<Longrightarrow> t \<le> 1 \<Longrightarrow> 0 \<le> erf_poly t \<and> erf_poly t \<le> 1"
  using erf_poly_mono [of 0 t] erf_poly_mono [of t 1] by (simp add: erf_poly_def)

text \<open>The tail \<open>1 - erf x\<close> for nonnegative \<open>x\<close>, which is what a p-value uses.\<close>

definition erf_tail :: "real \<Rightarrow> real" where
  "erf_tail x = erf_poly (1 / (1 + 3275911 / 10 ^ 7 * x)) * exp (- (x * x))"

lemma erf_nonneg: "0 \<le> x \<Longrightarrow> erf x = 1 - erf_tail x"
  by (simp add: erf_def erf_tail_def Let_def)

lemma erf_tail_range: "0 \<le> x \<Longrightarrow> 0 \<le> erf_tail x \<and> erf_tail x \<le> 1"
proof -
  assume x: "0 \<le> x"
  have "0 \<le> erf_poly (1 / (1 + 3275911 / 10 ^ 7 * x)) \<and> erf_poly (1 / (1 + 3275911 / 10 ^ 7 * x)) \<le> 1"
    by (rule erf_poly_range) (use x in auto)
  then show ?thesis
    unfolding erf_tail_def by (intro conjI mult_le_one mult_nonneg_nonneg) auto
qed

lemma erf_tail_antimono: "0 \<le> x \<Longrightarrow> x \<le> y \<Longrightarrow> erf_tail y \<le> erf_tail x"
proof -
  assume x: "0 \<le> x" and y: "x \<le> y"
  have "erf_poly (1 / (1 + 3275911 / 10 ^ 7 * y)) \<le> erf_poly (1 / (1 + 3275911 / 10 ^ 7 * x))"
    by (rule erf_poly_mono) (use x y in \<open>auto intro!: divide_left_mono mult_pos_pos add_pos_nonneg\<close>)
  moreover have "0 \<le> erf_poly (1 / (1 + 3275911 / 10 ^ 7 * x))"
    by (rule erf_poly_range [THEN conjunct1]) (use x in auto)
  moreover have "exp (- (y * y)) \<le> exp (- (x * x))"
    using mult_mono [OF y y] x y by simp
  ultimately show ?thesis
    unfolding erf_tail_def by (intro mult_mono) auto
qed

lemma p_value_tail: "2 * (1 - phi \<bar>z\<bar>) = erf_tail (\<bar>z\<bar> / sqrt 2)"
  by (simp add: phi_def erf_nonneg field_simps)

section \<open>The test statistic\<close>

definition counts_ok :: "real \<times> real \<Rightarrow> bool" where
  "counts_ok obs = (0 < snd obs \<and> 0 \<le> fst obs \<and> fst obs \<le> snd obs)"

lemma count_f64_mono: "count_f64 v \<le> count_f64 w \<longleftrightarrow> v \<le> w"
  unfolding count_f64_def word_le_nat_alt by (rule of_nat_le_iff)

lemma count_f64_pos: "0 < count_f64 w \<longleftrightarrow> 0 < w"
  unfolding count_f64_def of_nat_0_less_iff by (simp add: word_less_nat_alt)

lemma count_f64_nonneg: "0 \<le> count_f64 w"
  unfolding count_f64_def by (rule of_nat_0_le_iff)

lemma observed_ok: "observed c = Some obs \<Longrightarrow> counts_ok obs"
  by (auto simp: observed_def counts_ok_def count_f64_mono count_f64_pos count_f64_nonneg
      split: if_splits)

definition pooled_variance :: "real \<times> real \<Rightarrow> real \<times> real \<Rightarrow> real" where
  "pooled_variance own control =
     (let q = (fst own + fst control) / (snd own + snd control)
      in q * (1 - q) * (1 / snd own + 1 / snd control))"

lemma two_proportion_z_eq:
  "two_proportion_z own control =
     (let lift = fst own / snd own - fst control / snd control;
          z = lift / sqrt (pooled_variance own control); p = erf_tail (\<bar>z\<bar> / sqrt 2)
      in if pooled_variance own control \<le> 0 then None
         else Some \<lparr>cmp_lift = lift, cmp_z = z, cmp_p_value = p, cmp_significant = (p < ALPHA)\<rparr>)"
  by (cases own; cases control)
     (simp only: two_proportion_z_def pooled_variance_def Let_def prod.case p_value_tail fst_conv snd_conv)

lemma pooled_variance_swap: "pooled_variance control own = pooled_variance own control"
  by (simp add: pooled_variance_def Let_def add.commute)

lemma pooled_variance_zero_iff:
  assumes "counts_ok (x1, n1)" and "counts_ok (x2, n2)"
  shows "pooled_variance (x1, n1) (x2, n2) \<le> 0 \<longleftrightarrow> x1 + x2 = 0 \<or> x1 + x2 = n1 + n2"
proof -
  define q where "q = (x1 + x2) / (n1 + n2)"
  have n: "0 < n1" "0 < n2" and x: "0 \<le> x1 + x2" "x1 + x2 \<le> n1 + n2"
    using assms(1,2) by (auto simp: counts_ok_def)
  then have q: "0 \<le> q" "q \<le> 1" by (simp_all add: q_def)
  have "0 < 1 / n1 + 1 / n2" using n by (simp add: add_pos_pos)
  then have "pooled_variance (x1, n1) (x2, n2) \<le> 0 \<longleftrightarrow> q * (1 - q) \<le> 0"
    by (simp add: pooled_variance_def mult_le_0_iff flip: q_def)
  also have "\<dots> \<longleftrightarrow> q = 0 \<or> q = 1"
    using q by (auto simp: mult_le_0_iff)
  finally show ?thesis using n by (auto simp: q_def)
qed

lemma two_proportion_z_Some:
  assumes "two_proportion_z own control = Some c"
  shows "cmp_p_value c = erf_tail (\<bar>cmp_z c\<bar> / sqrt 2)"
    and "cmp_significant c \<longleftrightarrow> cmp_p_value c < ALPHA"
  using assms by (auto simp: two_proportion_z_eq Let_def split: if_splits)

lemma two_proportion_z_p_range:
  "two_proportion_z own control = Some c \<Longrightarrow> 0 \<le> cmp_p_value c \<and> cmp_p_value c \<le> 1"
  by (simp only: two_proportion_z_Some(1)) (rule erf_tail_range, simp)

section \<open>Results\<close>

text \<open>What the dashboard relies on about one line of the results.\<close>

definition interval_sound :: "real \<Rightarrow> confidence_interval \<Rightarrow> bool" where
  "interval_sound rate ci =
     (0 \<le> ci_low ci \<and> ci_low ci \<le> rate \<and> rate \<le> ci_high ci \<and> ci_high ci \<le> 1)"

definition result_sound :: "string \<Rightarrow> variant_counts \<Rightarrow> variant_result \<Rightarrow> bool" where
  "result_sound control_variant c r =
     (vr_variant r = vc_variant c \<and> vr_exposures r = vc_exposures c \<and>
      vr_conversions r = vc_conversions c \<and>
      (case (vr_rate r, vr_interval r) of
         (None, None) \<Rightarrow> vc_exposures c = 0 \<and> vr_vs_control r = None
       | (Some rate, Some ci) \<Rightarrow> 0 < vc_exposures c \<and> interval_sound rate ci
       | _ \<Rightarrow> False) \<and>
      (case vr_vs_control r of
         None \<Rightarrow> True
       | Some cmp \<Rightarrow> vc_variant c \<noteq> control_variant \<and> 0 \<le> cmp_p_value cmp \<and>
           cmp_p_value cmp \<le> 1 \<and> cmp_significant cmp = (cmp_p_value cmp < ALPHA)))"

lemma counts_ok_rate:
  "counts_ok (x, n) \<Longrightarrow> 0 < n \<and> 0 \<le> x / n \<and> x / n \<le> 1"
  by (simp add: counts_ok_def)

lemma wilson_interval:
  "counts_ok (x, n) \<Longrightarrow> \<exists>ci. wilson (x / n) n = Some ci \<and> interval_sound (x / n) ci"
  using counts_ok_rate [of x n] wilson_bounds_sound [of n "x / n"] wilson_exact [of n "x / n"]
  by (intro exI) (auto simp: interval_sound_def)

lemma variant_result_of_sound:
  "\<exists>r. variant_result_of cv control c = Some r \<and> result_sound cv c r"
proof (cases "observed c")
  case None
  then show ?thesis
    by (auto simp: variant_result_of_def result_sound_def observed_def word_gt_0 split: if_splits)
next
  case (Some obs)
  obtain x n where obs: "obs = (x, n)" by force
  obtain ci where ci: "wilson (x / n) n = Some ci" "interval_sound (x / n) ci"
    using wilson_interval [of x n] observed_ok [OF Some] obs by auto
  have pos: "0 < vc_exposures c" using Some by (auto simp: observed_def split: if_splits)
  show ?thesis
    using Some obs ci pos
    by (auto simp: variant_result_of_def result_sound_def two_proportion_z_p_range
        two_proportion_z_Some(2) split: option.splits)
qed

lemma those_map_Some:
  "(\<And>x. x \<in> set xs \<Longrightarrow> \<exists>y. f x = Some y \<and> R x y) \<Longrightarrow>
     \<exists>ys. those (map f xs) = Some ys \<and> list_all2 R xs ys"
proof (induction xs)
  case (Cons x xs)
  obtain y where "f x = Some y" and "R x y" using Cons.prems by force
  moreover obtain ys where "those (map f xs) = Some ys" and "list_all2 R xs ys"
    using Cons by force
  ultimately show ?case by (intro exI [of _ "y # ys"]) simp
qed simp

section \<open>Properties\<close>

text \<open>
  C25. The results of an experiment are always produced, in input order, and every line is
  sound: the raw counts are reported, a rate and an interval are present exactly when there
  are exposures, the interval lies within the unit interval and contains the rate, the
  control has no comparison, and each p-value is a probability whose verdict is the
  comparison with the threshold. In particular no clamp panics, also when there are more
  conversions than exposures.
\<close>

theorem results_sound:
  "\<exists>rs. results control_variant counts = Some rs \<and>
     list_all2 (result_sound control_variant) counts rs"
  unfolding results_def Let_def
  by (rule those_map_Some) (rule variant_result_of_sound)

text \<open>
  The Wilson interval needs no clamping: in exact arithmetic, for a rate between 0 and 1
  over a positive number of trials, its two ends are already ordered around the rate and
  within the unit interval, so the clamps only absorb rounding.
\<close>

theorem wilson_clamps_are_exact:
  assumes "0 < n" and "0 \<le> p" and "p \<le> 1"
  shows "wilson p n = Some \<lparr>ci_low = fst (wilson_bounds p n), ci_high = snd (wilson_bounds p n)\<rparr> \<and>
    interval_sound p \<lparr>ci_low = fst (wilson_bounds p n), ci_high = snd (wilson_bounds p n)\<rparr>"
  using wilson_exact [OF assms] wilson_bounds_sound [OF assms] by (simp add: interval_sound_def)

theorem wilson_clamps_are_exact_witness:
  "interval_sound (1 / 4) \<lparr>ci_low = fst (wilson_bounds (1 / 4) 40), ci_high = snd (wilson_bounds (1 / 4) 40)\<rparr>"
  using wilson_clamps_are_exact [of 40 "1 / 4"] by simp

text \<open>
  Stronger evidence never weakens a verdict: of two comparisons, the one with the larger
  absolute z statistic has the smaller p-value, and is significant when the other one is.
\<close>

theorem p_value_antitone:
  assumes "two_proportion_z own control = Some c" and "two_proportion_z own' control' = Some c'"
    and "\<bar>cmp_z c\<bar> \<le> \<bar>cmp_z c'\<bar>"
  shows "cmp_p_value c' \<le> cmp_p_value c \<and> (cmp_significant c \<longrightarrow> cmp_significant c')"
proof -
  have "cmp_p_value c' \<le> cmp_p_value c"
    unfolding two_proportion_z_Some(1) [OF assms(1)] two_proportion_z_Some(1) [OF assms(2)]
    by (rule erf_tail_antimono) (use assms(3) in \<open>auto intro: divide_right_mono\<close>)
  then show ?thesis
    using two_proportion_z_Some(2) [OF assms(1)] two_proportion_z_Some(2) [OF assms(2)] by auto
qed

lemma demo_two_proportion:
  "two_proportion_z (20, 40) (20, 40) =
     Some \<lparr>cmp_lift = 0, cmp_z = 0, cmp_p_value = 2 * (1 - phi 0),
           cmp_significant = (2 * (1 - phi 0) < ALPHA)\<rparr>"
  "\<exists>c. two_proportion_z (30, 40) (20, 40) = Some c"
  by (simp_all add: two_proportion_z_def Let_def)

theorem p_value_antitone_witness:
  "\<exists>c c'. two_proportion_z (20, 40) (20, 40) = Some c \<and>
     two_proportion_z (30, 40) (20, 40) = Some c' \<and> cmp_p_value c' \<le> cmp_p_value c"
proof -
  obtain c' where c': "two_proportion_z (30, 40) (20, 40) = Some c'"
    using demo_two_proportion(2) by blast
  show ?thesis
    using p_value_antitone [OF demo_two_proportion(1) c'] demo_two_proportion(1) c' by simp
qed

text \<open>
  The comparison is symmetric: measuring the control against the variant negates the lift
  and the statistic and keeps the p-value and the verdict.
\<close>

theorem comparison_symmetric:
  "two_proportion_z control own =
     map_option (\<lambda>c. c\<lparr>cmp_lift := - cmp_lift c, cmp_z := - cmp_z c\<rparr>)
       (two_proportion_z own control)"
proof -
  define l where "l = fst own / snd own - fst control / snd control"
  then have "fst control / snd control - fst own / snd own = - l" by simp
  then show ?thesis
    by (simp add: two_proportion_z_eq Let_def pooled_variance_swap [of control] flip: l_def)
qed

text \<open>
  A comparison of two observed variants is absent exactly when nothing varied: neither
  side converted at all, or both sides converted on every exposure.
\<close>

theorem comparison_absent_iff:
  assumes "observed own = Some (x1, n1)" and "observed control = Some (x2, n2)"
  shows "two_proportion_z (x1, n1) (x2, n2) = None \<longleftrightarrow> x1 = 0 \<and> x2 = 0 \<or> x1 = n1 \<and> x2 = n2"
  using pooled_variance_zero_iff [OF observed_ok [OF assms(1)] observed_ok [OF assms(2)]]
    observed_ok [OF assms(1)] observed_ok [OF assms(2)]
  by (auto simp: two_proportion_z_eq Let_def counts_ok_def)

theorem comparison_absent_iff_witness:
  "two_proportion_z (0, 40) (0, 25) = None"
  using comparison_absent_iff [of "\<lparr>vc_variant = ''a'', vc_exposures = 40, vc_conversions = 0\<rparr>" 0 40
      "\<lparr>vc_variant = ''b'', vc_exposures = 25, vc_conversions = 0\<rparr>" 0 25]
  by (simp add: observed_def count_f64_def)

end
