(* ===== verification/Core_Snapshot.thy ===== *)
theory Core_Snapshot
  imports Core_Validate Core_Experiment
begin

text \<open>
  \<^verbatim>\<open>crates/core/src/snapshot.rs\<close>: the immutable view of one environment that the server
  keeps in memory and the SDK downloads. Timestamps are integers.
\<close>

section \<open>Definitions\<close>

record environment_snapshot =
  snap_environment_id :: uuid
  snap_environment_key :: string
  snap_salt :: string
  snap_flags :: "(string, flag) btree"
  snap_segments :: segment_set
  snap_experiments :: "experiment_spec list"
  snap_version :: int
  snap_generated_at :: int

text \<open>\<^verbatim>\<open>Iterator::max\<close>.\<close>

fun iter_max :: "int list \<Rightarrow> int option" where
  "iter_max [] = None"
| "iter_max (x # xs) = (case iter_max xs of None \<Rightarrow> Some x | Some m \<Rightarrow> Some (max x m))"

definition unwrap_or :: "'a option \<Rightarrow> 'a \<Rightarrow> 'a" where
  "unwrap_or x d = (case x of None \<Rightarrow> d | Some v \<Rightarrow> v)"

definition snapshot_new ::
  "uuid \<Rightarrow> string \<Rightarrow> string \<Rightarrow> flag list \<Rightarrow> segment list \<Rightarrow> int \<Rightarrow> environment_snapshot" where
  "snapshot_new environment_id environment_key salt fs ss generated_at =
     (let flags = bt_collect (map (\<lambda>f. (flag_key f, f)) fs) [];
          segments = bt_collect (map (\<lambda>s. (seg_key s, s)) ss) [];
          version = unwrap_or
            (iter_max (map flag_version (bt_values flags) @ map seg_version (bt_values segments))) 0
      in \<lparr>snap_environment_id = environment_id, snap_environment_key = environment_key,
          snap_salt = salt, snap_flags = flags, snap_segments = segments, snap_experiments = [],
          snap_version = version, snap_generated_at = generated_at\<rparr>)"

definition with_experiments ::
  "environment_snapshot \<Rightarrow> experiment_spec list \<Rightarrow> environment_snapshot" where
  "with_experiments snap experiments =
     snap\<lparr>snap_version :=
            unwrap_or (iter_max (map xs_version experiments @ [snap_version snap])) 0,
          snap_experiments := experiments\<rparr>"

definition snapshot_get :: "environment_snapshot \<Rightarrow> string \<Rightarrow> flag option" where
  "snapshot_get snap k = bt_get (snap_flags snap) k"

definition snapshot_segment :: "environment_snapshot \<Rightarrow> string \<Rightarrow> segment option" where
  "snapshot_segment snap k = bt_get (snap_segments snap) k"

definition snapshot_env :: "environment_snapshot \<Rightarrow> evaluation_env" where
  "snapshot_env snap = evaluation_env_with_segments (snap_salt snap) (snap_segments snap)"

definition snapshot_len :: "environment_snapshot \<Rightarrow> nat" where
  "snapshot_len snap = length (snap_flags snap)"

definition snapshot_is_empty :: "environment_snapshot \<Rightarrow> bool" where
  "snapshot_is_empty snap = (snap_flags snap = [])"

definition snapshot_evaluate ::
  "('re, 'ver) externals \<Rightarrow> environment_snapshot \<Rightarrow> string \<Rightarrow> evaluation_context \<Rightarrow>
     variant_value \<Rightarrow> evaluation" where
  "snapshot_evaluate X snap k ctx fallback =
     (case snapshot_get snap k of
        Some f \<Rightarrow> evaluate X f ctx (snapshot_env snap)
      | None \<Rightarrow> evaluation_not_found k fallback)"

definition snapshot_evaluate_all ::
  "('re, 'ver) externals \<Rightarrow> environment_snapshot \<Rightarrow> evaluation_context \<Rightarrow> evaluation list" where
  "snapshot_evaluate_all X snap ctx =
     (let env = snapshot_env snap in map (\<lambda>f. evaluate X f ctx env) (bt_values (snap_flags snap)))"

lemmas snapshot_defs [model_defs] =
  unwrap_or_def snapshot_new_def with_experiments_def snapshot_get_def snapshot_segment_def
  snapshot_env_def snapshot_len_def snapshot_is_empty_def snapshot_evaluate_def
  snapshot_evaluate_all_def

section \<open>Lemmas\<close>

lemma iter_max_eq: "iter_max xs = (if xs = [] then None else Some (Max (set xs)))"
  by (induction xs) (auto split: option.splits)

lemma unwrap_or_iter_max: "unwrap_or (iter_max xs) 0 = (if xs = [] then 0 else Max (set xs))"
  by (simp add: unwrap_or_def iter_max_eq)

text \<open>Both maps file an entry under its own key and are in key order.\<close>

definition snapshot_wf :: "environment_snapshot \<Rightarrow> bool" where
  "snapshot_wf snap =
     (bt_ordered (snap_flags snap) \<and> bt_ordered (snap_segments snap) \<and>
      list_all (\<lambda>(k, f). flag_key f = k) (snap_flags snap) \<and>
      list_all (\<lambda>(k, s). seg_key s = k) (snap_segments snap))"

lemma collect_keyed:
  "list_all (\<lambda>(k, v). key v = k) (bt_collect (map (\<lambda>v. (key v, v)) vs) [])"
proof -
  have "key v = k" if "(k, v) \<in> set (bt_collect (map (\<lambda>v. (key v, v)) vs) [])" for k v
  proof -
    have "map_of (rev (map (\<lambda>v. (key v, v)) vs)) k = Some v"
      using that bt.entries_iff_get [OF bt_ordered_collect, of k v] by (simp only: bt_get_collect)
    then have "(k, v) \<in> set (rev (map (\<lambda>v. (key v, v)) vs))" by (rule map_of_SomeD)
    then show ?thesis by auto
  qed
  then show ?thesis by (auto simp: list_all_iff)
qed

lemma snapshot_new_wf: "snapshot_wf (snapshot_new i k salt fs ss t)"
  by (simp add: snapshot_wf_def snapshot_new_def Let_def bt_ordered_collect collect_keyed)

lemma with_experiments_wf [simp]: "snapshot_wf (with_experiments s xs) = snapshot_wf s"
  by (simp add: snapshot_wf_def with_experiments_def)

lemma snapshot_evaluate_all_entry:
  assumes "snapshot_wf snap"
  shows "map (\<lambda>e. (ev_flag_key e, e)) (snapshot_evaluate_all X snap ctx) =
    map (\<lambda>k. (k, snapshot_evaluate X snap k ctx fallback)) (map fst (snap_flags snap))"
proof -
  have "(flag_key f, evaluate X f ctx (snapshot_env snap)) =
      (k, snapshot_evaluate X snap k ctx fallback)" if "(k, f) \<in> set (snap_flags snap)" for k f
  proof -
    have "flag_key f = k" using that assms by (auto simp: snapshot_wf_def list_all_iff)
    moreover have "bt_get (snap_flags snap) k = Some f"
      using that assms bt.entries_iff_get [of "snap_flags snap" k f] by (simp add: snapshot_wf_def)
    ultimately show ?thesis by (simp add: snapshot_evaluate_def snapshot_get_def)
  qed
  then show ?thesis
    by (auto simp: snapshot_evaluate_all_def bt_values_def Let_def)
qed

lemma map_of_rev_keyed:
  "map_of (rev (map (\<lambda>v. (key v, v)) vs)) k = find (\<lambda>v. key v = k) (rev vs)"
proof -
  have "map_of (map (\<lambda>v. (key v, v)) ws) k = find (\<lambda>v. key v = k) ws" for ws
    by (induction ws) auto
  then show ?thesis by (simp add: rev_map)
qed

lemma bt_collect_keys: "fst ` set (bt_collect kvs []) = fst ` set kvs"
proof -
  have "dom (bt_get (bt_collect kvs [])) = dom (map_of (rev kvs))"
    by (auto simp: dom_def bt_get_collect)
  then show ?thesis by (simp add: bt_get_def dom_map_of_conv_image_fst)
qed

lemma bt_collect_distinct_values:
  assumes "distinct (map key vs)"
  shows "set (bt_values (bt_collect (map (\<lambda>v. (key v, v)) vs) [])) = set vs"
proof -
  let ?m = "bt_collect (map (\<lambda>v. (key v, v)) vs) []"
  have "(k, v) \<in> set ?m \<longleftrightarrow> (k, v) \<in> set (map (\<lambda>v. (key v, v)) vs)" for k v
  proof -
    have "(k, v) \<in> set ?m \<longleftrightarrow> map_of (rev (map (\<lambda>v. (key v, v)) vs)) k = Some v"
      by (simp add: bt.entries_iff_get [OF bt_ordered_collect] bt_get_collect)
    also have "\<dots> \<longleftrightarrow> (k, v) \<in> set (rev (map (\<lambda>v. (key v, v)) vs))"
      by (rule map_of_eq_Some_iff) (simp add: rev_map [symmetric] comp_def assms)
    finally show ?thesis by simp
  qed
  then have "set ?m = set (map (\<lambda>v. (key v, v)) vs)" by auto
  then have "snd ` set ?m = snd ` set (map (\<lambda>v. (key v, v)) vs)" by (rule arg_cong)
  then show ?thesis by (simp add: bt_values_def image_image)
qed

lemma Max_insert_0:
  fixes N :: "int set"
  assumes "finite N" and "\<forall>n \<in> N. 0 \<le> n"
  shows "(if N = {} then 0 else Max N) = Max (insert 0 N)"
proof (cases "N = {}")
  case False
  then have "0 \<le> Max N" using assms by (meson Max_in)
  with False assms(1) show ?thesis by (simp add: Max_insert)
qed simp

lemma Max_Un_Max:
  fixes M N :: "int set"
  assumes "finite M" and "finite N" and "N \<noteq> {}"
  shows "Max (M \<union> {Max N}) = Max (M \<union> N)"
  using assms by (cases "M = {}") (simp_all add: Max_Un)

section \<open>Properties\<close>

text \<open>
  Evaluating everything agrees with evaluating one by one: the list the evaluate-all call
  returns has exactly one decision per flag of the environment, in ascending key order, and
  each is the decision a single evaluation of that key gives, whatever its fallback.
\<close>

theorem evaluate_all_agrees:
  "let snap = with_experiments (snapshot_new i ek salt fs ss t) exps;
       all = snapshot_evaluate_all X snap ctx
   in all = map (\<lambda>k. snapshot_evaluate X snap k ctx fallback) (map ev_flag_key all) \<and>
      sorted_wrt (<) (map ev_flag_key all) \<and> set (map ev_flag_key all) = flag_key ` set fs"
proof -
  define snap where "snap = with_experiments (snapshot_new i ek salt fs ss t) exps"
  define all where "all = snapshot_evaluate_all X snap ctx"
  have wf: "snapshot_wf snap" by (simp add: snap_def snapshot_new_wf)
  note entries = snapshot_evaluate_all_entry [OF wf, where X = X and ctx = ctx and
      fallback = fallback, folded all_def]
  from arg_cong [OF entries, of "map fst"] have keys: "map ev_flag_key all = map fst (snap_flags snap)"
    by (simp add: comp_def)
  have "fst ` set (snap_flags snap) = flag_key ` set fs"
    by (simp add: snap_def with_experiments_def snapshot_new_def Let_def bt_collect_keys image_image)
  then have "set (map ev_flag_key all) = flag_key ` set fs" by (simp only: keys set_map)
  moreover have "sorted_wrt (<) (map ev_flag_key all)"
    using wf by (simp only: keys snapshot_wf_def bt_ordered_def)
  moreover have "all = map (\<lambda>k. snapshot_evaluate X snap k ctx fallback) (map ev_flag_key all)"
    unfolding keys using arg_cong [OF entries, of "map snd"] by (simp add: comp_def)
  ultimately show ?thesis by (simp only: Let_def flip: snap_def all_def)
qed

text \<open>
  Looking a flag or a segment up in a fresh snapshot finds the last one given under that
  key, and nothing when there is none.
\<close>

theorem snapshot_lookup:
  "snapshot_get (with_experiments (snapshot_new i ek salt fs ss t) exps) k =
     find (\<lambda>f. flag_key f = k) (rev fs) \<and>
   snapshot_segment (with_experiments (snapshot_new i ek salt fs ss t) exps) k =
     find (\<lambda>s. seg_key s = k) (rev ss)"
  by (simp add: snapshot_get_def snapshot_segment_def with_experiments_def snapshot_new_def Let_def
      bt_get_collect map_of_rev_keyed)

text \<open>
  The version of a snapshot over distinct keys is the highest version among its flags, its
  segments and its running experiments, and 0 when it has none of them.
\<close>

theorem snapshot_version_is_max:
  assumes "distinct (map flag_key fs)" and "distinct (map seg_key ss)"
    and "list_all (\<lambda>v. 0 \<le> v) (map flag_version fs @ map seg_version ss @ map xs_version exps)"
  shows "snap_version (with_experiments (snapshot_new i ek salt fs ss t) exps) =
    Max (insert 0 (set (map flag_version fs @ map seg_version ss @ map xs_version exps)))"
proof -
  let ?ns = "flag_version ` set fs \<union> seg_version ` set ss"
  have "snap_version (snapshot_new i ek salt fs ss t) = (if ?ns = {} then 0 else Max ?ns)"
    using assms(1,2)
    by (auto simp: snapshot_new_def Let_def unwrap_or_iter_max bt_collect_distinct_values
        simp flip: set_empty2)
  also have "\<dots> = Max (insert 0 ?ns)"
    by (rule Max_insert_0) (use assms(3) in \<open>auto simp: list_all_iff\<close>)
  finally have base: "snap_version (snapshot_new i ek salt fs ss t) = Max (insert 0 ?ns)" .
  have "snap_version (with_experiments (snapshot_new i ek salt fs ss t) exps) =
      Max (xs_version ` set exps \<union> {Max (insert 0 ?ns)})"
    by (simp only: with_experiments_def unwrap_or_iter_max base) simp
  also have "\<dots> = Max (xs_version ` set exps \<union> insert 0 ?ns)"
    by (rule Max_Un_Max) auto
  also have "xs_version ` set exps \<union> insert 0 ?ns =
      insert 0 (set (map flag_version fs @ map seg_version ss @ map xs_version exps))"
    by auto
  finally show ?thesis .
qed

definition demo_segment :: segment where
  "demo_segment = (segment_new ''beta'')\<lparr>seg_version := 2\<rparr>"

definition demo_targeted_flag :: flag where
  "demo_targeted_flag =
     (flag_set_enabled (flag_with_rules (flag_boolean ''f'')
        [rule_targeting (rule_new 1 [] (Fixed ''off'')) (segment_match_any_of [''beta''])]) True)
       \<lparr>flag_version := 9\<rparr>"

theorem snapshot_version_is_max_witness:
  "snap_version (with_experiments
     (snapshot_new 1 ''prod'' ''s'' [demo_targeted_flag] [demo_segment] 0) []) = 9"
  using snapshot_version_is_max [of "[demo_targeted_flag]" "[demo_segment]" "[]" 1 "''prod''" "''s''" 0]
  by (simp add: demo_targeted_flag_def demo_segment_def flag_set_enabled_def flag_with_rules_def
      flag_boolean_def segment_new_def)

text \<open>
  The version is not a change token: two snapshots of an environment that differ by one
  edit of a segment, which bumps that segment's version and changes what a flag serves, have
  the same version as long as some flag's version is higher.
\<close>

theorem snapshot_version_misses_segment_edit:
  "let before = snapshot_new 1 ''prod'' ''s'' [demo_targeted_flag] [demo_segment] 0;
       after = snapshot_new 1 ''prod'' ''s'' [demo_targeted_flag]
                 [demo_segment\<lparr>seg_included := [''u''], seg_version := 3\<rparr>] 0
   in snap_version before = snap_version after \<and>
      ev_variant (snapshot_evaluate demo_externals before ''f'' (context_new ''u'') variant_null) = Some ''on'' \<and>
      ev_variant (snapshot_evaluate demo_externals after ''f'' (context_new ''u'') variant_null) = Some ''off''"
  by (simp add: Let_def snapshot_new_def unwrap_or_def snapshot_evaluate_def snapshot_get_def
      snapshot_env_def demo_targeted_flag_def demo_segment_def bt_values_def bt_get_def
      evaluation_env_with_segments_def evaluate_def rule_matches_def segment_match_holds_def
      in_segment_def segment_contains_def answer_def resolve_def serve_def model_builders
      context_new_def)

end
