(* ===== verification/Api_Limits.thy ===== *)
theory Api_Limits
  imports Core_Model "HOL-Library.AList"
begin

text \<open>
  The parts of \<^verbatim>\<open>crates/api\<close> that bound and identify callers without touching the database:
  SDK key generation and hashing (\<^verbatim>\<open>auth/keys.rs\<close>), the throttle of last-used writes
  (\<^verbatim>\<open>auth/usage.rs\<close>) and the per-client token bucket (\<^verbatim>\<open>rate_limit.rs\<close>). Token levels and
  instants are real numbers: rounding of doubles is not modelled. A concurrent map is an
  association list; every operation runs under the lock of the entry it touches.
\<close>

section \<open>SDK keys\<close>

datatype key_scope = Server | Client

definition key_scope_as_str :: "key_scope \<Rightarrow> string" where
  "key_scope_as_str s = (case s of Server \<Rightarrow> ''server'' | Client \<Rightarrow> ''client'')"

definition key_scope_parse :: "string \<Rightarrow> key_scope option" where
  "key_scope_parse raw =
     (if raw = ''server'' then Some Server else if raw = ''client'' then Some Client else None)"

definition KEY_PREFIX :: string where
  "KEY_PREFIX = ''ff''"

definition DISPLAY_PREFIX_LEN :: nat where
  "DISPLAY_PREFIX_LEN = 14"

record generated_key =
  gk_secret :: string
  gk_hash :: string
  gk_prefix :: string

definition hex_digit :: "nat \<Rightarrow> char" where
  "hex_digit d = (if d < 10 then char_of (48 + d) else char_of (87 + d))"

text \<open>The lookup hash: two lower-case hexadecimal digits per byte of the digest.\<close>

definition key_hash :: "('re, 'ver) externals \<Rightarrow> string \<Rightarrow> string" where
  "key_hash X secret =
     concat (map (\<lambda>c. [hex_digit (of_char c div 16), hex_digit (of_char c mod 16)]) (sha256 X secret))"

text \<open>
  \<open>encoded\<close> is the URL-safe base64 text of the 32 random bytes, which the random number
  generator and the encoder supply.
\<close>

definition generate :: "('re, 'ver) externals \<Rightarrow> string \<Rightarrow> key_scope \<Rightarrow> generated_key" where
  "generate X encoded scope =
     (let label = (case scope of Server \<Rightarrow> ''srv'' | Client \<Rightarrow> ''cli'');
          secret = KEY_PREFIX @ ''_'' @ label @ ''_'' @ encoded
      in \<lparr>gk_secret = secret, gk_hash = key_hash X secret,
          gk_prefix = utf8_take DISPLAY_PREFIX_LEN secret\<rparr>)"

definition claimed_scope :: "string \<Rightarrow> key_scope option" where
  "claimed_scope secret =
     (case split_on CHR ''_'' secret of
        _ # label # _ \<Rightarrow>
          if label = ''srv'' then Some Server else if label = ''cli'' then Some Client else None
      | _ \<Rightarrow> None)"

section \<open>Usage tracking\<close>

text \<open>Durations and instants are nanoseconds.\<close>

definition RECORD_INTERVAL :: nat where
  "RECORD_INTERVAL = 60 * 10 ^ 9"

record usage_tracker =
  ut_last_written :: "(uuid \<times> nat) list"
  ut_interval :: nat

definition usage_tracker_new :: "nat \<Rightarrow> usage_tracker" where
  "usage_tracker_new interval = \<lparr>ut_last_written = [], ut_interval = interval\<rparr>"

definition usage_tracker_default :: usage_tracker where
  "usage_tracker_default = usage_tracker_new RECORD_INTERVAL"

text \<open>\<^verbatim>\<open>Instant::duration_since\<close> saturates at zero, as subtraction of naturals does.\<close>

definition should_record_at :: "uuid \<Rightarrow> nat \<Rightarrow> usage_tracker \<Rightarrow> bool \<times> usage_tracker" where
  "should_record_at key_id now t =
     (case map_of (ut_last_written t) key_id of
        None \<Rightarrow> (True, t\<lparr>ut_last_written := AList.update key_id now (ut_last_written t)\<rparr>)
      | Some written \<Rightarrow>
          if now - written < ut_interval t then (False, t)
          else (True, t\<lparr>ut_last_written := AList.update key_id now (ut_last_written t)\<rparr>))"

definition tracked_keys :: "usage_tracker \<Rightarrow> nat" where
  "tracked_keys t = length (ut_last_written t)"

fun record_run :: "(uuid \<times> nat) list \<Rightarrow> usage_tracker \<Rightarrow> bool list \<times> usage_tracker" where
  "record_run [] t = ([], t)"
| "record_run ((k, now) # rs) t =
     (let (b, t') = should_record_at k now t; (bs, t'') = record_run rs t' in (b # bs, t''))"

section \<open>The rate limiter\<close>

record rate_limit_config =
  rl_burst :: u32
  rl_per_second :: u32

definition IDLE_EVICTION_SECS :: real where
  "IDLE_EVICTION_SECS = 300"

definition SWEEP_THRESHOLD :: nat where
  "SWEEP_THRESHOLD = 10000"

record token_bucket =
  tb_tokens :: real
  tb_last_refill :: real

record rate_limiter =
  lim_buckets :: "(string \<times> token_bucket) list"
  lim_burst :: real
  lim_per_second :: real

definition rate_limiter_new :: "rate_limit_config \<Rightarrow> rate_limiter" where
  "rate_limiter_new c =
     \<lparr>lim_buckets = [], lim_burst = real (unat (max (rl_burst c) 1)),
      lim_per_second = real (unat (max (rl_per_second c) 1))\<rparr>"

definition duration_since :: "real \<Rightarrow> real \<Rightarrow> real" where
  "duration_since now earlier = max 0 (now - earlier)"

definition sweep :: "real \<Rightarrow> rate_limiter \<Rightarrow> rate_limiter" where
  "sweep now l =
     l\<lparr>lim_buckets :=
         filter (\<lambda>(k, b). duration_since now (tb_last_refill b) < IDLE_EVICTION_SECS) (lim_buckets l)\<rparr>"

definition check :: "string \<Rightarrow> real \<Rightarrow> rate_limiter \<Rightarrow> (nat + unit) \<times> rate_limiter" where
  "check client now l0 =
     (let l = (if SWEEP_THRESHOLD < length (lim_buckets l0) then sweep now l0 else l0);
          bucket = (case map_of (lim_buckets l) client of
                      Some b \<Rightarrow> b
                    | None \<Rightarrow> \<lparr>tb_tokens = lim_burst l, tb_last_refill = now\<rparr>);
          elapsed = duration_since now (tb_last_refill bucket);
          tokens = min (tb_tokens bucket + elapsed * lim_per_second l) (lim_burst l);
          put = (\<lambda>n. l\<lparr>lim_buckets :=
                   AList.update client \<lparr>tb_tokens = n, tb_last_refill = now\<rparr> (lim_buckets l)\<rparr>)
      in if 1 \<le> tokens then (Inr (), put (tokens - 1))
         else (Inl (nat (max \<lceil>(1 - tokens) / lim_per_second l\<rceil> 1)), put tokens))"

definition tracked_clients :: "rate_limiter \<Rightarrow> nat" where
  "tracked_clients l = length (lim_buckets l)"

text \<open>The headers that identify a caller, as text; a header that is not visible ASCII is absent.\<close>

record request_headers =
  hdr_authorization :: "string option"
  hdr_forwarded_for :: "string option"
  hdr_flagforge_key :: "string option"

definition client_key :: "('re, 'ver) externals \<Rightarrow> request_headers \<Rightarrow> string" where
  "client_key X h =
     (case hdr_authorization h of
        Some credential \<Rightarrow> ''cred:'' @ key_hash X credential
      | None \<Rightarrow>
          (let forwarded =
             Option.bind (map_option (\<lambda>v. str_trim (hd (split_on CHR '','' v))) (hdr_forwarded_for h))
               (\<lambda>ip. if ip = [] then None else Some ip)
           in case forwarded of Some ip \<Rightarrow> ''ip:'' @ ip | None \<Rightarrow> ''anonymous''))"

text \<open>The middleware: \<^const>\<open>Inr\<close> lets the request through, \<^const>\<open>Inl\<close> is the retry delay of a 429.\<close>

definition enforce ::
  "('re, 'ver) externals \<Rightarrow> request_headers \<Rightarrow> real \<Rightarrow> rate_limiter \<Rightarrow> (nat + unit) \<times> rate_limiter"
  where
  "enforce X h now l = check (client_key X h) now l"

text \<open>A sequence of requests, each with its client and its instant, and who got through.\<close>

fun check_run :: "(string \<times> real) list \<Rightarrow> rate_limiter \<Rightarrow> bool list \<times> rate_limiter" where
  "check_run [] l = ([], l)"
| "check_run ((c, now) # rs) l =
     (let (r, l') = check c now l; (bs, l'') = check_run rs l'
      in ((case r of Inr _ \<Rightarrow> True | Inl _ \<Rightarrow> False) # bs, l''))"

lemmas limits_defs [model_defs] =
  key_scope_as_str_def key_scope_parse_def KEY_PREFIX_def DISPLAY_PREFIX_LEN_def key_hash_def
  generate_def claimed_scope_def RECORD_INTERVAL_def usage_tracker_new_def should_record_at_def
  rate_limiter_new_def duration_since_def sweep_def check_def client_key_def enforce_def

section \<open>Lemmas on the token bucket\<close>

text \<open>What a client could spend right now: the level its bucket would be refilled to.\<close>

definition available :: "rate_limiter \<Rightarrow> string \<Rightarrow> real \<Rightarrow> real" where
  "available l c now =
     (case map_of (lim_buckets l) c of
        None \<Rightarrow> lim_burst l
      | Some b \<Rightarrow>
          min (tb_tokens b + duration_since now (tb_last_refill b) * lim_per_second l) (lim_burst l))"

definition lim_wf :: "rate_limiter \<Rightarrow> bool" where
  "lim_wf l =
     (distinct (map fst (lim_buckets l)) \<and> 1 \<le> lim_burst l \<and> 1 \<le> lim_per_second l \<and>
      (\<forall>(k, b) \<in> set (lim_buckets l). 0 \<le> tb_tokens b \<and> tb_tokens b \<le> lim_burst l))"

lemma rate_limiter_new_wf: "lim_wf (rate_limiter_new cfg)"
proof -
  have "1 \<le> unat (max w 1 :: u32)" for w
    using word_le_nat_alt [of 1 "max w 1"] by simp
  then have "(1 :: real) \<le> real (unat (max w 1 :: u32))" for w
    using of_nat_mono [of 1 "unat (max w 1 :: u32)", where ?'a = real] by simp
  then show ?thesis by (simp add: lim_wf_def rate_limiter_new_def)
qed

lemma check_available:
  "check c now l0 =
     (let l = (if SWEEP_THRESHOLD < length (lim_buckets l0) then sweep now l0 else l0);
          a = available l c now;
          put = (\<lambda>n. l\<lparr>lim_buckets :=
                   AList.update c \<lparr>tb_tokens = n, tb_last_refill = now\<rparr> (lim_buckets l)\<rparr>)
      in if 1 \<le> a then (Inr (), put (a - 1))
         else (Inl (nat (max \<lceil>(1 - a) / lim_per_second l\<rceil> 1)), put a))"
proof -
  have level: "min (tb_tokens (bucket l) + duration_since now (tb_last_refill (bucket l)) * lim_per_second l)
      (lim_burst l) = available l c now"
    if "bucket = (\<lambda>l. case map_of (lim_buckets l) c of Some b \<Rightarrow> b
      | None \<Rightarrow> \<lparr>tb_tokens = lim_burst l, tb_last_refill = now\<rparr>)" for bucket l
    unfolding that available_def by (cases "map_of (lim_buckets l) c") (simp_all add: duration_since_def)
  show ?thesis
    unfolding check_def Let_def level [OF refl] by (rule refl)
qed

lemma available_le_burst: "lim_wf l \<Longrightarrow> available l c now \<le> lim_burst l"
  by (simp add: available_def split: option.splits)

lemma available_nonneg: "lim_wf l \<Longrightarrow> 0 \<le> available l c now"
proof -
  assume wf: "lim_wf l"
  show ?thesis
  proof (cases "map_of (lim_buckets l) c")
    case None
    with wf show ?thesis by (simp add: available_def lim_wf_def)
  next
    case (Some b)
    then have "(c, b) \<in> set (lim_buckets l)" by (rule map_of_SomeD)
    with wf have "0 \<le> tb_tokens b" and "0 \<le> lim_per_second l" and "0 \<le> lim_burst l"
      by (auto simp: lim_wf_def)
    moreover from this have "0 \<le> duration_since now (tb_last_refill b) * lim_per_second l"
      by (intro mult_nonneg_nonneg) (simp_all add: duration_since_def)
    ultimately show ?thesis using Some by (simp add: available_def)
  qed
qed

lemma available_grows:
  assumes "lim_wf l" and "now \<le> later"
  shows "available l c later \<le> available l c now + (later - now) * lim_per_second l"
proof (cases "map_of (lim_buckets l) c")
  case None
  have "0 \<le> (later - now) * lim_per_second l" using assms by (simp add: lim_wf_def)
  with None show ?thesis by (simp add: available_def)
next
  case (Some b)
  have r: "0 \<le> lim_per_second l" using assms by (simp add: lim_wf_def)
  have "duration_since later (tb_last_refill b) \<le> duration_since now (tb_last_refill b) + (later - now)"
    using assms(2) by (simp add: duration_since_def)
  from mult_right_mono [OF this r]
  have "duration_since later (tb_last_refill b) * lim_per_second l \<le>
      duration_since now (tb_last_refill b) * lim_per_second l + (later - now) * lim_per_second l"
    by (simp add: algebra_simps)
  moreover have "0 \<le> (later - now) * lim_per_second l" using assms(2) r by simp
  ultimately show ?thesis using Some by (simp add: available_def)
qed

lemma sweep_wf: "lim_wf l \<Longrightarrow> lim_wf (sweep now l)"
  by (auto simp: lim_wf_def sweep_def distinct_map_filter)

text \<open>
  Forgetting an idle bucket changes nothing when the idle time is enough to refill it:
  \<open>burst \<le> 300 * per_second\<close>.
\<close>

lemma map_of_filter_snd:
  assumes "distinct (map fst al)"
  shows "map_of (filter (\<lambda>(k, v). P v) al) k =
    (case map_of al k of None \<Rightarrow> None | Some v \<Rightarrow> if P v then Some v else None)"
  using assms
proof (induction al)
  case (Cons p al)
  obtain k' v' where p: "p = (k', v')" by force
  show ?case
  proof (cases "k' = k")
    case True
    then have "map_of al k = None" using Cons.prems p by (simp add: map_of_eq_None_iff)
    with True p Cons show ?thesis by simp
  next
    case False
    with p Cons show ?thesis by simp
  qed
qed simp

lemma sweep_available:
  assumes "lim_wf l" and "lim_burst l \<le> IDLE_EVICTION_SECS * lim_per_second l"
  shows "available (sweep now l) c now = available l c now"
proof (cases "map_of (lim_buckets l) c")
  case None
  then show ?thesis using assms(1)
    by (simp add: available_def sweep_def map_of_filter_snd lim_wf_def)
next
  case (Some b)
  show ?thesis
  proof (cases "duration_since now (tb_last_refill b) < IDLE_EVICTION_SECS")
    case True
    with Some assms(1) show ?thesis
      by (simp add: available_def sweep_def map_of_filter_snd lim_wf_def)
  next
    case False
    have "(c, b) \<in> set (lim_buckets l)" using Some by (rule map_of_SomeD)
    then have "0 \<le> tb_tokens b" and r: "0 \<le> lim_per_second l"
      using assms(1) by (auto simp: lim_wf_def)
    moreover have "IDLE_EVICTION_SECS * lim_per_second l \<le>
        duration_since now (tb_last_refill b) * lim_per_second l"
      using False r by (intro mult_right_mono) auto
    ultimately have "available l c now = lim_burst l"
      using Some assms(2) by (simp add: available_def)
    moreover have "available (sweep now l) c now = lim_burst l"
      using Some False assms(1) by (simp add: available_def sweep_def map_of_filter_snd lim_wf_def)
    ultimately show ?thesis by simp
  qed
qed

lemma put_wf:
  assumes "lim_wf l" and "0 \<le> n" and "n \<le> lim_burst l"
  shows "lim_wf (l\<lparr>lim_buckets := AList.update c \<lparr>tb_tokens = n, tb_last_refill = now\<rparr> (lim_buckets l)\<rparr>)"
proof -
  have "set (AList.update k v al) \<subseteq> insert (k, v) (set al)" for k :: string and v and al
    by (induction al) auto
  then show ?thesis
    using assms by (fastforce simp: lim_wf_def distinct_update)
qed

lemma check_wf: "lim_wf l \<Longrightarrow> lim_wf (snd (check c now l))"
  using sweep_wf [of l now] available_le_burst [of _ c now] available_nonneg [of _ c now]
  by (auto simp: check_available Let_def intro!: put_wf) (smt (verit))+

lemma check_rates:
  "lim_burst (snd (check c now l)) = lim_burst l"
  "lim_per_second (snd (check c now l)) = lim_per_second l"
  by (simp_all add: check_available Let_def sweep_def)

lemma check_step:
  assumes "lim_wf l" and "lim_burst l \<le> IDLE_EVICTION_SECS * lim_per_second l"
  shows "available (snd (check c now l)) d now =
      available l d now - (if d = c \<and> fst (check c now l) = Inr () then 1 else 0)"
    and "fst (check c now l) = Inr () \<longleftrightarrow> 1 \<le> available l c now"
proof -
  define l' where "l' = (if SWEEP_THRESHOLD < length (lim_buckets l) then sweep now l else l)"
  have eq: "available l' e now = available l e now" for e
    using sweep_available [OF assms] by (simp add: l'_def)
  have wf: "lim_wf l'" using assms(1) by (simp add: l'_def sweep_wf)
  have put: "available (l'\<lparr>lim_buckets :=
        AList.update c \<lparr>tb_tokens = n, tb_last_refill = now\<rparr> (lim_buckets l')\<rparr>) e now =
      (if e = c then min n (lim_burst l') else available l' e now)" for n e
    by (simp add: available_def update_conv' duration_since_def split: option.splits)
  show "fst (check c now l) = Inr () \<longleftrightarrow> 1 \<le> available l c now"
    by (simp add: check_available Let_def eq flip: l'_def)
  show "available (snd (check c now l)) d now =
      available l d now - (if d = c \<and> fst (check c now l) = Inr () then 1 else 0)"
    using available_le_burst [OF wf, of c now]
    by (auto simp: check_available Let_def put eq simp flip: l'_def)
qed

definition accepted :: "string \<Rightarrow> (string \<times> real) list \<Rightarrow> rate_limiter \<Rightarrow> nat" where
  "accepted c rs l =
     length (filter (\<lambda>((k, t), b). k = c \<and> b) (zip rs (fst (check_run rs l))))"

lemma accepted_simps [simp]:
  "accepted c [] l = 0"
  "accepted c ((d, now) # rs) l =
     (if d = c \<and> fst (check d now l) = Inr () then 1 else 0) + accepted c rs (snd (check d now l))"
  by (auto simp: accepted_def split_beta Let_def split: sum.splits)

lemma accepted_bound:
  assumes "lim_wf l" and "lim_burst l \<le> IDLE_EVICTION_SECS * lim_per_second l"
    and "sorted (t0 # map snd rs)" and "\<forall>(d, t) \<in> set rs. t \<le> t1" and "t0 \<le> t1"
  shows "real (accepted c rs l) \<le> available l c t0 + (t1 - t0) * lim_per_second l"
  using assms
proof (induction rs arbitrary: l t0)
  case Nil
  moreover from Nil have "0 \<le> (t1 - t0) * lim_per_second l" by (simp add: lim_wf_def)
  ultimately show ?case using available_nonneg [of l c t0] by simp
next
  case (Cons r rs)
  obtain d now where r: "r = (d, now)" by force
  let ?l = "snd (check d now l)"
  have now: "t0 \<le> now" "now \<le> t1" using Cons.prems r by auto
  have "real (accepted c rs ?l) \<le> available ?l c now + (t1 - now) * lim_per_second l"
    using Cons.IH [of ?l now] Cons.prems r now by (simp add: check_wf check_rates)
  moreover have "available ?l c now = available l c now -
      (if c = d \<and> fst (check d now l) = Inr () then 1 else 0)"
    by (rule check_step(1) [OF Cons.prems(1,2)])
  moreover have "available l c now \<le> available l c t0 + (now - t0) * lim_per_second l"
    by (rule available_grows [OF Cons.prems(1) now(1)])
  moreover have "(now - t0) * lim_per_second l + (t1 - now) * lim_per_second l =
      (t1 - t0) * lim_per_second l" by (simp add: algebra_simps)
  ultimately show ?case using r by (auto split: if_splits)
qed

lemma check_run_wf:
  assumes "lim_wf l"
  shows "lim_wf (snd (check_run rs l)) \<and> lim_burst (snd (check_run rs l)) = lim_burst l \<and>
    lim_per_second (snd (check_run rs l)) = lim_per_second l"
  using assms
proof (induction rs arbitrary: l)
  case (Cons r rs)
  then show ?case by (cases r) (simp add: split_beta Let_def check_wf check_rates)
qed simp

lemma sweep_available_ge: "lim_wf l \<Longrightarrow> available l c now \<le> available (sweep now l) c now"
proof -
  assume wf: "lim_wf l"
  have "map_of (lim_buckets (sweep now l)) c =
      (case map_of (lim_buckets l) c of None \<Rightarrow> None
       | Some b \<Rightarrow> if duration_since now (tb_last_refill b) < IDLE_EVICTION_SECS then Some b else None)"
    using wf by (simp add: sweep_def map_of_filter_snd lim_wf_def)
  then show ?thesis
    using available_le_burst [OF wf, of c now]
    by (auto simp: available_def sweep_def split: option.splits)
qed

lemma check_accepts:
  assumes "lim_wf l" and "1 \<le> available l c now"
  shows "fst (check c now l) = Inr ()"
  using assms(2) sweep_available_ge [OF assms(1), of c now]
  by (simp add: check_available Let_def)

lemma check_refused:
  assumes "lim_wf l" and "fst (check c now l) = Inl w" and "now + real w \<le> later"
  shows "1 \<le> available (snd (check c now l)) c later"
proof -
  define l' where "l' = (if SWEEP_THRESHOLD < length (lim_buckets l) then sweep now l else l)"
  define a where "a = available l' c now"
  let ?r = "lim_per_second l'"
  have wf: "lim_wf l'" using assms(1) by (simp add: l'_def sweep_wf)
  then have r: "1 \<le> ?r" and burst: "1 \<le> lim_burst l'" by (simp_all add: lim_wf_def)
  have w: "w = nat (max \<lceil>(1 - a) / ?r\<rceil> 1)" and lt: "\<not> 1 \<le> a"
    using assms(2) by (auto simp: check_available Let_def a_def simp flip: l'_def split: if_splits)
  have "(1 - a) / ?r \<le> real w" unfolding w by linarith
  then have "1 - a \<le> real w * ?r" using r by (simp add: pos_divide_le_eq)
  moreover have "real w * ?r \<le> duration_since later now * ?r"
    using assms(3) r by (intro mult_right_mono) (simp_all add: duration_since_def)
  ultimately have "1 \<le> a + duration_since later now * ?r" by linarith
  moreover have "available (snd (check c now l)) c later =
      min (a + duration_since later now * ?r) (lim_burst l')"
    using lt by (simp add: check_available Let_def available_def update_conv' flip: l'_def a_def)
       (simp add: a_def available_def update_conv')
  ultimately show ?thesis using burst by simp
qed

section \<open>Lemmas on usage tracking and keys\<close>

lemma should_record_written:
  "fst (should_record_at k now t) \<Longrightarrow>
     map_of (ut_last_written (snd (should_record_at k now t))) k = Some now"
  by (auto simp: should_record_at_def update_conv' split: option.splits if_splits)

lemma should_record_interval [simp]:
  "ut_interval (snd (should_record_at k now t)) = ut_interval t"
  by (simp add: should_record_at_def split: option.splits)

lemma should_record_other:
  "k \<noteq> k' \<Longrightarrow>
     map_of (ut_last_written (snd (should_record_at k now t))) k' = map_of (ut_last_written t) k'"
  by (auto simp: should_record_at_def update_conv' split: option.splits)

lemma should_record_unchanged:
  "\<not> fst (should_record_at k now t) \<Longrightarrow> snd (should_record_at k now t) = t"
  by (auto simp: should_record_at_def split: option.splits if_splits)

lemma record_run_spacing_from:
  assumes "map_of (ut_last_written t) k = Some s" and "sorted (s # map snd rs)"
    and "i < length rs" and "fst (rs ! i) = k" and "fst (record_run rs t) ! i"
  shows "s + ut_interval t \<le> snd (rs ! i)"
  using assms
proof (induction rs arbitrary: t s i)
  case (Cons r rs)
  obtain k' now where r: "r = (k', now)" by force
  let ?t = "snd (should_record_at k' now t)"
  have run: "fst (record_run (r # rs) t) = fst (should_record_at k' now t) # fst (record_run rs ?t)"
    using r by (simp add: split_beta Let_def)
  show ?case
  proof (cases i)
    case 0
    with Cons.prems r run show ?thesis
      by (auto simp: should_record_at_def split: if_splits)
  next
    case (Suc j)
    show ?thesis
    proof (cases "k' = k \<and> fst (should_record_at k' now t)")
      case True
      then have "map_of (ut_last_written ?t) k = Some now" using should_record_written by blast
      with Cons.IH [of ?t now j] Cons.prems Suc r run show ?thesis by auto
    next
      case False
      then have "map_of (ut_last_written ?t) k = Some s"
        using Cons.prems(1) should_record_other [of k' k now t] should_record_unchanged [of k' now t]
        by (cases "k' = k") auto
      with Cons.IH [of ?t s j] Cons.prems Suc r run show ?thesis by auto
    qed
  qed
qed simp

lemma record_run_spacing:
  assumes "sorted (map snd rs)" and "i < j" and "j < length rs" and "fst (rs ! i) = fst (rs ! j)"
    and "fst (record_run rs t) ! i" and "fst (record_run rs t) ! j"
  shows "snd (rs ! i) + ut_interval t \<le> snd (rs ! j)"
  using assms
proof (induction rs arbitrary: t i j)
  case (Cons r rs)
  obtain k' now where r: "r = (k', now)" by force
  let ?t = "snd (should_record_at k' now t)"
  have run: "fst (record_run (r # rs) t) = fst (should_record_at k' now t) # fst (record_run rs ?t)"
    using r by (simp add: split_beta Let_def)
  obtain j' where j: "j = Suc j'" using Cons.prems(2) by (cases j) auto
  show ?case
  proof (cases i)
    case 0
    then have "map_of (ut_last_written ?t) k' = Some now"
      using Cons.prems(5) run by (simp add: should_record_written)
    with record_run_spacing_from [of ?t k' now rs j'] 0 j Cons.prems r run show ?thesis by simp
  next
    case (Suc i')
    with Cons.IH [of i' j' ?t] j Cons.prems run show ?thesis by simp
  qed
qed simp

lemma split_on_no_delim: "d \<notin> set w \<Longrightarrow> split_on d (w @ d # s) = w # split_on d s"
  by (induction w) auto

section \<open>Properties\<close>



text \<open>
  The retry hint is honest: a client refused with a delay of \<open>w\<close> seconds, which is never
  zero, gets through if its next request comes \<open>w\<close> seconds later or after, also when the
  map is swept in between.
\<close>

theorem retry_after_is_enough:
  assumes "lim_wf l" and "fst (check c now l) = Inl w" and "now + real w \<le> later"
  shows "0 < w \<and> fst (check c later (snd (check c now l))) = Inr ()"
proof
  show "0 < w" using assms(2) by (auto simp: check_available Let_def split: if_splits)
  show "fst (check c later (snd (check c now l))) = Inr ()"
    by (rule check_accepts [OF check_wf [OF assms(1)] check_refused [OF assms]])
qed

abbreviation demo_limiter :: rate_limiter where
  "demo_limiter \<equiv> \<lparr>lim_buckets = [(''c'', \<lparr>tb_tokens = 0, tb_last_refill = 0\<rparr>)],
     lim_burst = 1000, lim_per_second = 1\<rparr>"

theorem retry_after_is_enough_witness:
  "fst (check ''c'' 1 (snd (check ''c'' 0 demo_limiter))) = Inr ()"
  using retry_after_is_enough [of demo_limiter "''c''" 0 1 1]
  by (simp add: lim_wf_def check_def SWEEP_THRESHOLD_def duration_since_def)

text \<open>
  The sweep is not neutral for large bursts: a bucket drained 300 seconds ago, under a
  burst of 1000 and one token per second, holds 300 tokens; forgetting it gives its client
  the whole burst back.
\<close>

theorem sweep_refills_large_bursts:
  "available demo_limiter ''c'' 300 = 300 \<and> available (sweep 300 demo_limiter) ''c'' 300 = 1000"
  by (simp add: available_def sweep_def duration_since_def IDLE_EVICTION_SECS_def)

text \<open>
  At most one last-used write per key and interval: in any run of requests in time order,
  two uses of the same key that are both recorded are at least the interval apart.
\<close>

theorem usage_writes_are_spaced:
  assumes "sorted (map snd rs)" and "i < j" and "j < length rs" and "fst (rs ! i) = fst (rs ! j)"
    and "fst (record_run rs usage_tracker_default) ! i"
    and "fst (record_run rs usage_tracker_default) ! j"
  shows "snd (rs ! i) + RECORD_INTERVAL \<le> snd (rs ! j)"
  using record_run_spacing [OF assms] by (simp add: usage_tracker_default_def usage_tracker_new_def)

theorem usage_writes_are_spaced_witness:
  "snd ([(7 :: uuid, 0), (7, RECORD_INTERVAL)] ! 0) + RECORD_INTERVAL \<le>
   snd ([(7 :: uuid, 0), (7, RECORD_INTERVAL)] ! 1)"
  by (rule usage_writes_are_spaced)
     (simp_all add: usage_tracker_default_def usage_tracker_new_def should_record_at_def
        RECORD_INTERVAL_def)

text \<open>
  A generated key claims the scope it was generated for, whatever the random part is, and
  stores only the hash of the secret and its first 14 characters.
\<close>

theorem generated_key_scope:
  "claimed_scope (gk_secret (generate X encoded scope)) = Some scope \<and>
   gk_hash (generate X encoded scope) = key_hash X (gk_secret (generate X encoded scope)) \<and>
   prefix (gk_prefix (generate X encoded scope)) (gk_secret (generate X encoded scope))"
proof -
  have "claimed_scope (gk_secret (generate X encoded scope)) = Some scope"
    by (cases scope) (simp_all add: claimed_scope_def generate_def KEY_PREFIX_def Let_def
        split: list.splits)
  moreover have "prefix (utf8_take n s) s" for n s
    by (induction n s rule: utf8_take.induct) (auto split: nat.splits)
  ultimately show ?thesis by (simp add: generate_def Let_def)
qed

end
