(* ===== verification/Storage_Db.thy ===== *)
theory Storage_Db
  imports Core_Snapshot Api_Limits
begin

text \<open>
  \<^verbatim>\<open>crates/storage/src/models.rs\<close> and \<^verbatim>\<open>error.rs\<close> with the schema of \<^verbatim>\<open>migrations/\<close>: the
  row types, the storage errors, and the database as a record of tables. A table is the list
  of its rows. The columns that hold JSON are modelled decoded, since every row is written by
  this code from a decoded value. The defaults of the schema (generated identifiers, the
  current time) are arguments of the statements. \<open>db_notified\<close> is the channel of change
  notifications the triggers write to.

  Constraints are checked in the order the database checks them: \<^verbatim>\<open>CHECK\<close> and \<^verbatim>\<open>NOT NULL\<close>,
  then unique indexes, then foreign keys. A failed statement or transaction leaves the
  database as it was. Loss of the connection is not modelled.
\<close>

section \<open>Errors\<close>

datatype storage_error =
    NotFound string
  | Conflict string string
  | VersionConflict string int
  | Invalid string
  | InUse string string "string list"
  | WrongState string string string string
  | MalformedRow string string
  | Database string

datatype sql_error = UniqueViolation | ForeignKeyViolation | CheckViolation | OtherViolation string

fun from_write :: "sql_error \<Rightarrow> string \<Rightarrow> string \<Rightarrow> storage_error" where
  "from_write UniqueViolation entity key = Conflict entity key"
| "from_write ForeignKeyViolation entity key = NotFound entity"
| "from_write CheckViolation entity key = Invalid entity"
| "from_write (OtherViolation e) entity key = Database e"

definition sql_error_text :: "sql_error \<Rightarrow> string" where
  "sql_error_text e =
     (case e of UniqueViolation \<Rightarrow> ''23505'' | ForeignKeyViolation \<Rightarrow> ''23503''
      | CheckViolation \<Rightarrow> ''23514'' | OtherViolation t \<Rightarrow> t)"

definition or_not_found :: "'a option \<Rightarrow> string \<Rightarrow> storage_error + 'a" where
  "or_not_found x entity = (case x of None \<Rightarrow> Inl (NotFound entity) | Some v \<Rightarrow> Inr v)"

text \<open>Sequencing of fallible steps, the \<^verbatim>\<open>?\<close> operator.\<close>

definition and_then :: "'e + 'a \<Rightarrow> ('a \<Rightarrow> 'e + 'b) \<Rightarrow> 'e + 'b" where
  "and_then r f = (case r of Inl e \<Rightarrow> Inl e | Inr x \<Rightarrow> f x)"

definition map_err :: "('e \<Rightarrow> 'f) \<Rightarrow> 'e + 'a \<Rightarrow> 'f + 'a" where
  "map_err g r = (case r of Inl e \<Rightarrow> Inl (g e) | Inr x \<Rightarrow> Inr x)"

lemma and_then_simps [simp]: "and_then (Inl e) f = Inl e" "and_then (Inr x) f = f x"
  by (simp_all add: and_then_def)

lemma and_then_Inr: "and_then r f = Inr y \<longleftrightarrow> (\<exists>x. r = Inr x \<and> f x = Inr y)"
  by (cases r) simp_all

lemma map_err_simps [simp]: "map_err g (Inl e) = Inl (g e)" "map_err g (Inr x) = Inr x"
  by (simp_all add: map_err_def)

lemma map_err_Inr [simp]: "map_err g r = Inr y \<longleftrightarrow> r = Inr y"
  by (cases r) simp_all

lemma or_not_found_Inr [simp]: "or_not_found x e = Inr v \<longleftrightarrow> x = Some v"
  by (cases x) (simp_all add: or_not_found_def)

lemmas result_defs [model_defs] = or_not_found_def and_then_def map_err_def

section \<open>Rows\<close>

datatype role = Owner | Admin | Member | Viewer

definition role_as_str :: "role \<Rightarrow> string" where
  "role_as_str r =
     (case r of Owner \<Rightarrow> ''owner'' | Admin \<Rightarrow> ''admin'' | Member \<Rightarrow> ''member'' | Viewer \<Rightarrow> ''viewer'')"

definition role_parse :: "string \<Rightarrow> role option" where
  "role_parse raw = find (\<lambda>r. role_as_str r = raw) [Owner, Admin, Member, Viewer]"

definition can_write :: "role \<Rightarrow> bool" where
  "can_write r = (r \<in> {Owner, Admin, Member})"

definition can_administer :: "role \<Rightarrow> bool" where
  "can_administer r = (r \<in> {Owner, Admin})"

record organization =
  org_id :: uuid
  org_name :: string
  org_slug :: string
  org_created_at :: int

record user =
  usr_id :: uuid
  usr_organization_id :: uuid
  usr_email :: string
  usr_role :: role
  usr_created_at :: int
  usr_password_hash :: string

record project =
  prj_id :: uuid
  prj_organization_id :: uuid
  prj_key :: string
  prj_name :: string
  prj_description :: "string option"
  prj_created_at :: int

record environment =
  en_id :: uuid
  en_project_id :: uuid
  en_key :: string
  en_name :: string
  en_is_production :: bool
  en_created_at :: int
  en_salt :: string

record flag_row =
  fl_id :: uuid
  fl_project_id :: uuid
  fl_key :: string
  fl_name :: string
  fl_description :: "string option"
  fl_variants :: "variant list"
  fl_archived :: bool
  fl_created_at :: int
  fl_updated_at :: int

record flag_config =
  fc_flag_id :: uuid
  fc_environment_id :: uuid
  fc_enabled :: bool
  fc_off_variant :: string
  fc_fallthrough :: distribution
  fc_rules :: "rule list"
  fc_version :: int
  fc_updated_at :: int

record segment_row =
  sg_id :: uuid
  sg_environment_id :: uuid
  sg_key :: string
  sg_name :: string
  sg_description :: "string option"
  sg_included :: "string list"
  sg_excluded :: "string list"
  sg_rules :: "segment_rule list"
  sg_version :: int
  sg_created_at :: int
  sg_updated_at :: int

definition segment_definition :: "segment_row \<Rightarrow> segment" where
  "segment_definition s =
     \<lparr>seg_key = sg_key s, seg_description = sg_description s, seg_included = sg_included s,
      seg_excluded = sg_excluded s, seg_rules = sg_rules s, seg_version = sg_version s\<rparr>"

datatype experiment_state = Draft | Running | Stopped

definition experiment_state_as_str :: "experiment_state \<Rightarrow> string" where
  "experiment_state_as_str s =
     (case s of Draft \<Rightarrow> ''draft'' | Running \<Rightarrow> ''running'' | Stopped \<Rightarrow> ''stopped'')"

definition experiment_state_parse :: "string \<Rightarrow> experiment_state option" where
  "experiment_state_parse raw =
     find (\<lambda>s. experiment_state_as_str s = raw) [Draft, Running, Stopped]"

record experiment_row =
  ex_id :: uuid
  ex_environment_id :: uuid
  ex_flag_id :: uuid
  ex_key :: string
  ex_name :: string
  ex_description :: "string option"
  ex_metric_key :: string
  ex_control_variant :: string
  ex_state :: experiment_state
  ex_started_at :: "int option"
  ex_stopped_at :: "int option"
  ex_version :: int
  ex_created_at :: int
  ex_updated_at :: int

text \<open>An experiment as read: the row and what the join adds of its flag.\<close>

record experiment_view =
  exp_row :: experiment_row
  exp_flag_key :: string
  exp_variants :: "variant list"

definition experiment_spec_of :: "experiment_view \<Rightarrow> experiment_spec" where
  "experiment_spec_of e =
     \<lparr>xs_key = ex_key (exp_row e), xs_flag_key = exp_flag_key e,
      xs_metric_key = ex_metric_key (exp_row e),
      xs_control_variant = ex_control_variant (exp_row e), xs_version = ex_version (exp_row e)\<rparr>"

datatype counter_kind = CExposure | CConversion

definition counter_kind_as_str :: "counter_kind \<Rightarrow> string" where
  "counter_kind_as_str k = (case k of CExposure \<Rightarrow> ''exposure'' | CConversion \<Rightarrow> ''conversion'')"

record counter_delta =
  cd_experiment_key :: string
  cd_variant :: string
  cd_kind :: counter_kind
  cd_at :: int
  cd_count :: u32

record counter_row =
  ct_experiment_id :: uuid
  ct_variant :: string
  ct_kind :: counter_kind
  ct_hour :: int
  ct_count :: int

record series_point =
  sp_hour :: int
  sp_exposures :: u64
  sp_conversions :: u64

record variant_series =
  vs_variant :: string
  vs_points :: "series_point list"

record api_key =
  ak_id :: uuid
  ak_environment_id :: uuid
  ak_name :: string
  ak_prefix :: string
  ak_scope :: key_scope
  ak_created_at :: int
  ak_last_used_at :: "int option"
  ak_revoked_at :: "int option"
  ak_key_hash :: string

record key_identity =
  ki_api_key_id :: uuid
  ki_environment_id :: uuid
  ki_project_id :: uuid
  ki_organization_id :: uuid
  ki_scope :: key_scope

record audit_entry =
  au_id :: int
  au_actor_email :: string
  au_action :: string
  au_resource_type :: string
  au_resource_id :: string
  au_environment_id :: "uuid option"
  au_before :: "json option"
  au_after :: "json option"
  au_created_at :: int
  au_organization_id :: uuid
  au_actor_user_id :: "uuid option"

record new_audit_entry =
  na_organization_id :: uuid
  na_actor_user_id :: "uuid option"
  na_actor_email :: string
  na_action :: string
  na_resource_type :: string
  na_resource_id :: string
  na_environment_id :: "uuid option"
  na_before :: "json option"
  na_after :: "json option"

definition new_audit_entry_new ::
  "uuid \<Rightarrow> uuid option \<times> string \<Rightarrow> string \<Rightarrow> string \<Rightarrow> string \<Rightarrow> new_audit_entry" where
  "new_audit_entry_new organization_id actor action resource_type resource_id =
     \<lparr>na_organization_id = organization_id, na_actor_user_id = fst actor,
      na_actor_email = snd actor, na_action = action, na_resource_type = resource_type,
      na_resource_id = resource_id, na_environment_id = None, na_before = None, na_after = None\<rparr>"

definition in_environment :: "new_audit_entry \<Rightarrow> uuid \<Rightarrow> new_audit_entry" where
  "in_environment e environment_id = e\<lparr>na_environment_id := Some environment_id\<rparr>"

text \<open>\<open>to_json\<close> is the serialisation of the changed object, which may fail.\<close>

definition changing ::
  "('a \<Rightarrow> json option) \<Rightarrow> new_audit_entry \<Rightarrow> 'a option \<Rightarrow> 'a option \<Rightarrow> new_audit_entry" where
  "changing to_json e before after =
     e\<lparr>na_before := Option.bind before to_json, na_after := Option.bind after to_json\<rparr>"

section \<open>The database\<close>

record db =
  db_organizations :: "organization list"
  db_users :: "user list"
  db_projects :: "project list"
  db_environments :: "environment list"
  db_flags :: "flag_row list"
  db_configs :: "flag_config list"
  db_api_keys :: "api_key list"
  db_audit :: "audit_entry list"
  db_next_audit_id :: int
  db_segments :: "segment_row list"
  db_experiments :: "experiment_row list"
  db_counters :: "counter_row list"
  db_notified :: "uuid list"

definition db_empty :: db where
  "db_empty =
     \<lparr>db_organizations = [], db_users = [], db_projects = [], db_environments = [], db_flags = [],
      db_configs = [], db_api_keys = [], db_audit = [], db_next_audit_id = 1, db_segments = [],
      db_experiments = [], db_counters = [], db_notified = []\<rparr>"

definition notify :: "uuid list \<Rightarrow> db \<Rightarrow> db" where
  "notify envs d = d\<lparr>db_notified := db_notified d @ envs\<rparr>"

definition check_name :: "string \<Rightarrow> bool" where
  "check_name name = (1 \<le> utf8_length name \<and> utf8_length name \<le> 200)"

text \<open>
  The constraints of a statement: the first that fails decides, in the order check, unique,
  foreign key.
\<close>

definition constraints :: "bool \<Rightarrow> bool \<Rightarrow> bool \<Rightarrow> sql_error + unit" where
  "constraints checks unique references =
     (if \<not> checks then Inl CheckViolation
      else if \<not> unique then Inl UniqueViolation
      else if \<not> references then Inl ForeignKeyViolation else Inr ())"

lemma constraints_Inr [simp]:
  "constraints c u r = Inr x \<longleftrightarrow> c \<and> u \<and> r"
  by (simp add: constraints_def)

definition environments_of :: "uuid \<Rightarrow> db \<Rightarrow> environment list" where
  "environments_of project_id d = filter (\<lambda>e. en_project_id e = project_id) (db_environments d)"

text \<open>
  Deleting environments, with everything that cascades from them: configurations, keys,
  segments, experiments with their counters; audit entries forget the environment. The rows
  that carry a notify trigger announce their environment.
\<close>

definition cascade_environments :: "(environment \<Rightarrow> bool) \<Rightarrow> db \<Rightarrow> db" where
  "cascade_environments gone d =
     (let ids = en_id ` set (filter gone (db_environments d));
          exps = ex_id ` set (filter (\<lambda>x. ex_environment_id x \<in> ids) (db_experiments d))
      in notify
           (map fc_environment_id (filter (\<lambda>c. fc_environment_id c \<in> ids) (db_configs d)) @
            map sg_environment_id (filter (\<lambda>s. sg_environment_id s \<in> ids) (db_segments d)) @
            map ex_environment_id (filter (\<lambda>x. ex_environment_id x \<in> ids) (db_experiments d)))
         (d\<lparr>db_environments := filter (\<lambda>e. \<not> gone e) (db_environments d),
            db_configs := filter (\<lambda>c. fc_environment_id c \<notin> ids) (db_configs d),
            db_api_keys := filter (\<lambda>k. ak_environment_id k \<notin> ids) (db_api_keys d),
            db_segments := filter (\<lambda>s. sg_environment_id s \<notin> ids) (db_segments d),
            db_experiments := filter (\<lambda>x. ex_environment_id x \<notin> ids) (db_experiments d),
            db_counters := filter (\<lambda>c. ct_experiment_id c \<notin> exps) (db_counters d),
            db_audit := map (\<lambda>a. if au_environment_id a \<in> Some ` ids then a\<lparr>au_environment_id := None\<rparr>
                               else a) (db_audit d)\<rparr>))"

text \<open>
  Deleting flags: refused while an experiment references one of them, otherwise their
  configurations go with them. Every environment of the project of a deleted flag is told.
\<close>

definition cascade_flags :: "(flag_row \<Rightarrow> bool) \<Rightarrow> db \<Rightarrow> sql_error + db" where
  "cascade_flags gone d =
     (let fs = filter gone (db_flags d); ids = fl_id ` set fs
      in if list_ex (\<lambda>x. ex_flag_id x \<in> ids) (db_experiments d) then Inl ForeignKeyViolation
         else Inr (notify
           (map fc_environment_id (filter (\<lambda>c. fc_flag_id c \<in> ids) (db_configs d)) @
            concat (map (\<lambda>f. map en_id (environments_of (fl_project_id f) d)) fs))
           (d\<lparr>db_flags := filter (\<lambda>f. \<not> gone f) (db_flags d),
              db_configs := filter (\<lambda>c. fc_flag_id c \<notin> ids) (db_configs d)\<rparr>)))"

lemmas db_defs [model_defs] =
  notify_def check_name_def constraints_def environments_of_def cascade_environments_def
  cascade_flags_def

section \<open>Integrity of the database\<close>

text \<open>What the schema enforces: unique keys and references to existing rows.\<close>

definition keys_unique :: "db \<Rightarrow> bool" where
  "keys_unique d =
     (distinct (map prj_id (db_projects d)) \<and>
      distinct (map (\<lambda>p. (prj_organization_id p, prj_key p)) (db_projects d)) \<and>
      distinct (map en_id (db_environments d)) \<and>
      distinct (map (\<lambda>e. (en_project_id e, en_key e)) (db_environments d)) \<and>
      distinct (map fl_id (db_flags d)) \<and>
      distinct (map (\<lambda>f. (fl_project_id f, fl_key f)) (db_flags d)) \<and>
      distinct (map (\<lambda>c. (fc_flag_id c, fc_environment_id c)) (db_configs d)) \<and>
      distinct (map (\<lambda>s. (sg_environment_id s, sg_key s)) (db_segments d)) \<and>
      distinct (map ex_id (db_experiments d)) \<and>
      distinct (map (\<lambda>x. (ex_environment_id x, ex_key x)) (db_experiments d)))"

definition references_hold :: "db \<Rightarrow> bool" where
  "references_hold d =
     (let prjs = prj_id ` set (db_projects d); ens = en_id ` set (db_environments d);
          fls = fl_id ` set (db_flags d)
      in en_project_id ` set (db_environments d) \<subseteq> prjs \<and>
         fl_project_id ` set (db_flags d) \<subseteq> prjs \<and>
         fc_flag_id ` set (db_configs d) \<subseteq> fls \<and> fc_environment_id ` set (db_configs d) \<subseteq> ens \<and>
         sg_environment_id ` set (db_segments d) \<subseteq> ens \<and>
         ex_environment_id ` set (db_experiments d) \<subseteq> ens \<and>
         ex_flag_id ` set (db_experiments d) \<subseteq> fls \<and>
         ct_experiment_id ` set (db_counters d) \<subseteq> ex_id ` set (db_experiments d))"

text \<open>
  The invariant the storage layer maintains beyond the schema: a flag is configured in every
  environment of its project.
\<close>

definition configured_everywhere :: "db \<Rightarrow> bool" where
  "configured_everywhere d =
     (\<forall>f \<in> set (db_flags d). \<forall>e \<in> set (db_environments d).
        fl_project_id f = en_project_id e \<longrightarrow>
        (\<exists>c \<in> set (db_configs d). fc_flag_id c = fl_id f \<and> fc_environment_id c = en_id e))"

definition db_inv :: "db \<Rightarrow> bool" where
  "db_inv d = (keys_unique d \<and> references_hold d \<and> configured_everywhere d)"

lemmas integrity_defs = keys_unique_def references_hold_def configured_everywhere_def db_inv_def

lemma notify_inv [simp]: "db_inv (notify es d) = db_inv d"
  by (simp add: integrity_defs notify_def)

lemma notify_tables [simp]:
  "db_projects (notify es d) = db_projects d"
  "db_environments (notify es d) = db_environments d"
  "db_flags (notify es d) = db_flags d"
  "db_configs (notify es d) = db_configs d"
  "db_segments (notify es d) = db_segments d"
  "db_experiments (notify es d) = db_experiments d"
  "db_counters (notify es d) = db_counters d"
  "db_api_keys (notify es d) = db_api_keys d"
  "db_organizations (notify es d) = db_organizations d"
  by (simp_all add: notify_def)

lemma db_empty_inv [simp]: "db_inv db_empty"
  by (simp add: integrity_defs db_empty_def)

text \<open>Rows are determined by a unique column.\<close>

lemma unique_by: "distinct (map f xs) \<Longrightarrow> x \<in> set xs \<Longrightarrow> y \<in> set xs \<Longrightarrow> f x = f y \<Longrightarrow> x = y"
  by (auto simp: distinct_map dest: inj_onD)

lemma find_unique: "distinct (map f xs) \<Longrightarrow> x \<in> set xs \<Longrightarrow> find (\<lambda>y. f y = f x) xs = Some x"
  by (induction xs) auto

lemma find_SomeD: "find P xs = Some y \<Longrightarrow> y \<in> set xs \<and> P y"
  by (auto simp: find_Some_iff)

lemma find_exists:
  assumes "x \<in> set xs" and "P x"
  obtains y where "find P xs = Some y" and "y \<in> set xs" and "P y"
  using assms by (cases "find P xs") (auto simp: find_None_iff dest: find_SomeD)

lemma find_unique_when:
  assumes "distinct (map f xs)" and "x \<in> set xs" and "\<And>y. P y \<longleftrightarrow> f y = f x"
  shows "find P xs = Some x"
proof -
  have "P = (\<lambda>y. f y = f x)" using assms(3) by blast
  then show ?thesis using find_unique [OF assms(1,2)] by simp
qed

lemma image_kept: "v \<in> f ` set xs \<Longrightarrow> v \<notin> f ` set (filter P xs) \<Longrightarrow> v \<in> f ` set (filter (\<lambda>x. \<not> P x) xs)"
  by auto

lemma image_filter_subset:
  "f ` set xs \<subseteq> B \<Longrightarrow> f ` set (filter P xs) \<subseteq> B"
  by auto

lemma image_filter_kept:
  "f ` set xs \<subseteq> g ` set ys \<Longrightarrow>
     f ` set (filter (\<lambda>x. f x \<notin> g ` set (filter P ys)) xs) \<subseteq> g ` set (filter (\<lambda>y. \<not> P y) ys)"
  by auto

lemma references_holdD:
  assumes "references_hold d"
  shows "en_project_id ` set (db_environments d) \<subseteq> prj_id ` set (db_projects d)"
    "fl_project_id ` set (db_flags d) \<subseteq> prj_id ` set (db_projects d)"
    "fc_flag_id ` set (db_configs d) \<subseteq> fl_id ` set (db_flags d)"
    "fc_environment_id ` set (db_configs d) \<subseteq> en_id ` set (db_environments d)"
    "sg_environment_id ` set (db_segments d) \<subseteq> en_id ` set (db_environments d)"
    "ex_environment_id ` set (db_experiments d) \<subseteq> en_id ` set (db_environments d)"
    "ex_flag_id ` set (db_experiments d) \<subseteq> fl_id ` set (db_flags d)"
    "ct_experiment_id ` set (db_counters d) \<subseteq> ex_id ` set (db_experiments d)"
  using assms by (simp_all add: references_hold_def)

lemma db_invD: "db_inv d \<Longrightarrow> keys_unique d" "db_inv d \<Longrightarrow> references_hold d"
    "db_inv d \<Longrightarrow> configured_everywhere d"
  by (simp_all add: db_inv_def)

lemma cascade_environments_tables:
  fixes gone d
  defines "ids \<equiv> en_id ` set (filter gone (db_environments d))"
  shows "db_projects (cascade_environments gone d) = db_projects d"
    "db_flags (cascade_environments gone d) = db_flags d"
    "db_environments (cascade_environments gone d) = filter (\<lambda>e. \<not> gone e) (db_environments d)"
    "db_configs (cascade_environments gone d) = filter (\<lambda>c. fc_environment_id c \<notin> ids) (db_configs d)"
    "db_segments (cascade_environments gone d) = filter (\<lambda>s. sg_environment_id s \<notin> ids) (db_segments d)"
    "db_experiments (cascade_environments gone d) =
       filter (\<lambda>x. \<not> ex_environment_id x \<in> ids) (db_experiments d)"
    "db_counters (cascade_environments gone d) =
       filter (\<lambda>c. ct_experiment_id c \<notin>
         ex_id ` set (filter (\<lambda>x. ex_environment_id x \<in> ids) (db_experiments d))) (db_counters d)"
  by (simp_all add: cascade_environments_def Let_def ids_def)

lemma cascade_environments_inv:
  assumes "db_inv d"
  shows "db_inv (cascade_environments gone d)"
proof -
  let ?ids = "en_id ` set (filter gone (db_environments d))"
  note r = references_holdD [OF db_invD(2) [OF assms]]
  have gone_iff: "en_id e \<in> ?ids \<longleftrightarrow> gone e" if "e \<in> set (db_environments d)" for e
  proof -
    have "inj_on en_id (set (db_environments d))"
      using assms by (simp add: db_inv_def keys_unique_def distinct_map)
    with that show ?thesis by (auto dest: inj_onD)
  qed
  have "keys_unique (cascade_environments gone d)"
    using assms unfolding db_inv_def keys_unique_def cascade_environments_tables
    by (simp add: distinct_map_filter)
  moreover have "references_hold (cascade_environments gone d)"
    unfolding references_hold_def cascade_environments_tables Let_def
    by (intro conjI; (rule r | rule image_filter_kept, rule r | rule image_filter_subset, rule r))
  moreover have "configured_everywhere (cascade_environments gone d)"
    unfolding configured_everywhere_def
  proof (intro ballI impI)
    fix f e
    assume "f \<in> set (db_flags (cascade_environments gone d))"
      and e: "e \<in> set (db_environments (cascade_environments gone d))"
      and "fl_project_id f = en_project_id e"
    then obtain c where "c \<in> set (db_configs d)" "fc_flag_id c = fl_id f" "fc_environment_id c = en_id e"
      using assms unfolding db_inv_def configured_everywhere_def cascade_environments_tables by auto
    moreover have "en_id e \<notin> ?ids"
      using e gone_iff [of e] by (simp add: cascade_environments_tables)
    ultimately show "\<exists>c \<in> set (db_configs (cascade_environments gone d)).
        fc_flag_id c = fl_id f \<and> fc_environment_id c = en_id e"
      unfolding cascade_environments_tables by (intro bexI [of _ c]) simp_all
  qed
  ultimately show ?thesis by (simp add: db_inv_def)
qed

lemma cascade_flags_eq:
  assumes "cascade_flags gone d = Inr d'"
  defines "ids \<equiv> fl_id ` set (filter gone (db_flags d))"
  shows "\<exists>es. d' = notify es (d\<lparr>db_flags := filter (\<lambda>f. \<not> gone f) (db_flags d),
      db_configs := filter (\<lambda>c. fc_flag_id c \<notin> ids) (db_configs d)\<rparr>)"
    and "x \<in> set (db_experiments d) \<Longrightarrow> ex_flag_id x \<notin> ids"
  using assms(1) by (auto simp: cascade_flags_def Let_def ids_def list_ex_iff split: if_splits)

lemma cascade_flags_inv:
  assumes "db_inv d" and "cascade_flags gone d = Inr d'"
  shows "db_inv d'"
proof -
  let ?ids = "fl_id ` set (filter gone (db_flags d))"
  have gone_iff: "fl_id f \<in> ?ids \<longleftrightarrow> gone f" if "f \<in> set (db_flags d)" for f
  proof -
    have "inj_on fl_id (set (db_flags d))"
      using assms(1) by (simp add: db_inv_def keys_unique_def distinct_map)
    with that show ?thesis by (auto dest: inj_onD)
  qed
  obtain es where d': "d' = notify es (d\<lparr>db_flags := filter (\<lambda>f. \<not> gone f) (db_flags d),
      db_configs := filter (\<lambda>c. fc_flag_id c \<notin> ?ids) (db_configs d)\<rparr>)"
    using cascade_flags_eq(1) [OF assms(2)] by blast
  have "keys_unique d'"
    using assms(1) by (simp add: d' db_inv_def keys_unique_def distinct_map_filter)
  moreover have "references_hold d'"
  proof -
    have "ex_flag_id ` set (db_experiments d) \<subseteq> fl_id ` set (filter (\<lambda>f. \<not> gone f) (db_flags d))"
    proof (rule image_subsetI)
      fix x
      assume x: "x \<in> set (db_experiments d)"
      then have "ex_flag_id x \<in> fl_id ` set (db_flags d)"
        using assms(1) by (simp add: db_inv_def references_hold_def Let_def image_subset_iff)
      then show "ex_flag_id x \<in> fl_id ` set (filter (\<lambda>f. \<not> gone f) (db_flags d))"
        by (rule image_kept) (rule cascade_flags_eq(2) [OF assms(2) x])
    qed
    moreover have "db_flags d' = filter (\<lambda>f. \<not> gone f) (db_flags d)"
      and "db_configs d' = filter (\<lambda>c. fc_flag_id c \<notin> ?ids) (db_configs d)"
      and "db_projects d' = db_projects d" "db_environments d' = db_environments d"
      "db_segments d' = db_segments d" "db_experiments d' = db_experiments d"
      "db_counters d' = db_counters d"
      by (simp_all add: d')
    ultimately show ?thesis
      using assms(1) unfolding db_inv_def references_hold_def Let_def
      by (simp only:) (intro conjI TrueI image_filter_kept image_filter_subset; elim conjE; assumption)
  qed
  moreover have "configured_everywhere d'"
    unfolding configured_everywhere_def
  proof (intro ballI impI)
    fix f e
    assume f: "f \<in> set (db_flags d')" and "e \<in> set (db_environments d')"
      and "fl_project_id f = en_project_id e"
    then obtain c where "c \<in> set (db_configs d)" "fc_flag_id c = fl_id f" "fc_environment_id c = en_id e"
      using assms(1) by (auto simp: d' db_inv_def configured_everywhere_def)
    moreover have "fl_id f \<notin> ?ids" using f gone_iff by (auto simp: d')
    ultimately show "\<exists>c \<in> set (db_configs d'). fc_flag_id c = fl_id f \<and> fc_environment_id c = en_id e"
      by (intro bexI [of _ c]) (simp_all add: d')
  qed
  ultimately show ?thesis by (simp add: db_inv_def)
qed

text \<open>
  The invariant only reads identifying columns, so rewriting other columns in place keeps it.
\<close>

definition same_keys :: "db \<Rightarrow> db \<Rightarrow> bool" where
  "same_keys d d' =
     (db_projects d' = db_projects d \<and> db_environments d' = db_environments d \<and>
      map (\<lambda>f. (fl_id f, fl_project_id f, fl_key f)) (db_flags d') =
        map (\<lambda>f. (fl_id f, fl_project_id f, fl_key f)) (db_flags d) \<and>
      map (\<lambda>c. (fc_flag_id c, fc_environment_id c)) (db_configs d') =
        map (\<lambda>c. (fc_flag_id c, fc_environment_id c)) (db_configs d) \<and>
      map (\<lambda>s. (sg_environment_id s, sg_key s)) (db_segments d') =
        map (\<lambda>s. (sg_environment_id s, sg_key s)) (db_segments d) \<and>
      map (\<lambda>x. (ex_id x, ex_environment_id x, ex_key x, ex_flag_id x)) (db_experiments d') =
        map (\<lambda>x. (ex_id x, ex_environment_id x, ex_key x, ex_flag_id x)) (db_experiments d) \<and>
      set (map ct_experiment_id (db_counters d')) \<subseteq> ex_id ` set (db_experiments d))"

lemma map_projection: "map f xs = map f ys \<Longrightarrow> (\<And>x. g x = h (f x)) \<Longrightarrow> map g xs = map g ys"
proof -
  assume eq: "map f xs = map f ys" and g: "\<And>x. g x = h (f x)"
  have "map g zs = map h (map f zs)" for zs by (simp add: g)
  then show ?thesis by (simp only: eq)
qed

lemma configured_everywhere_keys:
  "configured_everywhere d \<longleftrightarrow>
     (\<forall>f \<in> set (map (\<lambda>f. (fl_id f, fl_project_id f, fl_key f)) (db_flags d)).
        \<forall>e \<in> set (db_environments d). fst (snd f) = en_project_id e \<longrightarrow>
        (fst f, en_id e) \<in> set (map (\<lambda>c. (fc_flag_id c, fc_environment_id c)) (db_configs d)))"
  by (auto simp: configured_everywhere_def image_iff) metis+

lemma same_keys_inv:
  assumes "same_keys d d'" and "db_inv d"
  shows "db_inv d'"
proof -
  have k: "db_projects d' = db_projects d" "db_environments d' = db_environments d"
    "map (\<lambda>f. (fl_id f, fl_project_id f, fl_key f)) (db_flags d') =
       map (\<lambda>f. (fl_id f, fl_project_id f, fl_key f)) (db_flags d)"
    "map (\<lambda>c. (fc_flag_id c, fc_environment_id c)) (db_configs d') =
       map (\<lambda>c. (fc_flag_id c, fc_environment_id c)) (db_configs d)"
    "map (\<lambda>s. (sg_environment_id s, sg_key s)) (db_segments d') =
       map (\<lambda>s. (sg_environment_id s, sg_key s)) (db_segments d)"
    "map (\<lambda>x. (ex_id x, ex_environment_id x, ex_key x, ex_flag_id x)) (db_experiments d') =
       map (\<lambda>x. (ex_id x, ex_environment_id x, ex_key x, ex_flag_id x)) (db_experiments d)"
    and ct: "set (map ct_experiment_id (db_counters d')) \<subseteq> ex_id ` set (db_experiments d)"
    using assms(1) by (simp_all add: same_keys_def)
  have m: "map fl_id (db_flags d') = map fl_id (db_flags d)"
    "map fl_project_id (db_flags d') = map fl_project_id (db_flags d)"
    "map (\<lambda>f. (fl_project_id f, fl_key f)) (db_flags d') =
       map (\<lambda>f. (fl_project_id f, fl_key f)) (db_flags d)"
    "map fc_flag_id (db_configs d') = map fc_flag_id (db_configs d)"
    "map fc_environment_id (db_configs d') = map fc_environment_id (db_configs d)"
    "map sg_environment_id (db_segments d') = map sg_environment_id (db_segments d)"
    "map ex_id (db_experiments d') = map ex_id (db_experiments d)"
    "map ex_environment_id (db_experiments d') = map ex_environment_id (db_experiments d)"
    "map ex_flag_id (db_experiments d') = map ex_flag_id (db_experiments d)"
    "map (\<lambda>x. (ex_environment_id x, ex_key x)) (db_experiments d') =
       map (\<lambda>x. (ex_environment_id x, ex_key x)) (db_experiments d)"
    by (rule map_projection [OF k(3), where h = "\<lambda>(i, p, k). i"], simp)
       (rule map_projection [OF k(3), where h = "\<lambda>(i, p, k). p"], simp,
        rule map_projection [OF k(3), where h = "\<lambda>(i, p, k). (p, k)"], simp,
        rule map_projection [OF k(4), where h = fst], simp,
        rule map_projection [OF k(4), where h = snd], simp,
        rule map_projection [OF k(5), where h = fst], simp,
        rule map_projection [OF k(6), where h = "\<lambda>(i, e, k, f). i"], simp,
        rule map_projection [OF k(6), where h = "\<lambda>(i, e, k, f). e"], simp,
        rule map_projection [OF k(6), where h = "\<lambda>(i, e, k, f). f"], simp,
        rule map_projection [OF k(6), where h = "\<lambda>(i, e, k, f). (e, k)"], simp)
  have "keys_unique d'"
    using db_invD(1) [OF assms(2)] unfolding keys_unique_def k m .
  moreover have "references_hold d'"
    using references_holdD [OF db_invD(2) [OF assms(2)]] ct
    unfolding references_hold_def Let_def set_map [symmetric] k m by blast
  moreover have "configured_everywhere d'"
    using db_invD(3) [OF assms(2)] unfolding configured_everywhere_keys k .
  ultimately show ?thesis by (simp add: db_inv_def)
qed

end
