(* ===== verification/Api_Errors.thy ===== *)
theory Api_Errors
  imports Storage_Db
begin

text \<open>
  \<^verbatim>\<open>crates/api/src/error.rs\<close>: the errors of the API, their status codes and their wire form,
  with the translation of storage errors and the texts of \<^verbatim>\<open>crates/storage/src/error.rs\<close>. The
  cause of an internal error is the text it is logged with.
\<close>

section \<open>Errors\<close>

datatype api_error =
    BadRequest string
  | ApiUnauthorized string
  | Forbidden string
  | ApiNotFound string
  | ApiConflict string
  | Unprocessable "validation_issue list"
  | RateLimited u64
  | Internal string

fun status :: "api_error \<Rightarrow> nat" where
  "status (BadRequest _) = 400"
| "status (ApiUnauthorized _) = 401"
| "status (Forbidden _) = 403"
| "status (ApiNotFound _) = 404"
| "status (ApiConflict _) = 409"
| "status (Unprocessable _) = 422"
| "status (RateLimited _) = 429"
| "status (Internal _) = 500"

fun kind :: "api_error \<Rightarrow> string" where
  "kind (BadRequest _) = ''bad_request''"
| "kind (ApiUnauthorized _) = ''unauthorized''"
| "kind (Forbidden _) = ''forbidden''"
| "kind (ApiNotFound _) = ''not_found''"
| "kind (ApiConflict _) = ''conflict''"
| "kind (Unprocessable _) = ''validation_failed''"
| "kind (RateLimited _) = ''rate_limited''"
| "kind (Internal _) = ''internal_error''"

fun api_error_to_string :: "api_error \<Rightarrow> string" where
  "api_error_to_string (BadRequest m) = m"
| "api_error_to_string (ApiUnauthorized m) = m"
| "api_error_to_string (Forbidden m) = m"
| "api_error_to_string (ApiNotFound entity) = entity @ '' not found''"
| "api_error_to_string (ApiConflict m) = m"
| "api_error_to_string (Unprocessable _) = ''the submitted configuration is invalid''"
| "api_error_to_string (RateLimited _) = ''too many requests''"
| "api_error_to_string (Internal cause) = cause"

record problem_details =
  pd_kind :: string
  pd_title :: string
  pd_status :: nat
  pd_errors :: "validation_issue list"

record error_response =
  er_status :: nat
  er_body :: problem_details
  er_content_type :: string
  er_retry_after :: "string option"

definition into_response :: "api_error \<Rightarrow> error_response" where
  "into_response e =
     (let title = (case e of Internal cause \<Rightarrow> ''an internal error occurred''
                   | other \<Rightarrow> api_error_to_string other);
          errors = (case e of Unprocessable issues \<Rightarrow> issues | _ \<Rightarrow> [])
      in \<lparr>er_status = status e,
          er_body = \<lparr>pd_kind = kind e, pd_title = title, pd_status = status e, pd_errors = errors\<rparr>,
          er_content_type = ''application/problem+json'',
          er_retry_after = (case e of RateLimited secs \<Rightarrow> Some (show_nat (unat secs)) | _ \<Rightarrow> None)\<rparr>)"

section \<open>Storage errors\<close>

fun join :: "string \<Rightarrow> string list \<Rightarrow> string" where
  "join sep [] = []"
| "join sep [x] = x"
| "join sep (x # xs) = x @ sep @ join sep xs"

fun storage_error_to_string :: "storage_error \<Rightarrow> string" where
  "storage_error_to_string (NotFound entity) = entity @ '' not found''"
| "storage_error_to_string (Conflict entity key) = entity @ '' '' @ quoted key @ '' already exists''"
| "storage_error_to_string (VersionConflict entity expected) =
     entity @ '' was modified by someone else (you were working from version '' @ show_int expected @ '')''"
| "storage_error_to_string (Invalid entity) = entity @ '' failed a database constraint''"
| "storage_error_to_string (InUse entity key referenced_by) =
     entity @ '' '' @ quoted key @ '' is still referenced by '' @ join '', '' referenced_by"
| "storage_error_to_string (WrongState entity key actual needed) =
     entity @ '' '' @ quoted key @ '' is '' @ actual @ ''; this operation needs it '' @ needed"
| "storage_error_to_string (MalformedRow entity source) = ''stored '' @ entity @ '' is malformed: '' @ source"
| "storage_error_to_string (Database e) = e"

definition from_storage :: "storage_error \<Rightarrow> api_error" where
  "from_storage e =
     (case e of
        NotFound entity \<Rightarrow> ApiNotFound entity
      | Conflict entity key \<Rightarrow> ApiConflict (entity @ '' '' @ quoted key @ '' already exists'')
      | VersionConflict entity expected \<Rightarrow> ApiConflict (storage_error_to_string e)
      | InUse entity key referenced_by \<Rightarrow> ApiConflict (storage_error_to_string e)
      | WrongState entity key actual needed \<Rightarrow> ApiConflict (storage_error_to_string e)
      | Invalid entity \<Rightarrow> BadRequest (entity @ '' failed a database constraint'')
      | MalformedRow entity source \<Rightarrow> Internal (storage_error_to_string e)
      | Database cause \<Rightarrow> Internal (storage_error_to_string e))"

lemmas error_defs [model_defs] = into_response_def from_storage_def

section \<open>What a client can rely on\<close>

lemma status_kind: "status e = status e' \<longleftrightarrow> kind e = kind e'"
  by (cases e; cases e') simp_all

lemma from_storage_never_422 [simp]: "from_storage e \<noteq> Unprocessable issues" "from_storage e \<noteq> RateLimited n"
    "from_storage e \<noteq> Forbidden m" "from_storage e \<noteq> ApiUnauthorized m"
  by (simp_all add: from_storage_def split: storage_error.splits)

text \<open>
  The error contract: the body repeats the status of the response and its type identifies
  the status; field-level problems appear for failed validation only and are complete there;
  the retry header appears for throttling only; and the response to an internal error is the
  same whatever its cause, so nothing of the cause leaks. A storage error becomes an internal
  error exactly when the server is at fault, that is, for a malformed row or a failure of the
  database.
\<close>

theorem error_contract:
  "pd_status (er_body (into_response e)) = er_status (into_response e) \<and>
   (pd_kind (er_body (into_response e)) = pd_kind (er_body (into_response e')) \<longleftrightarrow>
      er_status (into_response e) = er_status (into_response e')) \<and>
   (pd_errors (er_body (into_response e)) = (case e of Unprocessable issues \<Rightarrow> issues | _ \<Rightarrow> [])) \<and>
   (er_retry_after (into_response e) \<noteq> None \<longleftrightarrow> er_status (into_response e) = 429) \<and>
   into_response (Internal cause) = into_response (Internal cause') \<and>
   (er_status (into_response (from_storage s)) = 500 \<longleftrightarrow>
      (\<exists>m src. s = MalformedRow m src) \<or> (\<exists>m. s = Database m))"
proof -
  have "status (from_storage s) = 500 \<longleftrightarrow> (\<exists>m src. s = MalformedRow m src) \<or> (\<exists>m. s = Database m)"
    by (cases s) (simp_all add: from_storage_def)
  moreover have "status e = 429 \<longleftrightarrow> (\<exists>n. e = RateLimited n)" by (cases e) simp_all
  moreover have "er_retry_after (into_response e) \<noteq> None \<longleftrightarrow> (\<exists>n. e = RateLimited n)"
    by (cases e) (simp_all add: into_response_def)
  ultimately show ?thesis using status_kind [of e e'] by (auto simp: into_response_def)
qed

end
