(* ===== verification/Storage_Flags.thy ===== *)
theory Storage_Flags
  imports Storage_Db "HOL-Library.Product_Lexorder"
begin

text \<open>
  \<^verbatim>\<open>crates/storage/src/projects.rs\<close> and \<^verbatim>\<open>flags.rs\<close>: projects, environments, flags and their
  configuration per environment. Lists that the code orders by a text column are ordered by
  the byte order of the column.
\<close>

section \<open>Projects\<close>

definition create_project ::
  "uuid \<Rightarrow> int \<Rightarrow> uuid \<Rightarrow> string \<Rightarrow> string \<Rightarrow> string option \<Rightarrow> db \<Rightarrow> storage_error + project \<times> db" where
  "create_project new_id now organization_id key name description d =
     (let row = \<lparr>prj_id = new_id, prj_organization_id = organization_id, prj_key = key,
                 prj_name = name, prj_description = description, prj_created_at = now\<rparr>
      in map_err (\<lambda>e. from_write e ''project'' key)
        (and_then (constraints (is_valid_key key \<and> check_name name)
             (new_id \<notin> prj_id ` set (db_projects d) \<and>
              (organization_id, key) \<notin>
                (\<lambda>p. (prj_organization_id p, prj_key p)) ` set (db_projects d))
             (organization_id \<in> org_id ` set (db_organizations d)))
           (\<lambda>_. Inr (row, d\<lparr>db_projects := db_projects d @ [row]\<rparr>))))"

definition list_projects :: "uuid \<Rightarrow> db \<Rightarrow> project list" where
  "list_projects organization_id d =
     sort_key prj_key (filter (\<lambda>p. prj_organization_id p = organization_id) (db_projects d))"

definition find_project :: "uuid \<Rightarrow> string \<Rightarrow> db \<Rightarrow> storage_error + project" where
  "find_project organization_id key d =
     or_not_found
       (find (\<lambda>p. prj_organization_id p = organization_id \<and> prj_key p = key) (db_projects d)) ''project''"

text \<open>
  Deleting a project cascades to its environments first and then to its flags; an experiment
  of another project's environment that references one of the flags makes the statement fail.
\<close>

definition delete_project :: "uuid \<Rightarrow> string \<Rightarrow> db \<Rightarrow> storage_error + db" where
  "delete_project organization_id key d =
     (let gone = (\<lambda>p. prj_organization_id p = organization_id \<and> prj_key p = key);
          ids = prj_id ` set (filter gone (db_projects d))
      in if \<not> list_ex gone (db_projects d) then Inl (NotFound ''project'')
         else map_err (\<lambda>e. Database (sql_error_text e))
           (and_then (cascade_flags (\<lambda>f. fl_project_id f \<in> ids)
               (cascade_environments (\<lambda>e. en_project_id e \<in> ids) d))
             (\<lambda>d'. Inr (d'\<lparr>db_projects := filter (\<lambda>p. \<not> gone p) (db_projects d')\<rparr>))))"

section \<open>Environments\<close>

text \<open>The configuration of the oldest environment that has one for the flag.\<close>

definition reference_config :: "uuid \<Rightarrow> db \<Rightarrow> flag_config option" where
  "reference_config flag_id d =
     (case sort_key (\<lambda>(e, c). (en_created_at e, en_id e))
            (filter (\<lambda>(e, c). fc_flag_id c = flag_id \<and> fc_environment_id c = en_id e)
               (List.product (db_environments d) (db_configs d))) of
        [] \<Rightarrow> None
      | (e, c) # _ \<Rightarrow> Some c)"

text \<open>The variant named \<^verbatim>\<open>off\<close>, or the first one.\<close>

definition default_variant :: "variant list \<Rightarrow> string option" where
  "default_variant vs =
     (case find (\<lambda>v. variant_key v = ''off'') vs of
        Some v \<Rightarrow> Some (variant_key v)
      | None \<Rightarrow> (case vs of [] \<Rightarrow> None | v # _ \<Rightarrow> Some (variant_key v)))"

text \<open>The row the seeding query selects for a flag; \<^const>\<open>None\<close> when a required column is null.\<close>

definition seeded_config :: "uuid \<Rightarrow> int \<Rightarrow> db \<Rightarrow> flag_row \<Rightarrow> flag_config option" where
  "seeded_config environment_id now d f =
     (let seed = (\<lambda>off fallthrough.
        \<lparr>fc_flag_id = fl_id f, fc_environment_id = environment_id, fc_enabled = False,
         fc_off_variant = off, fc_fallthrough = fallthrough, fc_rules = [], fc_version = 1,
         fc_updated_at = now\<rparr>)
      in case reference_config (fl_id f) d of
           Some c \<Rightarrow> Some (seed (fc_off_variant c) (fc_fallthrough c))
         | None \<Rightarrow> map_option (\<lambda>v. seed v (Fixed v)) (default_variant (fl_variants f)))"

definition create_environment ::
  "uuid \<Rightarrow> int \<Rightarrow> uuid \<Rightarrow> string \<Rightarrow> string \<Rightarrow> string \<Rightarrow> bool \<Rightarrow> db \<Rightarrow>
     storage_error + environment \<times> db" where
  "create_environment new_id now project_id key name salt is_production d =
     (let row = \<lparr>en_id = new_id, en_project_id = project_id, en_key = key, en_name = name,
                 en_is_production = is_production, en_created_at = now, en_salt = salt\<rparr>
      in and_then
        (map_err (\<lambda>e. from_write e ''environment'' key)
          (and_then (constraints (is_valid_key key \<and> check_name name)
               (new_id \<notin> en_id ` set (db_environments d) \<and>
                (project_id, key) \<notin> (\<lambda>e. (en_project_id e, en_key e)) ` set (db_environments d))
               (project_id \<in> prj_id ` set (db_projects d)))
             (\<lambda>_. Inr (d\<lparr>db_environments := db_environments d @ [row]\<rparr>))))
        (\<lambda>d'. case those (map (seeded_config new_id now d')
                  (filter (\<lambda>f. fl_project_id f = project_id) (db_flags d'))) of
            None \<Rightarrow> Inl (Database ''23502'')
          | Some configs \<Rightarrow>
              Inr (row, notify (map fc_environment_id configs)
                          (d'\<lparr>db_configs := db_configs d' @ configs\<rparr>))))"

definition list_environments :: "uuid \<Rightarrow> db \<Rightarrow> environment list" where
  "list_environments project_id d =
     sort_key (\<lambda>e. (en_is_production e, en_key e)) (environments_of project_id d)"

definition find_environment :: "uuid \<Rightarrow> string \<Rightarrow> db \<Rightarrow> storage_error + environment" where
  "find_environment project_id key d =
     or_not_found
       (find (\<lambda>e. en_project_id e = project_id \<and> en_key e = key) (db_environments d)) ''environment''"

definition delete_environment :: "uuid \<Rightarrow> string \<Rightarrow> db \<Rightarrow> storage_error + db" where
  "delete_environment project_id key d =
     (let gone = (\<lambda>e. en_project_id e = project_id \<and> en_key e = key)
      in if \<not> list_ex gone (db_environments d) then Inl (NotFound ''environment'')
         else Inr (cascade_environments gone d))"

section \<open>Flags\<close>

definition create_flag ::
  "uuid \<Rightarrow> int \<Rightarrow> uuid \<Rightarrow> string \<Rightarrow> string \<Rightarrow> string option \<Rightarrow> variant list \<Rightarrow> string \<Rightarrow>
     distribution \<Rightarrow> db \<Rightarrow> storage_error + flag_row \<times> db" where
  "create_flag new_id now project_id key name description variants off_variant fallthrough d =
     (let row = \<lparr>fl_id = new_id, fl_project_id = project_id, fl_key = key, fl_name = name,
                 fl_description = description, fl_variants = variants, fl_archived = False,
                 fl_created_at = now, fl_updated_at = now\<rparr>;
          envs = map en_id (environments_of project_id d);
          configs = map (\<lambda>e. \<lparr>fc_flag_id = new_id, fc_environment_id = e, fc_enabled = False,
            fc_off_variant = off_variant, fc_fallthrough = fallthrough, fc_rules = [],
            fc_version = 1, fc_updated_at = now\<rparr>) envs
      in map_err (\<lambda>e. from_write e ''flag'' key)
        (and_then (constraints (is_valid_key key \<and> check_name name)
             (new_id \<notin> fl_id ` set (db_flags d) \<and>
              (project_id, key) \<notin> (\<lambda>f. (fl_project_id f, fl_key f)) ` set (db_flags d))
             (project_id \<in> prj_id ` set (db_projects d)))
           (\<lambda>_. Inr (row, notify (envs @ envs)
              (d\<lparr>db_flags := db_flags d @ [row], db_configs := db_configs d @ configs\<rparr>)))))"

definition list_flags :: "uuid \<Rightarrow> bool \<Rightarrow> db \<Rightarrow> flag_row list" where
  "list_flags project_id include_archived d =
     sort_key fl_key
       (filter (\<lambda>f. fl_project_id f = project_id \<and> (include_archived \<or> \<not> fl_archived f)) (db_flags d))"

definition find_flag :: "uuid \<Rightarrow> string \<Rightarrow> db \<Rightarrow> storage_error + flag_row" where
  "find_flag project_id key d =
     or_not_found (find (\<lambda>f. fl_project_id f = project_id \<and> fl_key f = key) (db_flags d)) ''flag''"

text \<open>A partial update: \<^const>\<open>None\<close> leaves a column, for the description \<open>Some None\<close> clears it.\<close>

definition updated_flag ::
  "int \<Rightarrow> string option \<Rightarrow> string option option \<Rightarrow> variant list option \<Rightarrow> bool option \<Rightarrow> flag_row \<Rightarrow>
     flag_row" where
  "updated_flag now name description variants archived f =
     f\<lparr>fl_name := unwrap_or name (fl_name f),
       fl_description := unwrap_or description (fl_description f),
       fl_variants := unwrap_or variants (fl_variants f),
       fl_archived := unwrap_or archived (fl_archived f), fl_updated_at := now\<rparr>"

definition update_flag ::
  "('re, 'ver) externals \<Rightarrow> int \<Rightarrow> uuid \<Rightarrow> string option \<Rightarrow> string option option \<Rightarrow>
     variant list option \<Rightarrow> bool option \<Rightarrow> db \<Rightarrow> storage_error + flag_row \<times> db" where
  "update_flag X now flag_id name description variants archived d =
     (case find (\<lambda>f. fl_id f = flag_id) (db_flags d) of
        None \<Rightarrow> Inl (NotFound ''flag'')
      | Some f \<Rightarrow>
          (let f' = updated_flag now name description variants archived f
           in map_err (\<lambda>e. from_write e ''flag'' (uuid_to_string X flag_id))
             (and_then (constraints (check_name (fl_name f')) True True)
               (\<lambda>_. Inr (f', notify (map en_id (environments_of (fl_project_id f) d))
                  (d\<lparr>db_flags := map (\<lambda>g. if fl_id g = flag_id then f' else g) (db_flags d)\<rparr>))))))"

text \<open>The experiments that reference a flag, as \<^verbatim>\<open>environment/experiment\<close>.\<close>

definition experiments_referencing_flag :: "uuid \<Rightarrow> db \<Rightarrow> string list" where
  "experiments_referencing_flag flag_id d =
     map (\<lambda>(e, x). en_key e @ ''/'' @ ex_key x)
       (sort_key (\<lambda>(e, x). (en_key e, ex_key x))
         (filter (\<lambda>(e, x). en_id e = ex_environment_id x \<and> ex_flag_id x = flag_id)
            (List.product (db_environments d) (db_experiments d))))"

definition delete_flag :: "uuid \<Rightarrow> string \<Rightarrow> db \<Rightarrow> storage_error + db" where
  "delete_flag project_id key d =
     and_then (find_flag project_id key d)
       (\<lambda>flag. let referencing = experiments_referencing_flag (fl_id flag) d in
          if referencing \<noteq> [] then Inl (InUse ''flag'' key referencing)
          else
            let gone = (\<lambda>f. fl_project_id f = project_id \<and> fl_key f = key) in
            if \<not> list_ex gone (db_flags d) then Inl (NotFound ''flag'')
            else map_err (\<lambda>e. Database (sql_error_text e)) (cascade_flags gone d))"

section \<open>Configurations\<close>

definition find_config :: "uuid \<Rightarrow> uuid \<Rightarrow> db \<Rightarrow> storage_error + flag_config" where
  "find_config flag_id environment_id d =
     or_not_found
       (find (\<lambda>c. fc_flag_id c = flag_id \<and> fc_environment_id c = environment_id) (db_configs d))
       ''flag configuration''"

text \<open>
  The upsert: an insert when the pair has no row, otherwise an update guarded by the expected
  version, on which the trigger increments the version. No row comes back when the guard fails.
\<close>

definition upsert_config ::
  "('re, 'ver) externals \<Rightarrow> int \<Rightarrow> uuid \<Rightarrow> uuid \<Rightarrow> bool \<Rightarrow> string \<Rightarrow> distribution \<Rightarrow> rule list \<Rightarrow>
     int option \<Rightarrow> db \<Rightarrow> storage_error + flag_config \<times> db" where
  "upsert_config X now flag_id environment_id enabled off_variant fallthrough rules expected d =
     (let here = (\<lambda>c. fc_flag_id c = flag_id \<and> fc_environment_id c = environment_id) in
      case find here (db_configs d) of
        None \<Rightarrow>
          (let row = \<lparr>fc_flag_id = flag_id, fc_environment_id = environment_id, fc_enabled = enabled,
                      fc_off_variant = off_variant, fc_fallthrough = fallthrough, fc_rules = rules,
                      fc_version = 1, fc_updated_at = now\<rparr>
           in map_err (\<lambda>e. from_write e ''flag configuration'' (uuid_to_string X flag_id))
             (and_then (constraints True True
                 (flag_id \<in> fl_id ` set (db_flags d) \<and> environment_id \<in> en_id ` set (db_environments d)))
               (\<lambda>_. Inr (row, notify [environment_id] (d\<lparr>db_configs := db_configs d @ [row]\<rparr>)))))
      | Some c \<Rightarrow>
          if expected = None \<or> expected = Some (fc_version c) then
            let row = c\<lparr>fc_enabled := enabled, fc_off_variant := off_variant,
                        fc_fallthrough := fallthrough, fc_rules := rules,
                        fc_version := fc_version c + 1, fc_updated_at := now\<rparr>
            in Inr (row, notify [environment_id]
                 (d\<lparr>db_configs := map (\<lambda>b. if here b then row else b) (db_configs d)\<rparr>))
          else Inl (VersionConflict ''flag configuration'' (unwrap_or expected 0)))"

definition list_configured ::
  "uuid \<Rightarrow> uuid \<Rightarrow> bool \<Rightarrow> db \<Rightarrow> (flag_row \<times> flag_config) list" where
  "list_configured project_id environment_id include_archived d =
     sort_key (\<lambda>(f, c). fl_key f)
       (filter (\<lambda>(f, c). fc_flag_id c = fl_id f \<and> fl_project_id f = project_id \<and>
            fc_environment_id c = environment_id \<and> (include_archived \<or> \<not> fl_archived f))
          (List.product (db_flags d) (db_configs d)))"

text \<open>The join behind snapshot loading.\<close>

definition load_environment_flags :: "uuid \<Rightarrow> db \<Rightarrow> (flag_row \<times> flag_config) list" where
  "load_environment_flags environment_id d =
     sort_key (\<lambda>(f, c). fl_key f)
       (filter (\<lambda>(f, c). fl_id f = fc_flag_id c \<and> fc_environment_id c = environment_id \<and>
            \<not> fl_archived f)
          (List.product (db_flags d) (db_configs d)))"

lemmas storage_flags_defs [model_defs] =
  create_project_def find_project_def delete_project_def reference_config_def default_variant_def
  seeded_config_def create_environment_def find_environment_def delete_environment_def
  create_flag_def find_flag_def updated_flag_def update_flag_def delete_flag_def find_config_def
  upsert_config_def

section \<open>Every operation keeps the invariant\<close>

lemma create_project_inv:
  assumes "db_inv d" and "create_project i now org key name desc d = Inr (p, d')"
  shows "db_inv d'"
proof -
  have "i \<notin> prj_id ` set (db_projects d)"
    and "(org, key) \<notin> (\<lambda>p. (prj_organization_id p, prj_key p)) ` set (db_projects d)"
    and d': "d' = d\<lparr>db_projects := db_projects d @ [p]\<rparr>"
    and p: "prj_id p = i" "prj_organization_id p = org" "prj_key p = key"
    using assms(2) by (auto simp: create_project_def Let_def and_then_Inr)
  then have "keys_unique d'" using db_invD(1) [OF assms(1)] by (simp add: keys_unique_def)
  moreover have "references_hold d'"
    using references_holdD [OF db_invD(2) [OF assms(1)]] unfolding references_hold_def Let_def d'
    by (auto simp del: image_subset_iff)
  moreover have "configured_everywhere d'"
    using db_invD(3) [OF assms(1)] by (simp add: d' configured_everywhere_def)
  ultimately show ?thesis by (simp add: db_inv_def)
qed

lemma those_map_set:
  "those (map f xs) = Some ys \<Longrightarrow> (\<forall>x \<in> set xs. \<exists>y \<in> set ys. f x = Some y) \<and>
     (\<forall>y \<in> set ys. \<exists>x \<in> set xs. f x = Some y) \<and> length ys = length xs"
  by (induction xs arbitrary: ys) (auto split: option.splits simp: map_option_case)

lemma those_map_distinct:
  assumes "those (map f xs) = Some ys" and "\<And>x y. f x = Some y \<Longrightarrow> h y = g x"
  shows "map h ys = map g xs"
  using assms(1)
  by (induction xs arbitrary: ys) (auto split: option.splits simp: assms(2))

lemma seeded_config_keys:
  "seeded_config e now d f = Some c \<Longrightarrow> (fc_flag_id c, fc_environment_id c) = (fl_id f, e)"
  by (auto simp: seeded_config_def Let_def split: option.splits)

lemma create_environment_cases:
  assumes "create_environment i now prj key name salt isp d = Inr (e, d')"
  obtains configs where
    "i \<notin> en_id ` set (db_environments d)"
    "(prj, key) \<notin> (\<lambda>e. (en_project_id e, en_key e)) ` set (db_environments d)"
    "prj \<in> prj_id ` set (db_projects d)"
    "en_id e = i" "en_project_id e = prj" "en_key e = key"
    "map (\<lambda>c. (fc_flag_id c, fc_environment_id c)) configs =
       map (\<lambda>f. (fl_id f, i)) (filter (\<lambda>f. fl_project_id f = prj) (db_flags d))"
    "d' = notify (map fc_environment_id configs)
       (d\<lparr>db_environments := db_environments d @ [e], db_configs := db_configs d @ configs\<rparr>)"
proof -
  let ?d = "d\<lparr>db_environments := db_environments d @ [e]\<rparr>"
  from assms obtain configs where
    c: "those (map (seeded_config i now ?d) (filter (\<lambda>f. fl_project_id f = prj) (db_flags d))) = Some configs"
    and rest: "i \<notin> en_id ` set (db_environments d)"
      "(prj, key) \<notin> (\<lambda>e. (en_project_id e, en_key e)) ` set (db_environments d)"
      "prj \<in> prj_id ` set (db_projects d)" "en_id e = i" "en_project_id e = prj" "en_key e = key"
      "d' = notify (map fc_environment_id configs)
         (d\<lparr>db_environments := db_environments d @ [e], db_configs := db_configs d @ configs\<rparr>)"
    by (auto simp: create_environment_def Let_def and_then_Inr split: option.splits)
  have "map (\<lambda>c. (fc_flag_id c, fc_environment_id c)) configs =
       map (\<lambda>f. (fl_id f, i)) (filter (\<lambda>f. fl_project_id f = prj) (db_flags d))"
    by (rule those_map_distinct [OF c]) (rule seeded_config_keys)
  with rest that show thesis by blast
qed

lemma create_environment_inv:
  assumes "db_inv d" and "create_environment i now prj key name salt isp d = Inr (e, d')"
  shows "db_inv d'"
proof -
  note r = references_holdD [OF db_invD(2) [OF assms(1)]]
  from assms(2) obtain configs where new: "i \<notin> en_id ` set (db_environments d)"
    and key: "(prj, key) \<notin> (\<lambda>e. (en_project_id e, en_key e)) ` set (db_environments d)"
    and prj: "prj \<in> prj_id ` set (db_projects d)"
    and e: "en_id e = i" "en_project_id e = prj" "en_key e = key"
    and configs: "map (\<lambda>c. (fc_flag_id c, fc_environment_id c)) configs =
       map (\<lambda>f. (fl_id f, i)) (filter (\<lambda>f. fl_project_id f = prj) (db_flags d))"
    and d': "d' = notify (map fc_environment_id configs)
       (d\<lparr>db_environments := db_environments d @ [e], db_configs := db_configs d @ configs\<rparr>)"
    by (rule create_environment_cases)
  have keys: "(\<lambda>c. (fc_flag_id c, fc_environment_id c)) ` set configs =
      (\<lambda>f. (fl_id f, i)) ` set (filter (\<lambda>f. fl_project_id f = prj) (db_flags d))"
    using arg_cong [OF configs, of set] by (simp only: set_map)
  have old: "fc_environment_id c \<noteq> i" if "c \<in> set (db_configs d)" for c
    using that r(4) new by auto
  have "distinct (map (\<lambda>c. (fc_flag_id c, fc_environment_id c)) configs)"
    unfolding configs using db_invD(1) [OF assms(1)]
    by (auto simp: keys_unique_def distinct_map inj_on_def)
  moreover have "(\<lambda>c. (fc_flag_id c, fc_environment_id c)) ` set (db_configs d) \<inter>
      (\<lambda>c. (fc_flag_id c, fc_environment_id c)) ` set configs = {}"
    unfolding keys using old by force
  ultimately have "keys_unique d'"
    using db_invD(1) [OF assms(1)] new key e by (simp add: d' keys_unique_def)
  moreover have "references_hold d'"
  proof -
    have "fc_flag_id c \<in> fl_id ` set (db_flags d) \<and> fc_environment_id c = i" if "c \<in> set configs" for c
    proof -
      have "(fc_flag_id c, fc_environment_id c) \<in>
          (\<lambda>f. (fl_id f, i)) ` set (filter (\<lambda>f. fl_project_id f = prj) (db_flags d))"
        using that by (simp only: keys [symmetric] image_eqI)
      then show ?thesis by auto
    qed
    then show ?thesis
      unfolding references_hold_def Let_def d' using r prj e by (auto simp: subset_insertI2)
  qed
  moreover have "configured_everywhere d'"
    unfolding configured_everywhere_def
  proof (intro ballI impI)
    fix f e'
    assume f: "f \<in> set (db_flags d')" and e': "e' \<in> set (db_environments d')"
      and same: "fl_project_id f = en_project_id e'"
    show "\<exists>c \<in> set (db_configs d'). fc_flag_id c = fl_id f \<and> fc_environment_id c = en_id e'"
    proof (cases "e' = e")
      case True
      then have "(fl_id f, i) \<in> (\<lambda>c. (fc_flag_id c, fc_environment_id c)) ` set configs"
        unfolding keys using f same e by (auto simp: d')
      with True e show ?thesis by (auto simp: d')
    next
      case False
      then show ?thesis
        using f e' same db_invD(3) [OF assms(1)] by (auto simp: d' configured_everywhere_def)
    qed
  qed
  ultimately show ?thesis by (simp add: db_inv_def)
qed

lemma create_flag_inv:
  assumes "db_inv d" and "create_flag i now prj key name desc vs off ft d = Inr (f, d')"
  shows "db_inv d'"
proof -
  note r = references_holdD [OF db_invD(2) [OF assms(1)]]
  let ?mk = "\<lambda>e. \<lparr>fc_flag_id = i, fc_environment_id = e, fc_enabled = False, fc_off_variant = off,
      fc_fallthrough = ft, fc_rules = [], fc_version = 1, fc_updated_at = now\<rparr>"
  let ?configs = "map ?mk (map en_id (environments_of prj d))"
  have new: "i \<notin> fl_id ` set (db_flags d)"
    and key: "(prj, key) \<notin> (\<lambda>f. (fl_project_id f, fl_key f)) ` set (db_flags d)"
    and prj: "prj \<in> prj_id ` set (db_projects d)"
    and f: "fl_id f = i" "fl_project_id f = prj" "fl_key f = key"
    and d': "\<exists>es. d' = notify es
      (d\<lparr>db_flags := db_flags d @ [f], db_configs := db_configs d @ ?configs\<rparr>)"
    using assms(2) by (auto simp: create_flag_def Let_def and_then_Inr)
  from d' obtain es where d': "d' = notify es
      (d\<lparr>db_flags := db_flags d @ [f], db_configs := db_configs d @ ?configs\<rparr>)" by blast
  have old: "fc_flag_id c \<noteq> i" if "c \<in> set (db_configs d)" for c
    using that r(3) new by auto
  have "distinct (map en_id (environments_of prj d))"
    using db_invD(1) [OF assms(1)] by (simp add: keys_unique_def environments_of_def distinct_map_filter)
  then have "distinct (map (\<lambda>c. (fc_flag_id c, fc_environment_id c)) ?configs)"
    by (auto simp: distinct_map inj_on_def)
  moreover have "(\<lambda>c. (fc_flag_id c, fc_environment_id c)) ` set (db_configs d) \<inter>
      (\<lambda>c. (fc_flag_id c, fc_environment_id c)) ` set ?configs = {}"
    using old by force
  ultimately have "distinct (map (\<lambda>c. (fc_flag_id c, fc_environment_id c)) (db_configs d @ ?configs))"
    using db_invD(1) [OF assms(1)] by (simp only: keys_unique_def map_append distinct_append set_map)
  then have "keys_unique d'"
    using db_invD(1) [OF assms(1)] new key f by (simp add: d' keys_unique_def)
  moreover have "references_hold d'"
    unfolding references_hold_def Let_def d' using r prj f
    by (auto simp: environments_of_def subset_insertI2)
  moreover have "configured_everywhere d'"
    unfolding configured_everywhere_def
  proof (intro ballI impI)
    fix f' e
    assume f': "f' \<in> set (db_flags d')" and e: "e \<in> set (db_environments d')"
      and same: "fl_project_id f' = en_project_id e"
    show "\<exists>c \<in> set (db_configs d'). fc_flag_id c = fl_id f' \<and> fc_environment_id c = en_id e"
    proof (cases "f' = f")
      case True
      with e same f have "?mk (en_id e) \<in> set (db_configs d')"
        by (auto simp: d' environments_of_def)
      with True f show ?thesis by (intro bexI [of _ "?mk (en_id e)"]) simp_all
    next
      case False
      then have "f' \<in> set (db_flags d)" and "e \<in> set (db_environments d)"
        using f' e by (simp_all add: d')
      with same obtain c where "c \<in> set (db_configs d)"
        and "fc_flag_id c = fl_id f' \<and> fc_environment_id c = en_id e"
        using db_invD(3) [OF assms(1)] unfolding configured_everywhere_def by blast
      then show ?thesis by (intro bexI [of _ c]) (simp_all add: d')
    qed
  qed
  ultimately show ?thesis by (simp add: db_inv_def)
qed

lemma update_flag_inv:
  assumes "db_inv d" and "update_flag X now i name desc vs arch d = Inr (f, d')"
  shows "db_inv d'"
proof -
  obtain g es where g: "find (\<lambda>f. fl_id f = i) (db_flags d) = Some g"
    and f: "f = updated_flag now name desc vs arch g"
    and d': "d' = notify es (d\<lparr>db_flags := map (\<lambda>h. if fl_id h = i then f else h) (db_flags d)\<rparr>)"
    using assms(2) by (auto simp: update_flag_def Let_def and_then_Inr split: option.splits)
  have "h = g" if "h \<in> set (db_flags d)" "fl_id h = i" for h
  proof -
    have "g \<in> set (db_flags d)" "fl_id g = i" using g by (auto simp: find_Some_iff)
    with that show ?thesis
      using db_invD(1) [OF assms(1)] by (auto simp: keys_unique_def distinct_map dest: inj_onD)
  qed
  then have "same_keys d d'"
    using references_holdD(8) [OF db_invD(2) [OF assms(1)]]
    by (auto simp: same_keys_def d' f updated_flag_def)
  then show ?thesis using assms(1) by (rule same_keys_inv)
qed

lemma delete_flag_inv:
  "db_inv d \<Longrightarrow> delete_flag prj key d = Inr d' \<Longrightarrow> db_inv d'"
  by (auto simp: delete_flag_def and_then_Inr Let_def split: if_splits intro: cascade_flags_inv)

lemma delete_environment_inv:
  "db_inv d \<Longrightarrow> delete_environment prj key d = Inr d' \<Longrightarrow> db_inv d'"
  by (auto simp: delete_environment_def Let_def split: if_splits intro: cascade_environments_inv)

lemma drop_projects_inv:
  assumes "db_inv d"
    and "en_project_id ` set (db_environments d) \<subseteq> prj_id ` set (filter P (db_projects d))"
    and "fl_project_id ` set (db_flags d) \<subseteq> prj_id ` set (filter P (db_projects d))"
  shows "db_inv (d\<lparr>db_projects := filter P (db_projects d)\<rparr>)"
proof -
  note r = references_holdD [OF db_invD(2) [OF assms(1)]]
  have "keys_unique (d\<lparr>db_projects := filter P (db_projects d)\<rparr>)"
    using db_invD(1) [OF assms(1)] by (simp add: keys_unique_def distinct_map_filter)
  moreover have "references_hold (d\<lparr>db_projects := filter P (db_projects d)\<rparr>)"
    using assms(2,3) r by (simp add: references_hold_def)
  moreover have "configured_everywhere (d\<lparr>db_projects := filter P (db_projects d)\<rparr>)"
    using db_invD(3) [OF assms(1)] by (simp add: configured_everywhere_def)
  ultimately show ?thesis by (simp add: db_inv_def)
qed

lemma delete_project_inv:
  assumes "db_inv d" and "delete_project org key d = Inr d'"
  shows "db_inv d'"
proof -
  let ?gone = "\<lambda>p. prj_organization_id p = org \<and> prj_key p = key"
  let ?ids = "prj_id ` set (filter ?gone (db_projects d))"
  let ?d1 = "cascade_environments (\<lambda>e. en_project_id e \<in> ?ids) d"
  from assms(2) obtain d2 where d2: "cascade_flags (\<lambda>f. fl_project_id f \<in> ?ids) ?d1 = Inr d2"
    and d': "d' = d2\<lparr>db_projects := filter (\<lambda>p. \<not> ?gone p) (db_projects d2)\<rparr>"
    by (auto simp: delete_project_def Let_def and_then_Inr split: if_splits)
  have inv: "db_inv d2"
    by (rule cascade_flags_inv [OF cascade_environments_inv [OF assms(1)] d2])
  obtain es where eq: "d2 = notify es (?d1\<lparr>db_flags := filter (\<lambda>f. fl_project_id f \<notin> ?ids) (db_flags ?d1),
      db_configs := filter (\<lambda>c. fc_flag_id c \<notin> fl_id ` set (filter (\<lambda>f. fl_project_id f \<in> ?ids) (db_flags ?d1)))
        (db_configs ?d1)\<rparr>)"
    using cascade_flags_eq(1) [OF d2] by blast
  have p: "db_projects d2 = db_projects d"
    and e: "db_environments d2 = filter (\<lambda>e. en_project_id e \<notin> ?ids) (db_environments d)"
    and f: "db_flags d2 = filter (\<lambda>f. fl_project_id f \<notin> ?ids) (db_flags d)"
    by (simp_all add: eq cascade_environments_tables)
  note r = references_holdD [OF db_invD(2) [OF assms(1)]]
  show ?thesis
    unfolding d'
  proof (rule drop_projects_inv [OF inv])
    show "en_project_id ` set (db_environments d2) \<subseteq> prj_id ` set (filter (\<lambda>p. \<not> ?gone p) (db_projects d2))"
      unfolding p e by (rule image_filter_kept [OF r(1)])
    show "fl_project_id ` set (db_flags d2) \<subseteq> prj_id ` set (filter (\<lambda>p. \<not> ?gone p) (db_projects d2))"
      unfolding p f by (rule image_filter_kept [OF r(2)])
  qed
qed

lemma find_config_unique:
  assumes "keys_unique d" and "c \<in> set (db_configs d)" and "b \<in> set (db_configs d)"
    and "fc_flag_id b = fc_flag_id c" and "fc_environment_id b = fc_environment_id c"
  shows "b = c"
  using assms by (auto simp: keys_unique_def distinct_map dest: inj_onD)

lemma upsert_config_inv:
  assumes "db_inv d" and "upsert_config X now fid eid en off ft rules expected d = Inr (c, d')"
  shows "db_inv d'"
proof (cases "find (\<lambda>c. fc_flag_id c = fid \<and> fc_environment_id c = eid) (db_configs d)")
  case None
  then have fresh: "\<forall>b \<in> set (db_configs d). (fc_flag_id b, fc_environment_id b) \<noteq> (fid, eid)"
    by (auto simp: find_None_iff)
  have new: "fid \<in> fl_id ` set (db_flags d)" "eid \<in> en_id ` set (db_environments d)"
    "fc_flag_id c = fid" "fc_environment_id c = eid"
    and d': "d' = notify [eid] (d\<lparr>db_configs := db_configs d @ [c]\<rparr>)"
    using assms(2) None by (auto simp: upsert_config_def Let_def and_then_Inr)
  note r = references_holdD [OF db_invD(2) [OF assms(1)]]
  have "keys_unique d'"
    using db_invD(1) [OF assms(1)] fresh new by (auto simp: d' keys_unique_def)
  moreover have "references_hold d'" using r new by (auto simp: d' references_hold_def)
  moreover have "configured_everywhere d'"
    using db_invD(3) [OF assms(1)] by (fastforce simp: d' configured_everywhere_def)
  ultimately show ?thesis by (simp add: db_inv_def)
next
  case (Some b)
  then have b: "b \<in> set (db_configs d)" "fc_flag_id b = fid" "fc_environment_id b = eid"
    by (auto simp: find_Some_iff)
  have "fc_flag_id c = fid" "fc_environment_id c = eid"
    and d': "d' = notify [eid] (d\<lparr>db_configs :=
      map (\<lambda>b. if fc_flag_id b = fid \<and> fc_environment_id b = eid then c else b) (db_configs d)\<rparr>)"
    using assms(2) Some b by (auto simp: upsert_config_def Let_def split: if_splits)
  then have "same_keys d d'"
    using references_holdD(8) [OF db_invD(2) [OF assms(1)]] by (auto simp: same_keys_def)
  then show ?thesis using assms(1) by (rule same_keys_inv)
qed

lemma find_map_replace:
  assumes "find P xs = Some old" and "P new" and "\<And>x. Q x \<Longrightarrow> \<not> P x"
  shows "find P (map (\<lambda>b. if P b then new else b) xs) = Some new"
    and "find Q (map (\<lambda>b. if P b then new else b) xs) = find Q xs"
proof -
  show "find P (map (\<lambda>b. if P b then new else b) xs) = Some new"
    using assms(1,2) by (induction xs) (auto split: if_splits)
  have "\<not> Q new" using assms(2,3) by blast
  then show "find Q (map (\<lambda>b. if P b then new else b) xs) = find Q xs"
    using assms(3) by (induction xs) auto
qed

lemma upsert_existing:
  assumes "find_config fid eid d = Inr old"
  shows "upsert_config X now fid eid en off ft rs expected d =
    (if expected = None \<or> expected = Some (fc_version old) then
       let row = old\<lparr>fc_enabled := en, fc_off_variant := off, fc_fallthrough := ft, fc_rules := rs,
                     fc_version := fc_version old + 1, fc_updated_at := now\<rparr>
       in Inr (row, notify [eid] (d\<lparr>db_configs := map (\<lambda>b.
            if fc_flag_id b = fid \<and> fc_environment_id b = eid then row else b) (db_configs d)\<rparr>))
     else Inl (VersionConflict ''flag configuration'' (unwrap_or expected 0)))"
  using assms by (simp add: upsert_config_def find_config_def Let_def)

section \<open>Properties\<close>

text \<open>
  Two operators cannot overwrite each other: a write to an existing configuration that
  names the version it was based on succeeds only if that version is current, increases it by
  one, is what a read then returns, leaves every other configuration alone, and makes any
  second write based on the same version fail with a version conflict.
\<close>

theorem upsert_version_guard:
  assumes "find_config fid eid d = Inr old"
    and "upsert_config X now fid eid en off ft rs (Some v) d = Inr (c, d')"
  shows "fc_version old = v \<and> fc_version c = v + 1 \<and> fc_rules c = rs \<and>
    find_config fid eid d' = Inr c \<and>
    upsert_config X now' fid eid en' off' ft' rs' (Some v) d' =
      Inl (VersionConflict ''flag configuration'' v) \<and>
    (\<forall>fid2 eid2. (fid2, eid2) \<noteq> (fid, eid) \<longrightarrow> find_config fid2 eid2 d' = find_config fid2 eid2 d)"
proof -
  let ?P = "\<lambda>b. fc_flag_id b = fid \<and> fc_environment_id b = eid"
  have old: "find ?P (db_configs d) = Some old" using assms(1) by (simp add: find_config_def)
  then have at: "?P old" by (auto simp: find_Some_iff)
  have v: "fc_version old = v" "fc_version c = v + 1" "fc_rules c = rs"
    and c: "?P c" and d': "d' = notify [eid] (d\<lparr>db_configs := map (\<lambda>b. if ?P b then c else b) (db_configs d)\<rparr>)"
    using assms(2) at by (auto simp: upsert_existing [OF assms(1)] Let_def split: if_splits)
  have now: "find_config fid eid d' = Inr c"
    using find_map_replace(1) [OF old c] by (simp add: d' find_config_def)
  moreover have "find_config fid2 eid2 d' = find_config fid2 eid2 d" if "(fid2, eid2) \<noteq> (fid, eid)" for fid2 eid2
    using find_map_replace(2) [OF old c, of "\<lambda>b. fc_flag_id b = fid2 \<and> fc_environment_id b = eid2"] that
    by (auto simp: d' find_config_def)
  moreover have "upsert_config X now' fid eid en' off' ft' rs' (Some v) d' =
      Inl (VersionConflict ''flag configuration'' v)"
    using v by (simp add: upsert_existing [OF now] unwrap_or_def)
  ultimately show ?thesis using v by blast
qed

text \<open>A project with one environment and one flag, built by the operations themselves.\<close>

definition demo_db :: db where
  "demo_db = db_empty\<lparr>db_organizations :=
     [\<lparr>org_id = 1, org_name = ''Acme'', org_slug = ''acme'', org_created_at = 0\<rparr>],
     db_projects := [\<lparr>prj_id = 2, prj_organization_id = 1, prj_key = ''shop'', prj_name = ''Shop'',
       prj_description = None, prj_created_at = 0\<rparr>],
     db_environments := [\<lparr>en_id = 3, en_project_id = 2, en_key = ''prod'', en_name = ''Production'',
       en_is_production = True, en_created_at = 0, en_salt = ''s''\<rparr>],
     db_flags := [\<lparr>fl_id = 4, fl_project_id = 2, fl_key = ''f'', fl_name = ''F'', fl_description = None,
       fl_variants = flag_variants (flag_boolean ''f''), fl_archived = False, fl_created_at = 0,
       fl_updated_at = 0\<rparr>],
     db_configs := [\<lparr>fc_flag_id = 4, fc_environment_id = 3, fc_enabled = False,
       fc_off_variant = ''off'', fc_fallthrough = Fixed ''on'', fc_rules = [], fc_version = 1,
       fc_updated_at = 0\<rparr>]\<rparr>"

theorem upsert_version_guard_witness:
  "\<exists>c d'. upsert_config demo_externals 9 4 3 True ''off'' (Fixed ''on'') [] (Some 1) demo_db = Inr (c, d') \<and>
     fc_version c = 2 \<and>
     upsert_config demo_externals 9 4 3 False ''off'' (Fixed ''on'') [] (Some 1) d' =
       Inl (VersionConflict ''flag configuration'' 1)"
proof -
  obtain old where old: "find_config 4 3 demo_db = Inr old" "fc_version old = 1"
    by (simp add: find_config_def demo_db_def db_empty_def or_not_found_def)
  obtain c d' where run:
    "upsert_config demo_externals 9 4 3 True ''off'' (Fixed ''on'') [] (Some 1) demo_db = Inr (c, d')"
    using old(2) by (simp add: upsert_existing [OF old(1)] Let_def)
  then show ?thesis using upsert_version_guard [OF old(1) run] by simp
qed

text \<open>
  A tenant reaches only its own projects: every project that a lookup or a listing for an
  organization returns belongs to it, and the lookup finds every project it owns.
\<close>

theorem project_lookup_is_tenant_scoped:
  assumes "db_inv d"
  shows "(find_project org key d = Inr p \<longleftrightarrow>
      p \<in> set (db_projects d) \<and> prj_organization_id p = org \<and> prj_key p = key) \<and>
    set (list_projects org d) = {p \<in> set (db_projects d). prj_organization_id p = org}"
proof -
  have inj: "inj_on (\<lambda>p. (prj_organization_id p, prj_key p)) (set (db_projects d))"
    using db_invD(1) [OF assms] by (simp add: keys_unique_def distinct_map)
  have "find_project org key d = Inr p"
    if p: "p \<in> set (db_projects d)" "prj_organization_id p = org" "prj_key p = key"
  proof -
    obtain q where q: "find (\<lambda>p. prj_organization_id p = org \<and> prj_key p = key) (db_projects d) = Some q"
      using p by (cases "find (\<lambda>p. prj_organization_id p = org \<and> prj_key p = key) (db_projects d)")
        (auto simp: find_None_iff)
    then have "q \<in> set (db_projects d)" "prj_organization_id q = org" "prj_key q = key"
      by (auto simp: find_Some_iff)
    with p have "q = p" by (intro inj_onD [OF inj]) auto
    with q show ?thesis by (simp add: find_project_def)
  qed
  moreover have "p \<in> set (db_projects d) \<and> prj_organization_id p = org \<and> prj_key p = key"
    if "find_project org key d = Inr p"
    using that by (auto simp: find_project_def find_Some_iff)
  moreover have "set (list_projects org d) = {p \<in> set (db_projects d). prj_organization_id p = org}"
    by (simp add: list_projects_def)
  ultimately show ?thesis by blast
qed

lemma demo_db_inv: "db_inv demo_db"
  by (simp add: integrity_defs demo_db_def db_empty_def)

theorem project_lookup_is_tenant_scoped_witness:
  "find_project 7 ''shop'' demo_db \<noteq> Inr (hd (db_projects demo_db))"
  using project_lookup_is_tenant_scoped [OF demo_db_inv, of 7 "''shop''" "hd (db_projects demo_db)"]
  by (simp add: demo_db_def)

end
