(* ===== verification/Storage_Segments.thy ===== *)
theory Storage_Segments
  imports Storage_Flags
begin

text \<open>
  \<^verbatim>\<open>crates/storage/src/segments.rs\<close>: the audiences of an environment. The update reads the row
  and then runs a guarded statement; the second half is a definition of its own, so that what
  another connection writes in between can be put between them.
\<close>

section \<open>Operations\<close>

definition create_segment ::
  "uuid \<Rightarrow> int \<Rightarrow> uuid \<Rightarrow> string \<Rightarrow> string \<Rightarrow> string option \<Rightarrow> db \<Rightarrow> storage_error + segment_row \<times> db" where
  "create_segment new_id now environment_id key name description d =
     (let row = \<lparr>sg_id = new_id, sg_environment_id = environment_id, sg_key = key, sg_name = name,
                 sg_description = description, sg_included = [], sg_excluded = [], sg_rules = [],
                 sg_version = 1, sg_created_at = now, sg_updated_at = now\<rparr>
      in map_err (\<lambda>e. from_write e ''segment'' key)
        (and_then (constraints (is_valid_key key \<and> check_name name)
             (new_id \<notin> sg_id ` set (db_segments d) \<and>
              (environment_id, key) \<notin> (\<lambda>s. (sg_environment_id s, sg_key s)) ` set (db_segments d))
             (environment_id \<in> en_id ` set (db_environments d)))
           (\<lambda>_. Inr (row, notify [environment_id] (d\<lparr>db_segments := db_segments d @ [row]\<rparr>)))))"

definition list_segments :: "uuid \<Rightarrow> db \<Rightarrow> segment_row list" where
  "list_segments environment_id d =
     sort_key sg_key (filter (\<lambda>s. sg_environment_id s = environment_id) (db_segments d))"

definition find_segment :: "uuid \<Rightarrow> string \<Rightarrow> db \<Rightarrow> storage_error + segment_row" where
  "find_segment environment_id key d =
     or_not_found
       (find (\<lambda>s. sg_environment_id s = environment_id \<and> sg_key s = key) (db_segments d)) ''segment''"

text \<open>A partial update of a segment; what is absent keeps its column.\<close>

record segment_changes =
  sc_name :: "string option"
  sc_description :: "string option option"
  sc_included :: "string list option"
  sc_excluded :: "string list option"
  sc_rules :: "segment_rule list option"

definition updated_segment :: "int \<Rightarrow> segment_changes \<Rightarrow> segment_row \<Rightarrow> segment_row" where
  "updated_segment now ch s =
     s\<lparr>sg_name := unwrap_or (sc_name ch) (sg_name s),
       sg_description := unwrap_or (sc_description ch) (sg_description s),
       sg_included := unwrap_or (sc_included ch) (sg_included s),
       sg_excluded := unwrap_or (sc_excluded ch) (sg_excluded s),
       sg_rules := unwrap_or (sc_rules ch) (sg_rules s),
       sg_version := sg_version s + 1, sg_updated_at := now\<rparr>"

text \<open>The guarded statement, in the database it finds; \<open>current\<close> is what was read before.\<close>

definition write_segment ::
  "int \<Rightarrow> uuid \<Rightarrow> string \<Rightarrow> segment_changes \<Rightarrow> int option \<Rightarrow> segment_row \<Rightarrow> db \<Rightarrow>
     storage_error + segment_row \<times> db" where
  "write_segment now environment_id key ch expected current d =
     (let here = (\<lambda>s. sg_environment_id s = environment_id \<and> sg_key s = key \<and>
                   (expected = None \<or> expected = Some (sg_version s)))
      in case find here (db_segments d) of
           None \<Rightarrow> Inl (VersionConflict ''segment'' (unwrap_or expected (sg_version current)))
         | Some s \<Rightarrow>
             (let s' = updated_segment now ch s
              in map_err (\<lambda>e. from_write e ''segment'' key)
                (and_then (constraints (check_name (sg_name s')) True True)
                  (\<lambda>_. Inr (s', notify [environment_id]
                     (d\<lparr>db_segments := map (\<lambda>t. if here t then s' else t) (db_segments d)\<rparr>))))))"

definition update_segment ::
  "int \<Rightarrow> uuid \<Rightarrow> string \<Rightarrow> segment_changes \<Rightarrow> int option \<Rightarrow> db \<Rightarrow> storage_error + segment_row \<times> db" where
  "update_segment now environment_id key ch expected d =
     and_then (find_segment environment_id key d)
       (\<lambda>current. case expected of
            Some v \<Rightarrow>
              if sg_version current \<noteq> v then Inl (VersionConflict ''segment'' v)
              else write_segment now environment_id key ch expected current d
          | None \<Rightarrow> write_segment now environment_id key ch expected current d)"

text \<open>
  Containment of \<^verbatim>\<open>[{"segments": {"any_of": [key]}}]\<close> in the rules, and of the same with
  \<^verbatim>\<open>none_of\<close>: some rule lists the key.
\<close>

definition rules_mention :: "(segment_match \<Rightarrow> string list) \<Rightarrow> string \<Rightarrow> rule list \<Rightarrow> bool" where
  "rules_mention part key rs =
     list_ex (\<lambda>r. case rule_segments r of None \<Rightarrow> False | Some m \<Rightarrow> key \<in> set (part m)) rs"

definition referencing_flags :: "uuid \<Rightarrow> string \<Rightarrow> db \<Rightarrow> string list" where
  "referencing_flags environment_id key d =
     sort (map (\<lambda>(c, f). fl_key f)
       (filter (\<lambda>(c, f). fl_id f = fc_flag_id c \<and> fc_environment_id c = environment_id \<and>
            (rules_mention sm_any_of key (fc_rules c) \<or> rules_mention sm_none_of key (fc_rules c)))
          (List.product (db_configs d) (db_flags d))))"

definition delete_segment :: "uuid \<Rightarrow> string \<Rightarrow> db \<Rightarrow> storage_error + db" where
  "delete_segment environment_id key d =
     (let referencing = referencing_flags environment_id key d;
          gone = (\<lambda>s. sg_environment_id s = environment_id \<and> sg_key s = key)
      in if referencing \<noteq> [] then Inl (InUse ''segment'' key referencing)
         else if \<not> list_ex gone (db_segments d) then Inl (NotFound ''segment'')
         else Inr (notify [environment_id]
                (d\<lparr>db_segments := filter (\<lambda>s. \<not> gone s) (db_segments d)\<rparr>)))"

definition segment_keys :: "uuid \<Rightarrow> db \<Rightarrow> string list" where
  "segment_keys environment_id d =
     sort (remdups (map sg_key (filter (\<lambda>s. sg_environment_id s = environment_id) (db_segments d))))"

definition load_environment_segments :: "uuid \<Rightarrow> db \<Rightarrow> segment list" where
  "load_environment_segments environment_id d = map segment_definition (list_segments environment_id d)"

lemmas segment_store_defs [model_defs] =
  create_segment_def list_segments_def find_segment_def updated_segment_def write_segment_def
  update_segment_def rules_mention_def referencing_flags_def delete_segment_def segment_keys_def
  load_environment_segments_def

section \<open>Integrity\<close>

lemma segments_inv:
  assumes "db_inv d" and "distinct (map (\<lambda>s. (sg_environment_id s, sg_key s)) ss)"
    and "sg_environment_id ` set ss \<subseteq> en_id ` set (db_environments d)"
  shows "db_inv (d\<lparr>db_segments := ss\<rparr>)"
  using assms by (simp add: db_inv_def keys_unique_def references_hold_def configured_everywhere_def)

lemma create_segment_eq:
  assumes "create_segment i now eid key name desc d = Inr (s, d')"
  shows "d' = notify [eid] (d\<lparr>db_segments := db_segments d @ [s]\<rparr>)" and "sg_environment_id s = eid"
    and "sg_key s = key" and "eid \<in> en_id ` set (db_environments d)"
    and "(eid, key) \<notin> (\<lambda>s. (sg_environment_id s, sg_key s)) ` set (db_segments d)"
  using assms by (auto simp: create_segment_def Let_def and_then_Inr)

lemma create_segment_inv:
  assumes "db_inv d" and "create_segment i now eid key name desc d = Inr (s, d')"
  shows "db_inv d'"
proof -
  note c = create_segment_eq [OF assms(2)]
  have "db_inv (d\<lparr>db_segments := db_segments d @ [s]\<rparr>)"
    using db_invD(1) [OF assms(1)] references_holdD(5) [OF db_invD(2) [OF assms(1)]] c(2-)
    by (intro segments_inv [OF assms(1)]) (auto simp: keys_unique_def)
  then show ?thesis by (simp add: c(1))
qed

lemma write_segment_eq:
  assumes "write_segment now eid key ch expected current d = Inr (s', d')" and "keys_unique d"
  shows "\<exists>s. s \<in> set (db_segments d) \<and> sg_environment_id s = eid \<and> sg_key s = key \<and>
    (expected = None \<or> expected = Some (sg_version s)) \<and> s' = updated_segment now ch s \<and>
    d' = notify [eid] (d\<lparr>db_segments := map (\<lambda>t. if sg_environment_id t = eid \<and> sg_key t = key
           then s' else t) (db_segments d)\<rparr>)"
proof -
  let ?here = "\<lambda>s. sg_environment_id s = eid \<and> sg_key s = key \<and>
    (expected = None \<or> expected = Some (sg_version s))"
  obtain s where s: "find ?here (db_segments d) = Some s" and s': "s' = updated_segment now ch s"
    and d': "d' = notify [eid] (d\<lparr>db_segments := map (\<lambda>t. if ?here t then s' else t) (db_segments d)\<rparr>)"
    using assms(1) by (auto simp: write_segment_def Let_def and_then_Inr split: option.splits)
  have here: "s \<in> set (db_segments d)" "?here s" using s by (auto simp: find_Some_iff)
  have inj: "inj_on (\<lambda>s. (sg_environment_id s, sg_key s)) (set (db_segments d))"
    using assms(2) by (simp add: keys_unique_def distinct_map)
  have iff: "?here t \<longleftrightarrow> sg_environment_id t = eid \<and> sg_key t = key" if "t \<in> set (db_segments d)" for t
  proof
    assume at: "sg_environment_id t = eid \<and> sg_key t = key"
    have "t = s" by (rule inj_onD [OF inj _ that here(1)]) (simp add: at here(2))
    with here(2) show "?here t" by simp
  qed simp
  have "map (\<lambda>t. if ?here t then s' else t) (db_segments d) =
      map (\<lambda>t. if sg_environment_id t = eid \<and> sg_key t = key then s' else t) (db_segments d)"
    by (intro map_cong refl if_cong iff)
  from d' [unfolded this] here s' show ?thesis by (intro exI [of _ s]) simp
qed

lemma update_segment_write:
  "update_segment now eid key ch expected d = Inr r \<Longrightarrow>
     \<exists>current. find_segment eid key d = Inr current \<and>
       write_segment now eid key ch expected current d = Inr r"
  by (auto simp: update_segment_def and_then_Inr split: option.splits if_splits)

lemma write_segment_inv:
  assumes "db_inv d" and "write_segment now eid key ch expected current d = Inr (s', d')"
  shows "db_inv d'"
proof -
  obtain s where "sg_environment_id s = eid" "sg_key s = key" and s': "s' = updated_segment now ch s"
    and d': "d' = notify [eid] (d\<lparr>db_segments := map (\<lambda>t. if sg_environment_id t = eid \<and> sg_key t = key
           then s' else t) (db_segments d)\<rparr>)"
    using write_segment_eq [OF assms(2) db_invD(1) [OF assms(1)]] by blast
  then have "same_keys d d'"
    using references_holdD(8) [OF db_invD(2) [OF assms(1)]]
    by (auto simp: same_keys_def updated_segment_def)
  then show ?thesis using assms(1) by (rule same_keys_inv)
qed

lemma update_segment_inv:
  "db_inv d \<Longrightarrow> update_segment now eid key ch expected d = Inr (s', d') \<Longrightarrow> db_inv d'"
  using update_segment_write write_segment_inv by blast

lemma delete_segment_eq:
  "delete_segment eid key d = Inr d' \<Longrightarrow>
     referencing_flags eid key d = [] \<and>
     d' = notify [eid] (d\<lparr>db_segments :=
       filter (\<lambda>s. \<not> (sg_environment_id s = eid \<and> sg_key s = key)) (db_segments d)\<rparr>)"
  by (simp add: delete_segment_def Let_def split: if_splits)

lemma delete_segment_inv:
  assumes "db_inv d" and "delete_segment eid key d = Inr d'"
  shows "db_inv d'"
proof -
  have "db_inv (d\<lparr>db_segments := filter P (db_segments d)\<rparr>)" for P
    using db_invD(1) [OF assms(1)] references_holdD(5) [OF db_invD(2) [OF assms(1)]]
    by (intro segments_inv [OF assms(1)]) (auto simp: keys_unique_def distinct_map_filter)
  then show ?thesis using delete_segment_eq [OF assms(2)] by simp
qed

section \<open>References of rules to segments\<close>

text \<open>Every segment that a rule of a configuration names exists in its environment.\<close>

definition rule_references :: "rule \<Rightarrow> string list" where
  "rule_references r = (case rule_segments r of None \<Rightarrow> [] | Some m \<Rightarrow> segment_match_referenced m)"

definition segment_refs_resolve :: "db \<Rightarrow> bool" where
  "segment_refs_resolve d =
     (\<forall>c \<in> set (db_configs d). \<forall>r \<in> set (fc_rules c). \<forall>k \<in> set (rule_references r).
        \<exists>s \<in> set (db_segments d). sg_environment_id s = fc_environment_id c \<and> sg_key s = k)"

lemma rules_mention_iff:
  "rules_mention sm_any_of k rs \<or> rules_mention sm_none_of k rs \<longleftrightarrow>
     (\<exists>r \<in> set rs. k \<in> set (rule_references r))"
proof -
  have m: "rules_mention part k rs \<longleftrightarrow>
      (\<exists>r \<in> set rs. \<exists>m. rule_segments r = Some m \<and> k \<in> set (part m))" for part
    by (auto simp: rules_mention_def list_ex_iff split: option.splits)
  have "k \<in> set (rule_references r) \<longleftrightarrow>
      (\<exists>m. rule_segments r = Some m \<and> (k \<in> set (sm_any_of m) \<or> k \<in> set (sm_none_of m)))" for r
    by (cases "rule_segments r") (simp_all add: rule_references_def segment_match_referenced_def)
  then show ?thesis unfolding m by blast
qed

lemma referencing_flags_empty:
  assumes "references_hold d" and "referencing_flags eid k d = []"
    and "c \<in> set (db_configs d)" and "fc_environment_id c = eid" and "r \<in> set (fc_rules c)"
  shows "k \<notin> set (rule_references r)"
proof
  assume "k \<in> set (rule_references r)"
  then have m: "rules_mention sm_any_of k (fc_rules c) \<or> rules_mention sm_none_of k (fc_rules c)"
    using assms(5) rules_mention_iff by blast
  obtain f where "f \<in> set (db_flags d)" "fl_id f = fc_flag_id c"
    using references_holdD(3) [OF assms(1)] assms(3) by (metis (no_types, lifting) image_iff subsetD)
  then have "fl_key f \<in> set (referencing_flags eid k d)"
    using m assms(3,4) by (force simp: referencing_flags_def)
  with assms(2) show False by simp
qed

lemma delete_segment_refs:
  assumes "db_inv d" and "segment_refs_resolve d" and "delete_segment eid key d = Inr d'"
  shows "segment_refs_resolve d'"
  unfolding segment_refs_resolve_def
proof (intro ballI)
  fix c r k
  assume c: "c \<in> set (db_configs d')" and r: "r \<in> set (fc_rules c)" and k: "k \<in> set (rule_references r)"
  note e = delete_segment_eq [OF assms(3)]
  have c': "c \<in> set (db_configs d)" using c e by simp
  then obtain s where s: "s \<in> set (db_segments d)" "sg_environment_id s = fc_environment_id c" "sg_key s = k"
    using assms(2) r k unfolding segment_refs_resolve_def by blast
  have "\<not> (sg_environment_id s = eid \<and> sg_key s = key)"
    using referencing_flags_empty [OF db_invD(2) [OF assms(1)] conjunct1 [OF e] c' _ r] s(2,3) k
    by force
  with s e show "\<exists>s \<in> set (db_segments d'). sg_environment_id s = fc_environment_id c \<and> sg_key s = k"
    by auto
qed

section \<open>Properties\<close>

text \<open>
  A segment in use cannot be deleted: the deletion is refused with the keys of exactly the
  flags whose rules name it in that environment, and a successful deletion leaves no rule of
  any flag that names a segment its environment does not have, if there was none before.
\<close>

theorem delete_segment_no_dangling:
  assumes "db_inv d" and "segment_refs_resolve d"
  shows "(\<forall>d'. delete_segment eid key d = Inr d' \<longrightarrow>
      segment_refs_resolve d' \<and> find_segment eid key d' = Inl (NotFound ''segment'')) \<and>
    (\<forall>f c r. f \<in> set (db_flags d) \<and> c \<in> set (db_configs d) \<and> fc_flag_id c = fl_id f \<and>
       fc_environment_id c = eid \<and> r \<in> set (fc_rules c) \<and> key \<in> set (rule_references r) \<longrightarrow>
       (\<exists>fs. delete_segment eid key d = Inl (InUse ''segment'' key fs) \<and> fl_key f \<in> set fs))"
proof (intro conjI allI impI, goal_cases)
  case (1 d')
  then show ?case by (rule delete_segment_refs [OF assms])
next
  case (2 d')
  have "find (\<lambda>s. sg_environment_id s = eid \<and> sg_key s = key)
      (filter (\<lambda>s. \<not> (sg_environment_id s = eid \<and> sg_key s = key)) (db_segments d)) = None"
    by (auto simp: find_None_iff)
  then show ?case
    using delete_segment_eq [OF 2] by (simp add: find_segment_def or_not_found_def)
next
  case (3 f c r)
  then have "rules_mention sm_any_of key (fc_rules c) \<or> rules_mention sm_none_of key (fc_rules c)"
    using rules_mention_iff by blast
  then have "fl_key f \<in> set (referencing_flags eid key d)"
    using 3 by (force simp: referencing_flags_def)
  then show ?case by (auto simp: delete_segment_def Let_def)
qed

text \<open>The demonstration database with an audience that the flag's only rule names.\<close>

definition demo_segment_db :: db where
  "demo_segment_db = demo_db
     \<lparr>db_segments := [\<lparr>sg_id = 5, sg_environment_id = 3, sg_key = ''beta'', sg_name = ''Beta'',
        sg_description = None, sg_included = [], sg_excluded = [], sg_rules = [], sg_version = 1,
        sg_created_at = 0, sg_updated_at = 0\<rparr>],
      db_configs := map (fc_rules_update (\<lambda>_. [rule_targeting (rule_new 6 [] (Fixed ''on''))
        (segment_match_any_of [''beta''])])) (db_configs demo_db)\<rparr>"

lemma demo_segment_db_inv: "db_inv demo_segment_db" "segment_refs_resolve demo_segment_db"
  by (simp_all add: integrity_defs segment_refs_resolve_def rule_references_def demo_segment_db_def
      demo_db_def db_empty_def segment_match_any_of_def rule_targeting_def segment_match_referenced_def)

theorem delete_segment_no_dangling_witness:
  "\<exists>fs. delete_segment 3 ''beta'' demo_segment_db = Inl (InUse ''segment'' ''beta'' fs) \<and> ''f'' \<in> set fs"
proof -
  let ?f = "hd (db_flags demo_segment_db)" and ?c = "hd (db_configs demo_segment_db)"
  have "fl_key ?f = ''f''" by (simp add: demo_segment_db_def demo_db_def)
  then show ?thesis
    using conjunct2 [OF delete_segment_no_dangling [OF demo_segment_db_inv, of 3 "''beta''"],
        rule_format, of ?f ?c "hd (fc_rules ?c)"]
    by (simp add: demo_segment_db_def demo_db_def rule_references_def rule_targeting_def
        segment_match_any_of_def segment_match_referenced_def)
qed

end
