(* ===== verification/Storage_Experiments.thy ===== *)
theory Storage_Experiments
  imports Storage_Segments "HOL-Library.AList"
begin

text \<open>
  \<^verbatim>\<open>crates/storage/src/experiments.rs\<close>: experiments, their lifecycle and their hourly counters.
  An operation whose statement is committed before a later read can fail returns its result
  beside the database. The truncation of a timestamp to its hour is a parameter. The order in
  which the collapsed cells are written is that of their first delta; the code's order is that
  of a hash map, and no read depends on it.
\<close>

section \<open>Reading experiments\<close>

text \<open>The rows of the shared query: the experiment joined with its flag.\<close>

definition experiment_query :: "(experiment_row \<Rightarrow> bool) \<Rightarrow> db \<Rightarrow> experiment_view list" where
  "experiment_query cond d =
     map (\<lambda>(x, f). \<lparr>exp_row = x, exp_flag_key = fl_key f, exp_variants = fl_variants f\<rparr>)
       (filter (\<lambda>(x, f). fl_id f = ex_flag_id x \<and> cond x)
          (List.product (db_experiments d) (db_flags d)))"

definition list_experiments :: "uuid \<Rightarrow> db \<Rightarrow> experiment_view list" where
  "list_experiments environment_id d =
     sort_key (\<lambda>v. ex_key (exp_row v)) (experiment_query (\<lambda>x. ex_environment_id x = environment_id) d)"

definition find_experiment :: "uuid \<Rightarrow> string \<Rightarrow> db \<Rightarrow> storage_error + experiment_view" where
  "find_experiment environment_id key d =
     (case experiment_query (\<lambda>x. ex_environment_id x = environment_id \<and> ex_key x = key) d of
        [] \<Rightarrow> Inl (NotFound ''experiment'')
      | v # _ \<Rightarrow> Inr v)"

section \<open>Writing experiments\<close>

definition create_experiment ::
  "uuid \<Rightarrow> int \<Rightarrow> uuid \<Rightarrow> uuid \<Rightarrow> string \<Rightarrow> string \<Rightarrow> string option \<Rightarrow> string \<Rightarrow> string \<Rightarrow> db \<Rightarrow>
     (storage_error + experiment_view) \<times> db" where
  "create_experiment new_id now environment_id flag_id key name description metric_key control_variant d =
     (let row = \<lparr>ex_id = new_id, ex_environment_id = environment_id, ex_flag_id = flag_id, ex_key = key,
                 ex_name = name, ex_description = description, ex_metric_key = metric_key,
                 ex_control_variant = control_variant, ex_state = Draft, ex_started_at = None,
                 ex_stopped_at = None, ex_version = 1, ex_created_at = now, ex_updated_at = now\<rparr>
      in case constraints (is_valid_key key \<and> check_name name \<and> is_valid_key metric_key)
             (new_id \<notin> ex_id ` set (db_experiments d) \<and>
              (environment_id, key) \<notin> (\<lambda>x. (ex_environment_id x, ex_key x)) ` set (db_experiments d))
             (environment_id \<in> en_id ` set (db_environments d) \<and> flag_id \<in> fl_id ` set (db_flags d)) of
           Inl e \<Rightarrow> (Inl (from_write e ''experiment'' key), d)
         | Inr _ \<Rightarrow>
             let d' = notify [environment_id] (d\<lparr>db_experiments := db_experiments d @ [row]\<rparr>)
             in (find_experiment environment_id key d', d'))"

text \<open>
  An update statement on the experiments a condition selects, with the trigger that touches
  the row and increments its version, and the notification of each updated row.
\<close>

definition touch_experiment :: "int \<Rightarrow> (experiment_row \<Rightarrow> experiment_row) \<Rightarrow> experiment_row \<Rightarrow> experiment_row" where
  "touch_experiment now f x = (f x)\<lparr>ex_version := ex_version x + 1, ex_updated_at := now\<rparr>"

definition update_experiments ::
  "int \<Rightarrow> (experiment_row \<Rightarrow> bool) \<Rightarrow> (experiment_row \<Rightarrow> experiment_row) \<Rightarrow> db \<Rightarrow> db" where
  "update_experiments now cond f d =
     notify (map ex_environment_id (filter cond (db_experiments d)))
       (d\<lparr>db_experiments := map (\<lambda>x. if cond x then touch_experiment now f x else x) (db_experiments d)\<rparr>)"

definition update_experiment ::
  "int \<Rightarrow> uuid \<Rightarrow> string \<Rightarrow> string option \<Rightarrow> string option option \<Rightarrow> db \<Rightarrow>
     (storage_error + experiment_view) \<times> db" where
  "update_experiment now environment_id key name description d =
     (let here = (\<lambda>x. ex_environment_id x = environment_id \<and> ex_key x = key);
          f = (\<lambda>x. x\<lparr>ex_name := unwrap_or name (ex_name x),
                     ex_description := unwrap_or description (ex_description x)\<rparr>)
      in if list_ex (\<lambda>x. here x \<and> \<not> check_name (ex_name (f x))) (db_experiments d)
         then (Inl (from_write CheckViolation ''experiment'' key), d)
         else if \<not> list_ex here (db_experiments d) then (Inl (NotFound ''experiment''), d)
         else let d' = update_experiments now here f d in (find_experiment environment_id key d', d'))"

definition transition ::
  "int \<Rightarrow> uuid \<Rightarrow> string \<Rightarrow> experiment_state \<Rightarrow> experiment_state \<Rightarrow> db \<Rightarrow>
     (storage_error + experiment_view) \<times> db" where
  "transition now environment_id key source target d =
     (let here = (\<lambda>x. ex_environment_id x = environment_id \<and> ex_key x = key \<and> ex_state x = source);
          f = (\<lambda>x. x\<lparr>ex_state := target,
                 ex_started_at := if target = Running then Some now else ex_started_at x,
                 ex_stopped_at := if target = Stopped then Some now else ex_stopped_at x\<rparr>)
      in if \<not> list_ex here (db_experiments d)
         then (and_then (find_experiment environment_id key d)
                (\<lambda>current. Inl (WrongState ''experiment'' key
                   (experiment_state_as_str (ex_state (exp_row current))) (experiment_state_as_str source))), d)
         else let d' = update_experiments now here f d in (find_experiment environment_id key d', d'))"

definition start_experiment :: "int \<Rightarrow> uuid \<Rightarrow> string \<Rightarrow> db \<Rightarrow> (storage_error + experiment_view) \<times> db" where
  "start_experiment now environment_id key d = transition now environment_id key Draft Running d"

definition stop_experiment :: "int \<Rightarrow> uuid \<Rightarrow> string \<Rightarrow> db \<Rightarrow> (storage_error + experiment_view) \<times> db" where
  "stop_experiment now environment_id key d = transition now environment_id key Running Stopped d"

definition delete_experiment :: "uuid \<Rightarrow> string \<Rightarrow> db \<Rightarrow> storage_error + db" where
  "delete_experiment environment_id key d =
     (let gone = (\<lambda>x. ex_environment_id x = environment_id \<and> ex_key x = key \<and> ex_state x \<noteq> Running);
          ids = ex_id ` set (filter gone (db_experiments d))
      in if \<not> list_ex gone (db_experiments d)
         then and_then (find_experiment environment_id key d)
                (\<lambda>current. Inl (WrongState ''experiment'' key
                   (experiment_state_as_str (ex_state (exp_row current))) ''stopped (or still a draft)''))
         else Inr (notify (map ex_environment_id (filter gone (db_experiments d)))
                (d\<lparr>db_experiments := filter (\<lambda>x. \<not> gone x) (db_experiments d),
                   db_counters := filter (\<lambda>c. ct_experiment_id c \<notin> ids) (db_counters d)\<rparr>)))"

definition backdate_start :: "int \<Rightarrow> uuid \<Rightarrow> string \<Rightarrow> int \<Rightarrow> db \<Rightarrow> storage_error + db" where
  "backdate_start now environment_id key started_at d =
     (let here = (\<lambda>x. ex_environment_id x = environment_id \<and> ex_key x = key \<and> ex_state x = Running)
      in if \<not> list_ex here (db_experiments d) then Inl (NotFound ''experiment'')
         else Inr (update_experiments now here (\<lambda>x. x\<lparr>ex_started_at := Some started_at\<rparr>) d))"

section \<open>Counters\<close>

type_synonym delta_cell = "string \<times> string \<times> counter_kind \<times> int"
type_synonym counter_cell = "uuid \<times> string \<times> counter_kind \<times> int"

definition delta_cell_of :: "counter_delta \<Rightarrow> int \<Rightarrow> delta_cell" where
  "delta_cell_of delta hour = (cd_experiment_key delta, cd_variant delta, cd_kind delta, hour)"

fun collapse ::
  "(int \<Rightarrow> int option) \<Rightarrow> counter_delta list \<Rightarrow> (delta_cell \<times> int) list \<Rightarrow>
     storage_error + (delta_cell \<times> int) list" where
  "collapse trunc [] cells = Inr cells"
| "collapse trunc (delta # deltas) cells =
     (case trunc (cd_at delta) of
        None \<Rightarrow> Inl (Invalid ''counter timestamp'')
      | Some hour \<Rightarrow>
          (let cell = delta_cell_of delta hour
           in collapse trunc deltas
                (AList.update cell (unwrap_or (map_of cells cell) 0 + uint (cd_count delta)) cells)))"

definition counter_cell_of :: "counter_row \<Rightarrow> counter_cell" where
  "counter_cell_of c = (ct_experiment_id c, ct_variant c, ct_kind c, ct_hour c)"

text \<open>The rows the statement proposes: each cell joined with the running experiment it names.\<close>

definition proposed_counters :: "uuid \<Rightarrow> db \<Rightarrow> (delta_cell \<times> int) list \<Rightarrow> counter_row list" where
  "proposed_counters environment_id d cells =
     concat (map (\<lambda>((key, variant, kind, hour), n).
       map (\<lambda>x. \<lparr>ct_experiment_id = ex_id x, ct_variant = variant, ct_kind = kind, ct_hour = hour, ct_count = n\<rparr>)
         (filter (\<lambda>x. ex_environment_id x = environment_id \<and> ex_key x = key \<and> ex_state x = Running)
            (db_experiments d))) cells)"

definition upsert_counter :: "counter_row \<Rightarrow> counter_row list \<Rightarrow> counter_row list" where
  "upsert_counter r cs =
     (if list_ex (\<lambda>c. counter_cell_of c = counter_cell_of r) cs
      then map (\<lambda>c. if counter_cell_of c = counter_cell_of r then c\<lparr>ct_count := ct_count c + ct_count r\<rparr>
                    else c) cs
      else cs @ [r])"

text \<open>A counter column is a 64-bit integer: an increment past it fails the whole statement.\<close>

definition ingest_counters ::
  "(int \<Rightarrow> int option) \<Rightarrow> uuid \<Rightarrow> counter_delta list \<Rightarrow> db \<Rightarrow> storage_error + nat \<times> db" where
  "ingest_counters trunc environment_id deltas d =
     and_then (collapse trunc deltas [])
       (\<lambda>cells.
          let rows = proposed_counters environment_id d cells;
              counters = fold upsert_counter rows (db_counters d)
          in if list_ex (\<lambda>c. 2 ^ 63 \<le> ct_count c) counters then Inl (Database ''22003'')
             else Inr (length rows, d\<lparr>db_counters := counters\<rparr>))"

text \<open>The totals per variant and kind, as the grouping query returns them, variants in order.\<close>

definition counter_totals :: "uuid \<Rightarrow> db \<Rightarrow> (string \<times> counter_kind \<times> int) list" where
  "counter_totals experiment_id d =
     (let cs = filter (\<lambda>c. ct_experiment_id c = experiment_id) (db_counters d)
      in sort_key fst
        (map (\<lambda>(v, k). (v, k, sum_list (map ct_count (filter (\<lambda>c. ct_variant c = v \<and> ct_kind c = k) cs))))
          (remdups (map (\<lambda>c. (ct_variant c, ct_kind c)) cs))))"

definition u64_try_from :: "int \<Rightarrow> u64" where
  "u64_try_from n = (if 0 \<le> n \<and> n < 2 ^ 64 then of_int n else 0)"

definition put_total :: "counter_kind \<Rightarrow> int \<Rightarrow> variant_counts \<Rightarrow> variant_counts" where
  "put_total kind amount e =
     (case kind of CExposure \<Rightarrow> e\<lparr>vc_exposures := u64_try_from amount\<rparr>
      | CConversion \<Rightarrow> e\<lparr>vc_conversions := u64_try_from amount\<rparr>)"

definition store_total :: "string \<Rightarrow> counter_kind \<Rightarrow> int \<Rightarrow> variant_counts list \<Rightarrow> variant_counts list" where
  "store_total v kind amount by_variant =
     (let entries = (if list_ex (\<lambda>c. vc_variant c = v) by_variant then by_variant
                     else by_variant @ [\<lparr>vc_variant = v, vc_exposures = 0, vc_conversions = 0\<rparr>])
      in map (\<lambda>c. if vc_variant c = v then put_total kind amount c else c) entries)"

fun collect_totals :: "(string \<times> counter_kind \<times> int) list \<Rightarrow> variant_counts list \<Rightarrow> variant_counts list" where
  "collect_totals [] by_variant = by_variant"
| "collect_totals ((v, kind, amount) # rows) by_variant =
     collect_totals rows (store_total v kind amount by_variant)"

definition experiment_counts :: "uuid \<Rightarrow> db \<Rightarrow> storage_error + variant_counts list" where
  "experiment_counts experiment_id d =
     (let rows = counter_totals experiment_id d
      in if list_ex (\<lambda>(v, k, n). 2 ^ 63 \<le> n) rows then Inl (Database ''22003'')
         else Inr (collect_totals rows []))"

text \<open>The loop over hourly rows; both lists are kept newest first and reversed at the end.\<close>

definition add_point :: "counter_kind \<Rightarrow> int \<Rightarrow> series_point \<Rightarrow> series_point" where
  "add_point kind n p =
     (case kind of CExposure \<Rightarrow> p\<lparr>sp_exposures := sp_exposures p + u64_try_from n\<rparr>
      | CConversion \<Rightarrow> p\<lparr>sp_conversions := sp_conversions p + u64_try_from n\<rparr>)"

fun add_hour :: "counter_row \<Rightarrow> series_point list \<Rightarrow> series_point list" where
  "add_hour c (p # ps) =
     (if sp_hour p = ct_hour c then add_point (ct_kind c) (ct_count c) p # ps
      else add_point (ct_kind c) (ct_count c) \<lparr>sp_hour = ct_hour c, sp_exposures = 0, sp_conversions = 0\<rparr> # p # ps)"
| "add_hour c [] =
     [add_point (ct_kind c) (ct_count c) \<lparr>sp_hour = ct_hour c, sp_exposures = 0, sp_conversions = 0\<rparr>]"

fun series_loop :: "counter_row list \<Rightarrow> variant_series list \<Rightarrow> variant_series list" where
  "series_loop [] series = series"
| "series_loop (c # cs) (s # series) =
     (if vs_variant s = ct_variant c
      then series_loop cs (s\<lparr>vs_points := add_hour c (vs_points s)\<rparr> # series)
      else series_loop cs (\<lparr>vs_variant = ct_variant c, vs_points = add_hour c []\<rparr> # s # series))"
| "series_loop (c # cs) [] =
     series_loop cs [\<lparr>vs_variant = ct_variant c, vs_points = add_hour c []\<rparr>]"

definition hourly_counts :: "uuid \<Rightarrow> int \<Rightarrow> db \<Rightarrow> variant_series list" where
  "hourly_counts experiment_id since d =
     rev (map (\<lambda>s. s\<lparr>vs_points := rev (vs_points s)\<rparr>)
       (series_loop
         (sort_key (\<lambda>c. (ct_variant c, ct_hour c))
           (filter (\<lambda>c. ct_experiment_id c = experiment_id \<and> since \<le> ct_hour c) (db_counters d))) []))"

definition load_running_experiments :: "uuid \<Rightarrow> db \<Rightarrow> experiment_spec list" where
  "load_running_experiments environment_id d =
     map experiment_spec_of
       (sort_key (\<lambda>v. ex_key (exp_row v))
         (experiment_query (\<lambda>x. ex_environment_id x = environment_id \<and> ex_state x = Running) d))"

lemmas experiment_store_defs [model_defs] =
  experiment_query_def list_experiments_def find_experiment_def create_experiment_def
  touch_experiment_def update_experiments_def update_experiment_def transition_def
  start_experiment_def stop_experiment_def delete_experiment_def backdate_start_def
  delta_cell_of_def counter_cell_of_def proposed_counters_def upsert_counter_def
  ingest_counters_def counter_totals_def u64_try_from_def put_total_def store_total_def experiment_counts_def
  add_point_def hourly_counts_def load_running_experiments_def

section \<open>Integrity\<close>

text \<open>The primary key of the counters and their range.\<close>

definition counters_wf :: "db \<Rightarrow> bool" where
  "counters_wf d =
     (distinct (map counter_cell_of (db_counters d)) \<and>
      (\<forall>c \<in> set (db_counters d). 0 \<le> ct_count c \<and> ct_count c < 2 ^ 63))"

lemma find_experiment_Inr:
  "find_experiment eid key d = Inr v \<Longrightarrow>
     exp_row v \<in> set (db_experiments d) \<and> ex_environment_id (exp_row v) = eid \<and> ex_key (exp_row v) = key"
proof -
  assume "find_experiment eid key d = Inr v"
  then have "v \<in> set (experiment_query (\<lambda>x. ex_environment_id x = eid \<and> ex_key x = key) d)"
    by (auto simp: find_experiment_def split: list.splits)
  then show ?thesis by (auto simp: experiment_query_def)
qed

lemma find_experiment_present:
  assumes "references_hold d" and "x \<in> set (db_experiments d)"
    and "ex_environment_id x = eid" and "ex_key x = key"
  shows "\<exists>v. find_experiment eid key d = Inr v"
proof -
  obtain f where "f \<in> set (db_flags d)" "fl_id f = ex_flag_id x"
    using references_holdD(7) [OF assms(1)] assms(2) by (metis (no_types, lifting) image_iff subsetD)
  then have "experiment_query (\<lambda>x. ex_environment_id x = eid \<and> ex_key x = key) d \<noteq> []"
    using assms(2-) by (force simp: experiment_query_def filter_empty_conv)
  then show ?thesis by (auto simp: find_experiment_def split: list.splits)
qed

lemma find_experiment_iff:
  assumes "db_inv d"
  shows "(\<exists>v. find_experiment eid key d = Inr v \<and> exp_row v = x) \<longleftrightarrow>
    x \<in> set (db_experiments d) \<and> ex_environment_id x = eid \<and> ex_key x = key"
proof
  assume x: "x \<in> set (db_experiments d) \<and> ex_environment_id x = eid \<and> ex_key x = key"
  then obtain v where v: "find_experiment eid key d = Inr v"
    using find_experiment_present [OF db_invD(2) [OF assms]] by blast
  have "inj_on (\<lambda>x. (ex_environment_id x, ex_key x)) (set (db_experiments d))"
    using db_invD(1) [OF assms] by (simp add: keys_unique_def distinct_map)
  then have "exp_row v = x"
    by (rule inj_onD) (use x find_experiment_Inr [OF v] in auto)
  with v show "\<exists>v. find_experiment eid key d = Inr v \<and> exp_row v = x" by blast
qed (use find_experiment_Inr in blast)

lemma experiments_inv:
  assumes "db_inv d" and "distinct (map ex_id xs)"
    and "distinct (map (\<lambda>x. (ex_environment_id x, ex_key x)) xs)"
    and "ex_environment_id ` set xs \<subseteq> en_id ` set (db_environments d)"
    and "ex_flag_id ` set xs \<subseteq> fl_id ` set (db_flags d)"
    and "ct_experiment_id ` set cs \<subseteq> ex_id ` set xs"
  shows "db_inv (d\<lparr>db_experiments := xs, db_counters := cs\<rparr>)"
  using assms by (simp add: db_inv_def keys_unique_def references_hold_def configured_everywhere_def)

lemma create_experiment_eq:
  assumes "create_experiment i now eid fid key name desc metric control d = (r, d')"
  shows "d' = d \<and> (\<exists>e. r = Inl e) \<or>
    (\<exists>x. d' = notify [eid] (d\<lparr>db_experiments := db_experiments d @ [x]\<rparr>) \<and>
       ex_id x = i \<and> ex_environment_id x = eid \<and> ex_flag_id x = fid \<and> ex_key x = key \<and> ex_state x = Draft \<and>
       i \<notin> ex_id ` set (db_experiments d) \<and>
       (eid, key) \<notin> (\<lambda>x. (ex_environment_id x, ex_key x)) ` set (db_experiments d) \<and>
       eid \<in> en_id ` set (db_environments d) \<and> fid \<in> fl_id ` set (db_flags d))"
  using assms
  by (auto simp: create_experiment_def Let_def constraints_def split: sum.splits if_splits)

lemma create_experiment_inv:
  assumes "db_inv d" and "create_experiment i now eid fid key name desc metric control d = (r, d')"
  shows "db_inv d'"
proof -
  note u = db_invD(1) [OF assms(1)] and rf = references_holdD [OF db_invD(2) [OF assms(1)]]
  have "db_inv (d\<lparr>db_experiments := db_experiments d @ [x]\<rparr>)"
    if "ex_id x \<notin> ex_id ` set (db_experiments d)"
      "(ex_environment_id x, ex_key x) \<notin> (\<lambda>x. (ex_environment_id x, ex_key x)) ` set (db_experiments d)"
      "ex_environment_id x \<in> en_id ` set (db_environments d)" "ex_flag_id x \<in> fl_id ` set (db_flags d)" for x
    using experiments_inv [OF assms(1), of "db_experiments d @ [x]" "db_counters d"] u rf(6-8) that
    by (simp add: keys_unique_def subset_insertI2)
  then show ?thesis using create_experiment_eq [OF assms(2)] assms(1) by auto
qed

text \<open>An update that leaves the identifying columns alone keeps the invariant.\<close>

lemma update_experiments_inv:
  assumes "db_inv d"
    and "\<And>x. ex_id (f x) = ex_id x \<and> ex_environment_id (f x) = ex_environment_id x \<and>
           ex_key (f x) = ex_key x \<and> ex_flag_id (f x) = ex_flag_id x"
  shows "db_inv (update_experiments now cond f d)"
proof -
  have "same_keys d (update_experiments now cond f d)"
    using assms(2) references_holdD(8) [OF db_invD(2) [OF assms(1)]]
    by (simp add: same_keys_def update_experiments_def touch_experiment_def)
  then show ?thesis using assms(1) by (rule same_keys_inv)
qed

lemma update_experiment_inv:
  "db_inv d \<Longrightarrow> update_experiment now eid key name desc d = (r, d') \<Longrightarrow> db_inv d'"
  by (auto simp: update_experiment_def Let_def split: if_splits intro!: update_experiments_inv)

lemma transition_inv:
  "db_inv d \<Longrightarrow> transition now eid key src tgt d = (r, d') \<Longrightarrow> db_inv d'"
  by (auto simp: transition_def Let_def split: if_splits intro!: update_experiments_inv)

lemma backdate_start_inv:
  "db_inv d \<Longrightarrow> backdate_start now eid key t d = Inr d' \<Longrightarrow> db_inv d'"
  by (auto simp: backdate_start_def Let_def split: if_splits intro!: update_experiments_inv)

lemma delete_experiment_eq:
  assumes "delete_experiment eid key d = Inr d'"
  defines "gone \<equiv> \<lambda>x. ex_environment_id x = eid \<and> ex_key x = key \<and> ex_state x \<noteq> Running"
  shows "\<exists>es. d' = notify es (d\<lparr>db_experiments := filter (\<lambda>x. \<not> gone x) (db_experiments d),
     db_counters := filter (\<lambda>c. ct_experiment_id c \<notin> ex_id ` set (filter gone (db_experiments d))) (db_counters d)\<rparr>)"
  using assms(1) unfolding delete_experiment_def gone_def
  by (auto simp: Let_def and_then_Inr split: if_splits)

lemma delete_experiment_inv:
  assumes "db_inv d" and "delete_experiment eid key d = Inr d'"
  shows "db_inv d'"
proof -
  let ?gone = "\<lambda>x. ex_environment_id x = eid \<and> ex_key x = key \<and> ex_state x \<noteq> Running"
  note u = db_invD(1) [OF assms(1)] and r = references_holdD [OF db_invD(2) [OF assms(1)]]
  obtain es where d': "d' = notify es (d\<lparr>db_experiments := filter (\<lambda>x. \<not> ?gone x) (db_experiments d),
     db_counters := filter (\<lambda>c. ct_experiment_id c \<notin> ex_id ` set (filter ?gone (db_experiments d))) (db_counters d)\<rparr>)"
    using delete_experiment_eq [OF assms(2)] by blast
  have "db_inv (d\<lparr>db_experiments := filter (\<lambda>x. \<not> ?gone x) (db_experiments d),
     db_counters := filter (\<lambda>c. ct_experiment_id c \<notin> ex_id ` set (filter ?gone (db_experiments d))) (db_counters d)\<rparr>)"
  proof (rule experiments_inv [OF assms(1)])
    show "distinct (map ex_id (filter (\<lambda>x. \<not> ?gone x) (db_experiments d)))"
      using u by (simp add: keys_unique_def distinct_map_filter)
    show "distinct (map (\<lambda>x. (ex_environment_id x, ex_key x)) (filter (\<lambda>x. \<not> ?gone x) (db_experiments d)))"
      using u by (simp add: keys_unique_def distinct_map_filter)
  qed (rule image_filter_subset [OF r(6)], rule image_filter_subset [OF r(7)], rule image_filter_kept [OF r(8)])
  then show ?thesis by (simp add: d')
qed

section \<open>Counting\<close>

definition counter_value :: "counter_row list \<Rightarrow> counter_cell \<Rightarrow> int" where
  "counter_value cs cell = sum_list (map ct_count (filter (\<lambda>c. counter_cell_of c = cell) cs))"

lemma counter_value_simps [simp]:
  "counter_value [] cell = 0"
  "counter_value (c # cs) cell = (if counter_cell_of c = cell then ct_count c else 0) + counter_value cs cell"
  "counter_value (as @ bs) cell = counter_value as cell + counter_value bs cell"
  by (simp_all add: counter_value_def)

lemma counter_value_absent: "cell \<notin> counter_cell_of ` set cs \<Longrightarrow> counter_value cs cell = 0"
  by (induction cs) auto

lemma counter_cell_count [simp]: "counter_cell_of (c\<lparr>ct_count := n\<rparr>) = counter_cell_of c"
  by (simp add: counter_cell_of_def)

lemma upsert_counter_cells:
  "map counter_cell_of (upsert_counter r cs) =
     (if counter_cell_of r \<in> counter_cell_of ` set cs then map counter_cell_of cs
      else map counter_cell_of cs @ [counter_cell_of r])"
  by (auto simp: upsert_counter_def list_ex_iff intro: rev_image_eqI)

lemma upsert_counter_distinct:
  "distinct (map counter_cell_of cs) \<Longrightarrow> distinct (map counter_cell_of (upsert_counter r cs))"
  unfolding upsert_counter_cells by (simp only: distinct_append split: if_split) auto

lemma counter_value_bump:
  "distinct (map counter_cell_of cs) \<Longrightarrow>
     counter_value (map (\<lambda>c. if counter_cell_of c = k then c\<lparr>ct_count := ct_count c + n\<rparr> else c) cs) cell =
     counter_value cs cell + (if cell = k \<and> k \<in> counter_cell_of ` set cs then n else 0)"
  by (induction cs) auto

lemma counter_value_upsert:
  "distinct (map counter_cell_of cs) \<Longrightarrow>
     counter_value (upsert_counter r cs) cell = counter_value cs cell + counter_value [r] cell"
  by (auto simp: upsert_counter_def counter_value_bump list_ex_iff)

lemma fold_upsert_counter:
  "distinct (map counter_cell_of cs) \<Longrightarrow>
     distinct (map counter_cell_of (fold upsert_counter rs cs)) \<and>
     counter_value (fold upsert_counter rs cs) cell = counter_value cs cell + counter_value rs cell"
  by (induction rs arbitrary: cs) (simp_all add: upsert_counter_distinct counter_value_upsert)

lemma proposed_cell_absent:
  "i \<notin> ex_id ` set xs \<Longrightarrow>
     counter_value (map (\<lambda>x. \<lparr>ct_experiment_id = ex_id x, ct_variant = v', ct_kind = k', ct_hour = h', ct_count = n\<rparr>)
       (filter Q xs)) (i, v, k, h) = 0"
  by (rule counter_value_absent) (auto simp: counter_cell_of_def)

lemma proposed_cell:
  "distinct (map ex_id xs) \<Longrightarrow> x \<in> set xs \<Longrightarrow>
     counter_value (map (\<lambda>x. \<lparr>ct_experiment_id = ex_id x, ct_variant = v', ct_kind = k', ct_hour = h', ct_count = n\<rparr>)
       (filter Q xs)) (ex_id x, v, k, h) = (if Q x \<and> (v', k', h') = (v, k, h) then n else 0)"
proof (induction xs)
  case (Cons y ys)
  show ?case
  proof (cases "y = x")
    case True
    with Cons.prems(1) have "ex_id x \<notin> ex_id ` set ys" by auto
    with True show ?thesis by (auto simp: proposed_cell_absent counter_cell_of_def)
  next
    case False
    with Cons.prems have "x \<in> set ys" "ex_id y \<noteq> ex_id x" by auto
    with Cons.IH Cons.prems(1) show ?thesis by (auto simp: counter_cell_of_def)
  qed
qed simp

lemma proposed_value:
  assumes "keys_unique d" and "x \<in> set (db_experiments d)" and "distinct (map fst cells)"
  shows "counter_value (proposed_counters eid d cells) (ex_id x, v, k, h) =
    (if ex_environment_id x = eid \<and> ex_state x = Running
     then unwrap_or (map_of cells (ex_key x, v, k, h)) 0 else 0)"
  using assms(3)
proof (induction cells)
  case (Cons c cells)
  obtain key v' k' h' n where c: "c = ((key, v', k', h'), n)" by (cases c) auto
  have "distinct (map ex_id (db_experiments d))" using assms(1) by (simp add: keys_unique_def)
  note head = proposed_cell [OF this assms(2), of v' k' h' n
      "\<lambda>x. ex_environment_id x = eid \<and> ex_key x = key \<and> ex_state x = Running" v k h]
  have "counter_value (proposed_counters eid d (c # cells)) (ex_id x, v, k, h) =
      (if ex_environment_id x = eid \<and> ex_key x = key \<and> ex_state x = Running \<and> (v', k', h') = (v, k, h)
       then n else 0) + counter_value (proposed_counters eid d cells) (ex_id x, v, k, h)"
    unfolding proposed_counters_def c
    by (simp only: list.map concat.simps counter_value_simps prod.case head) auto
  moreover have "map_of cells (key, v', k', h') = None"
    using Cons.prems by (simp add: c map_of_eq_None_iff)
  ultimately show ?case
    using Cons.IH Cons.prems by (auto simp: c unwrap_or_def)
qed (simp add: proposed_counters_def unwrap_or_def)

text \<open>What a batch contributes to a cell.\<close>

definition batch_sum_of ::
  "(int \<Rightarrow> int option) \<Rightarrow> counter_delta list \<Rightarrow> string \<Rightarrow> string \<Rightarrow> counter_kind \<Rightarrow> int \<Rightarrow> int" where
  "batch_sum_of trunc deltas key variant kind hour =
     sum_list (map (\<lambda>a. uint (cd_count a)) (filter (\<lambda>a. cd_experiment_key a = key \<and>
       cd_variant a = variant \<and> cd_kind a = kind \<and> trunc (cd_at a) = Some hour) deltas))"

lemma collapse_Inr:
  assumes "collapse trunc deltas cells = Inr cells'" and "distinct (map fst cells)"
  shows "distinct (map fst cells') \<and>
    unwrap_or (map_of cells' (key, v, k, h)) 0 =
      unwrap_or (map_of cells (key, v, k, h)) 0 + batch_sum_of trunc deltas key v k h"
  using assms
proof (induction deltas arbitrary: cells)
  case (Cons a deltas)
  obtain hour where hour: "trunc (cd_at a) = Some hour"
    and rest: "collapse trunc deltas (AList.update (delta_cell_of a hour)
      (unwrap_or (map_of cells (delta_cell_of a hour)) 0 + uint (cd_count a)) cells) = Inr cells'"
    using Cons.prems(1) by (auto simp: Let_def split: option.splits)
  from Cons.IH [OF rest] Cons.prems(2) hour show ?case
    by (auto simp: distinct_update update_conv delta_cell_of_def batch_sum_of_def unwrap_or_def)
qed (simp add: batch_sum_of_def)

lemma collapse_total:
  "\<forall>a \<in> set deltas. trunc (cd_at a) \<noteq> None \<Longrightarrow> \<exists>cells'. collapse trunc deltas cells = Inr cells'"
  by (induction deltas arbitrary: cells) (auto simp: Let_def)

lemma ingest_Inr:
  assumes "ingest_counters trunc eid deltas d = Inr (n, d')"
  obtains cells where "collapse trunc deltas [] = Inr cells"
    and "d' = d\<lparr>db_counters := fold upsert_counter (proposed_counters eid d cells) (db_counters d)\<rparr>"
    and "\<forall>c \<in> set (db_counters d'). ct_count c < 2 ^ 63"
    and "n = length (proposed_counters eid d cells)"
  using assms by (auto simp: ingest_counters_def and_then_Inr Let_def list_ex_iff not_le split: if_splits)

lemma fold_upsert_cells:
  "counter_cell_of ` set (fold upsert_counter rs cs) = counter_cell_of ` set cs \<union> counter_cell_of ` set rs"
proof (induction rs arbitrary: cs)
  case (Cons r rs)
  have "counter_cell_of ` set (upsert_counter r cs) = insert (counter_cell_of r) (counter_cell_of ` set cs)"
    unfolding set_map [symmetric] upsert_counter_cells by auto
  with Cons show ?case by auto
qed simp

lemma fold_upsert_nonneg:
  "\<forall>c \<in> set cs. 0 \<le> ct_count c \<Longrightarrow> \<forall>r \<in> set rs. 0 \<le> ct_count r \<Longrightarrow>
     \<forall>c \<in> set (fold upsert_counter rs cs). 0 \<le> ct_count c"
proof (induction rs arbitrary: cs)
  case (Cons r rs)
  have "\<forall>c \<in> set (upsert_counter r cs). 0 \<le> ct_count c"
    using Cons.prems by (auto simp: upsert_counter_def)
  with Cons show ?case by simp
qed simp

lemma batch_sum_nonneg: "0 \<le> batch_sum_of trunc deltas key v k h"
  unfolding batch_sum_of_def by (rule sum_list_nonneg) auto

lemma proposed_nonneg:
  assumes "collapse trunc deltas [] = Inr cells" and "r \<in> set (proposed_counters eid d cells)"
  shows "0 \<le> ct_count r"
proof -
  obtain key v k h where r: "((key, v, k, h), ct_count r) \<in> set cells"
    using assms(2) by (auto simp: proposed_counters_def)
  have c: "distinct (map fst cells)" "unwrap_or (map_of cells (key, v, k, h)) 0 = batch_sum_of trunc deltas key v k h"
    using collapse_Inr [OF assms(1), of key v k h] by (simp_all add: unwrap_or_def)
  from c(1) r have "map_of cells (key, v, k, h) = Some (ct_count r)" by simp
  with c(2) show ?thesis using batch_sum_nonneg by (simp add: unwrap_or_def)
qed

lemma ingest_inv:
  assumes "db_inv d" and "ingest_counters trunc eid deltas d = Inr (n, d')"
  shows "db_inv d'"
proof -
  obtain cells where d': "d' = d\<lparr>db_counters := fold upsert_counter (proposed_counters eid d cells) (db_counters d)\<rparr>"
    using ingest_Inr [OF assms(2)] by metis
  have ids: "ct_experiment_id ` set cs = fst ` counter_cell_of ` set cs" for cs
    by (simp add: counter_cell_of_def image_image)
  have "ct_experiment_id ` set (proposed_counters eid d cells) \<subseteq> ex_id ` set (db_experiments d)"
    by (auto simp: proposed_counters_def)
  then have "ct_experiment_id ` set (db_counters d') \<subseteq> ex_id ` set (db_experiments d)"
    using references_holdD(8) [OF db_invD(2) [OF assms(1)]]
    unfolding d' ids by (simp add: fold_upsert_cells image_Un)
  then have "same_keys d d'" by (simp add: same_keys_def d')
  then show ?thesis using assms(1) by (rule same_keys_inv)
qed

lemma ingest_counters_wf:
  assumes "counters_wf d" and "ingest_counters trunc eid deltas d = Inr (n, d')"
  shows "counters_wf d'"
proof -
  obtain cells where c: "collapse trunc deltas [] = Inr cells"
    and d': "d' = d\<lparr>db_counters := fold upsert_counter (proposed_counters eid d cells) (db_counters d)\<rparr>"
    and small: "\<forall>c \<in> set (db_counters d'). ct_count c < 2 ^ 63"
    using ingest_Inr [OF assms(2)] by metis
  have "\<forall>c \<in> set (db_counters d'). 0 \<le> ct_count c"
    unfolding d'
    by (simp, rule fold_upsert_nonneg) (use assms(1) proposed_nonneg [OF c] in \<open>auto simp: counters_wf_def\<close>)
  moreover have "distinct (map counter_cell_of (db_counters d'))"
    using assms(1) fold_upsert_counter [of "db_counters d"] by (simp add: d' counters_wf_def)
  ultimately show ?thesis using small by (simp add: counters_wf_def)
qed

lemma ingest_counter_value:
  assumes "db_inv d" and "counters_wf d" and "ingest_counters trunc eid deltas d = Inr (n, d')"
    and "x \<in> set (db_experiments d)"
  shows "counter_value (db_counters d') (ex_id x, v, k, h) =
      counter_value (db_counters d) (ex_id x, v, k, h) +
      (if ex_environment_id x = eid \<and> ex_state x = Running
       then batch_sum_of trunc deltas (ex_key x) v k h else 0)"
proof -
  obtain cells where c: "collapse trunc deltas [] = Inr cells"
    and d': "d' = d\<lparr>db_counters := fold upsert_counter (proposed_counters eid d cells) (db_counters d)\<rparr>"
    using ingest_Inr [OF assms(3)] by metis
  have cells: "distinct (map fst cells)"
    "unwrap_or (map_of cells (ex_key x, v, k, h)) 0 = batch_sum_of trunc deltas (ex_key x) v k h"
    using collapse_Inr [OF c, of "ex_key x" v k h] by (simp_all add: unwrap_or_def)
  have "counter_value (db_counters d') (ex_id x, v, k, h) =
      counter_value (db_counters d) (ex_id x, v, k, h) +
      counter_value (proposed_counters eid d cells) (ex_id x, v, k, h)"
    using fold_upsert_counter assms(2) by (simp add: d' counters_wf_def)
  then show ?thesis
    using proposed_value [OF db_invD(1) [OF assms(1)] assms(4) cells(1), of eid v k h] cells(2) by simp
qed

section \<open>Properties\<close>

text \<open>
  C16. Ingesting a batch is exactly counting its deltas one by one: an accepted batch raises
  each counter of a running experiment of the environment by the sum of the counts of the
  deltas that name its experiment, variant, kind and hour, raises no counter of any other
  experiment, and touches no other table. It is accepted whenever every timestamp has an hour
  and no counter would leave its range, so nothing is lost or counted twice by collapsing.
\<close>

theorem ingest_adds_deltas:
  assumes "db_inv d" and "counters_wf d" and "ingest_counters trunc eid deltas d = Inr (n, d')"
    and "x \<in> set (db_experiments d)"
  shows "counter_value (db_counters d') (ex_id x, v, k, h) =
      counter_value (db_counters d) (ex_id x, v, k, h) +
      (if ex_environment_id x = eid \<and> ex_state x = Running
       then batch_sum_of trunc deltas (ex_key x) v k h else 0) \<and>
    d' = d\<lparr>db_counters := db_counters d'\<rparr> \<and> counters_wf d'"
  by (rule ingest_Inr [OF assms(3)]) (use ingest_counter_value [OF assms] ingest_counters_wf [OF assms(2,3)] in simp)

text \<open>A running experiment on the demonstration flag.\<close>

definition demo_experiment_db :: db where
  "demo_experiment_db = demo_db\<lparr>db_experiments :=
     [\<lparr>ex_id = 8, ex_environment_id = 3, ex_flag_id = 4, ex_key = ''exp'', ex_name = ''Exp'',
       ex_description = None, ex_metric_key = ''buy'', ex_control_variant = ''off'', ex_state = Running,
       ex_started_at = Some 0, ex_stopped_at = None, ex_version = 2, ex_created_at = 0, ex_updated_at = 0\<rparr>]\<rparr>"

definition demo_deltas :: "counter_delta list" where
  "demo_deltas =
     [\<lparr>cd_experiment_key = ''exp'', cd_variant = ''on'', cd_kind = CExposure, cd_at = 10, cd_count = 3\<rparr>,
      \<lparr>cd_experiment_key = ''exp'', cd_variant = ''on'', cd_kind = CExposure, cd_at = 20, cd_count = 4\<rparr>]"

lemma demo_experiment_db_inv: "db_inv demo_experiment_db" "counters_wf demo_experiment_db"
  by (simp_all add: integrity_defs counters_wf_def demo_experiment_db_def demo_db_def db_empty_def)

theorem ingest_adds_deltas_witness:
  "\<exists>n d'. ingest_counters (\<lambda>_. Some 0) 3 demo_deltas demo_experiment_db = Inr (n, d') \<and>
     counter_value (db_counters d') (8, ''on'', CExposure, 0) = 7"
proof -
  obtain n d' where run: "ingest_counters (\<lambda>_. Some 0) 3 demo_deltas demo_experiment_db = Inr (n, d')"
    by (simp add: ingest_counters_def demo_deltas_def delta_cell_of_def proposed_counters_def
        upsert_counter_def counter_cell_of_def demo_experiment_db_def demo_db_def db_empty_def unwrap_or_def)
  then show ?thesis
    using ingest_adds_deltas [OF demo_experiment_db_inv run, of "hd (db_experiments demo_experiment_db)"
        "''on''" CExposure 0]
    by (simp add: demo_experiment_db_def demo_db_def db_empty_def demo_deltas_def batch_sum_of_def)
qed

text \<open>
  An experiment moves only along its lifecycle: a transition succeeds exactly when the
  experiment is in the source state, then the row carries the target state, a version one
  higher and the time of the move, and the same transition attempted again is refused; in any
  other state it is refused with both states named, and a missing experiment is reported as
  missing; a refusal changes nothing.
\<close>

theorem transition_outcome:
  assumes "db_inv d" and "source \<noteq> target"
  shows "(\<forall>x. x \<in> set (db_experiments d) \<and> ex_environment_id x = eid \<and> ex_key x = key \<and> ex_state x = source \<longrightarrow>
      (\<exists>v d'. transition now eid key source target d = (Inr v, d') \<and> db_inv d' \<and>
         ex_id (exp_row v) = ex_id x \<and> ex_state (exp_row v) = target \<and> ex_version (exp_row v) = ex_version x + 1 \<and>
         (target = Running \<longrightarrow> ex_started_at (exp_row v) = Some now) \<and>
         (target = Stopped \<longrightarrow> ex_stopped_at (exp_row v) = Some now) \<and>
         transition now' eid key source target d' =
           (Inl (WrongState ''experiment'' key (experiment_state_as_str target) (experiment_state_as_str source)), d'))) \<and>
    (\<forall>x. x \<in> set (db_experiments d) \<and> ex_environment_id x = eid \<and> ex_key x = key \<and> ex_state x \<noteq> source \<longrightarrow>
      transition now eid key source target d =
        (Inl (WrongState ''experiment'' key (experiment_state_as_str (ex_state x)) (experiment_state_as_str source)), d)) \<and>
    ((\<forall>x \<in> set (db_experiments d). \<not> (ex_environment_id x = eid \<and> ex_key x = key)) \<longrightarrow>
      transition now eid key source target d = (Inl (NotFound ''experiment''), d))"
proof (intro conjI allI impI, goal_cases)
  case (1 x)
  let ?f = "\<lambda>x. x\<lparr>ex_state := target,
    ex_started_at := if target = Running then Some now else ex_started_at x,
    ex_stopped_at := if target = Stopped then Some now else ex_stopped_at x\<rparr>"
  let ?here = "\<lambda>x. ex_environment_id x = eid \<and> ex_key x = key \<and> ex_state x = source"
  let ?d' = "update_experiments now ?here ?f d" and ?x' = "touch_experiment now ?f x"
  have inv: "db_inv ?d'" by (rule update_experiments_inv [OF assms(1)]) simp
  have x': "?x' \<in> set (db_experiments ?d')" "ex_environment_id ?x' = eid" "ex_key ?x' = key"
    "ex_state ?x' = target"
    using 1 by (auto simp: update_experiments_def touch_experiment_def)
  then obtain v where v: "find_experiment eid key ?d' = Inr v" "exp_row v = ?x'"
    using find_experiment_iff [OF inv, of eid key ?x'] by blast
  moreover have run: "transition now eid key source target d = (find_experiment eid key ?d', ?d')"
    using 1 by (auto simp: transition_def Let_def list_ex_iff)
  moreover have "\<not> list_ex ?here (db_experiments ?d')"
  proof -
    have "inj_on (\<lambda>x. (ex_environment_id x, ex_key x)) (set (db_experiments ?d'))"
      using db_invD(1) [OF inv] by (simp add: keys_unique_def distinct_map)
    from inj_onD [OF this _ _ x'(1)] x' assms(2) show ?thesis by (fastforce simp: list_ex_iff)
  qed
  then have "transition now' eid key source target ?d' =
      (Inl (WrongState ''experiment'' key (experiment_state_as_str target) (experiment_state_as_str source)), ?d')"
    using v x'(4) by (simp add: transition_def Let_def)
  ultimately show ?case using inv x' by (intro exI [of _ v] exI [of _ ?d']) (simp add: touch_experiment_def)
next
  case (2 x)
  have "inj_on (\<lambda>x. (ex_environment_id x, ex_key x)) (set (db_experiments d))"
    using db_invD(1) [OF assms(1)] by (simp add: keys_unique_def distinct_map)
  then have "\<not> list_ex (\<lambda>x. ex_environment_id x = eid \<and> ex_key x = key \<and> ex_state x = source) (db_experiments d)"
    using 2 by (auto simp: list_ex_iff dest: inj_onD)
  moreover obtain v where "find_experiment eid key d = Inr v" "exp_row v = x"
    using 2 find_experiment_iff [OF assms(1), of eid key x] by blast
  ultimately show ?case by (simp add: transition_def Let_def)
next
  case 3
  then have "experiment_query (\<lambda>x. ex_environment_id x = eid \<and> ex_key x = key) d = []"
    by (auto simp: experiment_query_def filter_empty_conv)
  with 3 show ?case by (auto simp: transition_def Let_def find_experiment_def list_ex_iff)
qed

theorem transition_outcome_witness:
  "\<exists>v d'. transition 9 3 ''exp'' Running Stopped demo_experiment_db = (Inr v, d') \<and>
     ex_state (exp_row v) = Stopped \<and>
     transition 9 3 ''exp'' Running Stopped d' =
       (Inl (WrongState ''experiment'' ''exp'' ''stopped'' ''running''), d')"
  using conjunct1 [OF transition_outcome [OF demo_experiment_db_inv(1), of Running Stopped 3 "''exp''" 9 9],
      rule_format, of "hd (db_experiments demo_experiment_db)"]
  by (auto simp: demo_experiment_db_def experiment_state_as_str_def)

section \<open>Totals\<close>

definition kind_value :: "counter_kind \<Rightarrow> variant_counts \<Rightarrow> u64" where
  "kind_value k e = (case k of CExposure \<Rightarrow> vc_exposures e | CConversion \<Rightarrow> vc_conversions e)"

definition entry_value :: "variant_counts list \<Rightarrow> string \<Rightarrow> counter_kind \<Rightarrow> u64" where
  "entry_value cs v k = (case find (\<lambda>c. vc_variant c = v) cs of None \<Rightarrow> 0 | Some e \<Rightarrow> kind_value k e)"

lemma put_total_variant [simp]: "vc_variant (put_total k n e) = vc_variant e"
  by (cases k) (simp_all add: put_total_def)

lemma kind_value_put_total:
  "kind_value k (put_total k' n e) = (if k = k' then u64_try_from n else kind_value k e)"
  by (cases k; cases k') (simp_all add: kind_value_def put_total_def)

lemma entry_value_map:
  assumes "\<And>c. vc_variant (f c) = vc_variant c"
  shows "entry_value (map f cs) v k =
    (case find (\<lambda>c. vc_variant c = v) cs of None \<Rightarrow> 0 | Some e \<Rightarrow> kind_value k (f e))"
  using assms by (induction cs) (auto simp: entry_value_def)

lemma entry_value_store_total:
  "entry_value (store_total v' k' n cs) v k =
     (if (v, k) = (v', k') then u64_try_from n else entry_value cs v k)"
proof -
  let ?new = "\<lparr>vc_variant = v', vc_exposures = 0, vc_conversions = 0\<rparr>"
  let ?put = "\<lambda>c. if vc_variant c = v' then put_total k' n c else c"
  have put: "entry_value (map ?put es) v k =
      (case find (\<lambda>c. vc_variant c = v) es of None \<Rightarrow> 0 | Some e \<Rightarrow> kind_value k (?put e))" for es
    by (rule entry_value_map) simp
  have at: "vc_variant e = v" if "find (\<lambda>c. vc_variant c = v) es = Some e" for e es
    using that by (auto simp: find_Some_iff)
  show ?thesis
  proof (cases "list_ex (\<lambda>c. vc_variant c = v') cs")
    case True
    then have some: "find (\<lambda>c. vc_variant c = v') cs \<noteq> None" by (auto simp: find_None_iff list_ex_iff)
    have "entry_value (store_total v' k' n cs) v k = entry_value (map ?put cs) v k"
      using True by (simp add: store_total_def)
    also have "\<dots> = (if (v, k) = (v', k') then u64_try_from n else entry_value cs v k)"
    proof (cases "find (\<lambda>c. vc_variant c = v) cs")
      case None
      then have "v \<noteq> v'" using some by blast
      then show ?thesis unfolding put None by (simp add: entry_value_def None)
    next
      case (Some e)
      then show ?thesis unfolding put using at [OF Some] by (simp add: entry_value_def kind_value_put_total)
    qed
    finally show ?thesis .
  next
    case False
    then have none: "find (\<lambda>c. vc_variant c = v') cs = None" by (auto simp: find_None_iff list_ex_iff)
    have zero: "kind_value k ?new = 0" by (simp add: kind_value_def split: counter_kind.splits)
    have found: "find (\<lambda>c. vc_variant c = v) (cs @ [?new]) =
        (case find (\<lambda>c. vc_variant c = v) cs of None \<Rightarrow> if v = v' then Some ?new else None | Some e \<Rightarrow> Some e)"
      by (induction cs) auto
    have "entry_value (store_total v' k' n cs) v k = entry_value (map ?put (cs @ [?new])) v k"
      using False by (simp add: store_total_def)
    also have "\<dots> = (if (v, k) = (v', k') then u64_try_from n else entry_value cs v k)"
    proof (cases "find (\<lambda>c. vc_variant c = v) cs")
      case None
      then show ?thesis unfolding put found by (simp add: entry_value_def kind_value_put_total zero)
    next
      case (Some e)
      then have "v \<noteq> v'" using none by auto
      then show ?thesis unfolding put found using Some at [OF Some] by (simp add: entry_value_def)
    qed
    finally show ?thesis .
  qed
qed

lemma store_total_variants:
  "map vc_variant (store_total v k n cs) =
     (if v \<in> vc_variant ` set cs then map vc_variant cs else map vc_variant cs @ [v])"
  by (auto simp: store_total_def Let_def list_ex_iff intro: rev_image_eqI)

lemma collect_totals_value:
  "distinct (map (\<lambda>(v, k, n). (v, k)) rows) \<Longrightarrow>
     entry_value (collect_totals rows acc) v k =
       (case map_of (map (\<lambda>(v, k, n). ((v, k), n)) rows) (v, k) of
          Some n \<Rightarrow> u64_try_from n | None \<Rightarrow> entry_value acc v k)"
proof (induction rows acc rule: collect_totals.induct)
  case (2 v' k' n rows acc)
  have "map_of (map (\<lambda>(v, k, n). ((v, k), n)) rows) (v', k') = None"
    using 2(2) by (force simp: map_of_eq_None_iff)
  then show ?case using 2 by (simp add: entry_value_store_total split: option.splits)
qed simp

lemma collect_totals_variants:
  "distinct (map vc_variant acc) \<Longrightarrow> sorted (map vc_variant acc @ map fst rows) \<Longrightarrow>
     distinct (map vc_variant (collect_totals rows acc)) \<and> sorted (map vc_variant (collect_totals rows acc)) \<and>
     vc_variant ` set (collect_totals rows acc) = vc_variant ` set acc \<union> fst ` set rows"
proof (induction rows acc rule: collect_totals.induct)
  case (2 v' k' n rows acc)
  have "vc_variant ` set (store_total v' k' n acc) = insert v' (vc_variant ` set acc)"
    using arg_cong [OF store_total_variants [of v' k' n acc], of set] by (auto split: if_splits)
  moreover have "distinct (map vc_variant (store_total v' k' n acc))"
    "sorted (map vc_variant (store_total v' k' n acc) @ map fst rows)"
    unfolding store_total_variants using 2(2,3) by (auto simp: sorted_append)
  ultimately show ?case using 2(1) by simp
qed simp

lemma counter_totals_rows:
  "distinct (map (\<lambda>(v, k, n). (v, k)) (counter_totals i d))"
  "sorted (map fst (counter_totals i d))"
  "(v, k, n) \<in> set (counter_totals i d) \<longleftrightarrow>
     (\<exists>c \<in> set (db_counters d). ct_experiment_id c = i \<and> ct_variant c = v \<and> ct_kind c = k) \<and>
     n = sum_list (map ct_count (filter (\<lambda>c. ct_experiment_id c = i \<and> ct_variant c = v \<and> ct_kind c = k) (db_counters d)))"
proof -
  have resort: "distinct (map g (sort_key f xs)) = distinct (map g xs)" for g :: "'b \<Rightarrow> 'c" and f :: "'b \<Rightarrow> 'd::linorder" and xs
    by (simp add: distinct_map)
  show "distinct (map (\<lambda>(v, k, n). (v, k)) (counter_totals i d))"
    by (simp add: counter_totals_def Let_def resort comp_def split_def)
  show "sorted (map fst (counter_totals i d))"
    by (simp add: counter_totals_def Let_def)
  show "(v, k, n) \<in> set (counter_totals i d) \<longleftrightarrow>
     (\<exists>c \<in> set (db_counters d). ct_experiment_id c = i \<and> ct_variant c = v \<and> ct_kind c = k) \<and>
     n = sum_list (map ct_count (filter (\<lambda>c. ct_experiment_id c = i \<and> ct_variant c = v \<and> ct_kind c = k) (db_counters d)))"
    by (auto simp: counter_totals_def Let_def image_iff conj_ac)
qed

definition variant_total :: "db \<Rightarrow> uuid \<Rightarrow> string \<Rightarrow> counter_kind \<Rightarrow> int" where
  "variant_total d i v k = sum_list (map ct_count
     (filter (\<lambda>c. ct_experiment_id c = i \<and> ct_variant c = v \<and> ct_kind c = k) (db_counters d)))"

text \<open>
  The results view reads exactly what was counted: the totals list each variant that has a
  counter once, in order, and report for it the sums over all hours of its exposures and of
  its conversions.
\<close>

theorem experiment_counts_exact:
  assumes "counters_wf d" and "experiment_counts i d = Inr cs"
  shows "distinct (map vc_variant cs) \<and> sorted (map vc_variant cs) \<and>
    vc_variant ` set cs = ct_variant ` {c \<in> set (db_counters d). ct_experiment_id c = i} \<and>
    (\<forall>e \<in> set cs. uint (vc_exposures e) = variant_total d i (vc_variant e) CExposure \<and>
       uint (vc_conversions e) = variant_total d i (vc_variant e) CConversion)"
proof -
  let ?rows = "counter_totals i d"
  have cs: "cs = collect_totals ?rows []" and small: "\<And>v k n. (v, k, n) \<in> set ?rows \<Longrightarrow> n < 2 ^ 63"
    using assms(2) by (auto simp: experiment_counts_def Let_def list_ex_iff split: if_splits)
  have vs: "distinct (map vc_variant cs)" "sorted (map vc_variant cs)" "vc_variant ` set cs = fst ` set ?rows"
    using collect_totals_variants [of "[]" ?rows] counter_totals_rows(2) [of i d] by (simp_all add: cs)
  have val: "uint (entry_value cs v k) = variant_total d i v k" for v k
  proof (cases "map_of (map (\<lambda>(v, k, n). ((v, k), n)) ?rows) (v, k)")
    case None
    then have "\<not> (\<exists>c \<in> set (db_counters d). ct_experiment_id c = i \<and> ct_variant c = v \<and> ct_kind c = k)"
      using counter_totals_rows(3) [of v k _ i d] by (force simp: map_of_eq_None_iff)
    then have "variant_total d i v k = 0" by (auto simp: variant_total_def intro!: sum_list_0 filter_False)
    with None show ?thesis
      using collect_totals_value [OF counter_totals_rows(1), of i d "[]" v k]
      by (simp add: cs entry_value_def)
  next
    case (Some n)
    then have n: "(v, k, n) \<in> set ?rows" by (auto dest!: map_of_SomeD)
    then have "n = variant_total d i v k" using counter_totals_rows(3) by (simp add: variant_total_def)
    moreover have "0 \<le> variant_total d i v k"
      unfolding variant_total_def by (rule sum_list_nonneg) (use assms(1) in \<open>auto simp: counters_wf_def\<close>)
    ultimately have "uint (u64_try_from n) = variant_total d i v k"
      using small [OF n] by (simp add: u64_try_from_def unsigned_of_int take_bit_int_eq_self)
    with Some show ?thesis
      using collect_totals_value [OF counter_totals_rows(1), of i d "[]" v k] by (simp add: cs)
  qed
  have "entry_value cs (vc_variant e) k = kind_value k e" if "e \<in> set cs" for e k
  proof -
    have "find (\<lambda>c. vc_variant c = vc_variant e) cs = Some e"
      using vs(1) that by (induction cs) auto
    then show ?thesis by (simp add: entry_value_def)
  qed
  from this [of _ CExposure] this [of _ CConversion] val
  have "\<forall>e \<in> set cs. uint (vc_exposures e) = variant_total d i (vc_variant e) CExposure \<and>
       uint (vc_conversions e) = variant_total d i (vc_variant e) CConversion"
    unfolding kind_value_def by (metis counter_kind.case)
  moreover have "fst ` set ?rows = ct_variant ` {c \<in> set (db_counters d). ct_experiment_id c = i}"
    using counter_totals_rows(3) [of _ _ _ i d] by (force simp: image_iff)
  ultimately show ?thesis using vs by simp
qed

theorem experiment_counts_exact_witness:
  "\<exists>cs. experiment_counts 8 (demo_experiment_db\<lparr>db_counters :=
       [\<lparr>ct_experiment_id = 8, ct_variant = ''on'', ct_kind = CExposure, ct_hour = 0, ct_count = 3\<rparr>,
        \<lparr>ct_experiment_id = 8, ct_variant = ''on'', ct_kind = CExposure, ct_hour = 1, ct_count = 4\<rparr>]\<rparr>) = Inr cs \<and>
     (\<forall>e \<in> set cs. uint (vc_exposures e) = 7)"
proof -
  let ?d = "demo_experiment_db\<lparr>db_counters :=
       [\<lparr>ct_experiment_id = 8, ct_variant = ''on'', ct_kind = CExposure, ct_hour = 0, ct_count = 3\<rparr>,
        \<lparr>ct_experiment_id = 8, ct_variant = ''on'', ct_kind = CExposure, ct_hour = 1, ct_count = 4\<rparr>]\<rparr>"
  have wf: "counters_wf ?d" by (simp add: counters_wf_def counter_cell_of_def)
  obtain cs where run: "experiment_counts 8 ?d = Inr cs"
    by (simp add: experiment_counts_def counter_totals_def)
  have "vc_variant e = ''on''" if "e \<in> set cs" for e
  proof -
    have "vc_variant ` set cs \<subseteq> {''on''}"
      using experiment_counts_exact [OF wf run] by auto
    with that show ?thesis by blast
  qed
  then have "\<forall>e \<in> set cs. uint (vc_exposures e) = 7"
    using experiment_counts_exact [OF wf run] by (simp add: variant_total_def)
  with run show ?thesis by blast
qed

end
