(* ===== verification/Storage_Tenants.thy ===== *)
theory Storage_Tenants
  imports Storage_Experiments
begin

text \<open>
  \<^verbatim>\<open>crates/storage/src/accounts.rs\<close>, \<^verbatim>\<open>api_keys.rs\<close>, \<^verbatim>\<open>audit.rs\<close> and \<^verbatim>\<open>snapshot.rs\<close>:
  organizations and users, SDK keys, the audit trail, and the loading of an environment into
  the snapshot that evaluation runs on. Timestamps count microseconds. The Unicode lower-casing
  of the standard library and that of the database are two parameters. The sequence of audit
  identifiers advances with each recorded entry; the gaps a failed insert leaves are not kept.
\<close>

section \<open>Accounts\<close>

record case_tables =
  str_lower :: "string \<Rightarrow> string"
  sql_lower :: "string \<Rightarrow> string"

text \<open>The check on slugs: \<^verbatim>\<open>^[a-z0-9][a-z0-9-]{0,62}$\<close>.\<close>

definition slug_char :: "char \<Rightarrow> bool" where
  "slug_char c = (CHR ''a'' \<le> c \<and> c \<le> CHR ''z'' \<or> CHR ''0'' \<le> c \<and> c \<le> CHR ''9'')"

definition check_slug :: "string \<Rightarrow> bool" where
  "check_slug s =
     (case s of [] \<Rightarrow> False
      | c # cs \<Rightarrow> slug_char c \<and> list_all (\<lambda>x. slug_char x \<or> x = CHR ''-'') cs \<and> length cs \<le> 62)"

definition normal_email :: "case_tables \<Rightarrow> string \<Rightarrow> string" where
  "normal_email T email = str_lower T (str_trim email)"

text \<open>The insertion of a user; \<open>email\<close> is already normalised.\<close>

definition insert_user ::
  "case_tables \<Rightarrow> uuid \<Rightarrow> int \<Rightarrow> uuid \<Rightarrow> string \<Rightarrow> string \<Rightarrow> role \<Rightarrow> db \<Rightarrow> storage_error + user \<times> db" where
  "insert_user T new_id now organization_id email password_hash r d =
     (let row = \<lparr>usr_id = new_id, usr_organization_id = organization_id, usr_email = email, usr_role = r,
                 usr_created_at = now, usr_password_hash = password_hash\<rparr>
      in map_err (\<lambda>e. from_write e ''user'' email)
        (and_then (constraints True
             (new_id \<notin> usr_id ` set (db_users d) \<and>
              sql_lower T email \<notin> (\<lambda>u. sql_lower T (usr_email u)) ` set (db_users d))
             (organization_id \<in> org_id ` set (db_organizations d)))
           (\<lambda>_. Inr (row, d\<lparr>db_users := db_users d @ [row]\<rparr>))))"

definition create_organization_with_owner ::
  "case_tables \<Rightarrow> uuid \<Rightarrow> uuid \<Rightarrow> int \<Rightarrow> string \<Rightarrow> string \<Rightarrow> string \<Rightarrow> string \<Rightarrow> db \<Rightarrow>
     storage_error + (organization \<times> user) \<times> db" where
  "create_organization_with_owner T new_org new_user now name slug email password_hash d =
     (let row = \<lparr>org_id = new_org, org_name = name, org_slug = slug, org_created_at = now\<rparr>
      in and_then
        (map_err (\<lambda>e. from_write e ''organization'' slug)
          (and_then (constraints (check_name name \<and> check_slug slug)
              (new_org \<notin> org_id ` set (db_organizations d) \<and> slug \<notin> org_slug ` set (db_organizations d)) True)
            (\<lambda>_. Inr (d\<lparr>db_organizations := db_organizations d @ [row]\<rparr>))))
        (\<lambda>d'. and_then (insert_user T new_user now new_org (normal_email T email) password_hash Owner d')
           (\<lambda>(u, d''). Inr ((row, u), d''))))"

definition create_user ::
  "case_tables \<Rightarrow> uuid \<Rightarrow> int \<Rightarrow> uuid \<Rightarrow> string \<Rightarrow> string \<Rightarrow> role \<Rightarrow> db \<Rightarrow> storage_error + user \<times> db" where
  "create_user T new_id now organization_id email password_hash r d =
     insert_user T new_id now organization_id (normal_email T email) password_hash r d"

definition find_by_email :: "case_tables \<Rightarrow> string \<Rightarrow> db \<Rightarrow> user option" where
  "find_by_email T email d = find (\<lambda>u. sql_lower T (usr_email u) = normal_email T email) (db_users d)"

definition find_user :: "uuid \<Rightarrow> db \<Rightarrow> storage_error + user" where
  "find_user i d = or_not_found (find (\<lambda>u. usr_id u = i) (db_users d)) ''user''"

definition find_organization :: "uuid \<Rightarrow> db \<Rightarrow> storage_error + organization" where
  "find_organization i d = or_not_found (find (\<lambda>g. org_id g = i) (db_organizations d)) ''organization''"

section \<open>SDK keys\<close>

definition create_api_key ::
  "uuid \<Rightarrow> int \<Rightarrow> uuid \<Rightarrow> string \<Rightarrow> string \<Rightarrow> string \<Rightarrow> key_scope \<Rightarrow> db \<Rightarrow> storage_error + api_key \<times> db" where
  "create_api_key new_id now environment_id name hash display scope d =
     (let row = \<lparr>ak_id = new_id, ak_environment_id = environment_id, ak_name = name, ak_prefix = display,
                 ak_scope = scope, ak_created_at = now, ak_last_used_at = None, ak_revoked_at = None,
                 ak_key_hash = hash\<rparr>
      in map_err (\<lambda>e. from_write e ''api key'' name)
        (and_then (constraints (check_name name)
             (new_id \<notin> ak_id ` set (db_api_keys d) \<and> hash \<notin> ak_key_hash ` set (db_api_keys d))
             (environment_id \<in> en_id ` set (db_environments d)))
           (\<lambda>_. Inr (row, d\<lparr>db_api_keys := db_api_keys d @ [row]\<rparr>))))"

definition list_api_keys :: "uuid \<Rightarrow> db \<Rightarrow> api_key list" where
  "list_api_keys environment_id d =
     sort_key (\<lambda>k. - ak_created_at k) (filter (\<lambda>k. ak_environment_id k = environment_id) (db_api_keys d))"

definition mark_revoked :: "int \<Rightarrow> uuid \<Rightarrow> uuid \<Rightarrow> api_key \<Rightarrow> api_key" where
  "mark_revoked now environment_id i k =
     (if ak_id k = i \<and> ak_environment_id k = environment_id
      then k\<lparr>ak_revoked_at := Some (unwrap_or (ak_revoked_at k) now)\<rparr> else k)"

definition revoke_api_key :: "int \<Rightarrow> uuid \<Rightarrow> uuid \<Rightarrow> db \<Rightarrow> storage_error + db" where
  "revoke_api_key now environment_id i d =
     (if \<not> list_ex (\<lambda>k. ak_id k = i \<and> ak_environment_id k = environment_id) (db_api_keys d)
      then Inl (NotFound ''api key'')
      else Inr (d\<lparr>db_api_keys := map (mark_revoked now environment_id i) (db_api_keys d)\<rparr>))"

definition resolve_api_key :: "string \<Rightarrow> db \<Rightarrow> key_identity option" where
  "resolve_api_key hash d =
     map_option (\<lambda>(k, e, p).
         \<lparr>ki_api_key_id = ak_id k, ki_environment_id = ak_environment_id k, ki_project_id = en_project_id e,
          ki_organization_id = prj_organization_id p, ki_scope = ak_scope k\<rparr>)
       (find (\<lambda>(k, e, p). en_id e = ak_environment_id k \<and> prj_id p = en_project_id e \<and>
            ak_key_hash k = hash \<and> ak_revoked_at k = None)
          (List.product (db_api_keys d) (List.product (db_environments d) (db_projects d))))"

definition mark_used :: "int \<Rightarrow> uuid \<Rightarrow> api_key \<Rightarrow> api_key" where
  "mark_used now i k =
     (if ak_id k = i \<and> (case ak_last_used_at k of None \<Rightarrow> True | Some t \<Rightarrow> t < now - 60 * 1000000)
      then k\<lparr>ak_last_used_at := Some now\<rparr> else k)"

definition touch_api_key :: "int \<Rightarrow> uuid \<Rightarrow> db \<Rightarrow> db" where
  "touch_api_key now i d = d\<lparr>db_api_keys := map (mark_used now i) (db_api_keys d)\<rparr>"

section \<open>The audit trail\<close>

definition MAX_PAGE_SIZE :: int where
  "MAX_PAGE_SIZE = 200"

definition audit_record :: "int \<Rightarrow> new_audit_entry \<Rightarrow> db \<Rightarrow> storage_error + int \<times> db" where
  "audit_record now e d =
     (let i = db_next_audit_id d;
          row = \<lparr>au_id = i, au_actor_email = na_actor_email e, au_action = na_action e,
                 au_resource_type = na_resource_type e, au_resource_id = na_resource_id e,
                 au_environment_id = na_environment_id e, au_before = na_before e, au_after = na_after e,
                 au_created_at = now, au_organization_id = na_organization_id e,
                 au_actor_user_id = na_actor_user_id e\<rparr>
      in map_err (\<lambda>e. Database (sql_error_text e))
        (and_then (constraints True True
             (na_organization_id e \<in> org_id ` set (db_organizations d) \<and>
              (case na_actor_user_id e of None \<Rightarrow> True | Some u \<Rightarrow> u \<in> usr_id ` set (db_users d)) \<and>
              (case na_environment_id e of None \<Rightarrow> True | Some n \<Rightarrow> n \<in> en_id ` set (db_environments d))))
           (\<lambda>_. Inr (i, d\<lparr>db_audit := db_audit d @ [row], db_next_audit_id := i + 1\<rparr>))))"

definition opt_filter :: "'a option \<Rightarrow> ('a \<Rightarrow> bool) \<Rightarrow> bool" where
  "opt_filter x p = (case x of None \<Rightarrow> True | Some v \<Rightarrow> p v)"

definition clamp_limit :: "int \<Rightarrow> nat" where
  "clamp_limit limit = nat (max 1 (min MAX_PAGE_SIZE limit))"

definition audit_list ::
  "uuid \<Rightarrow> string option \<Rightarrow> string option \<Rightarrow> int option \<Rightarrow> int \<Rightarrow> db \<Rightarrow> audit_entry list" where
  "audit_list organization_id resource_type resource_id before_id limit d =
     take (clamp_limit limit)
       (sort_key (\<lambda>a. - au_id a)
         (filter (\<lambda>a. au_organization_id a = organization_id \<and>
              opt_filter resource_type (\<lambda>t. au_resource_type a = t) \<and>
              opt_filter resource_id (\<lambda>i. au_resource_id a = i) \<and>
              opt_filter before_id (\<lambda>b. au_id a < b)) (db_audit d)))"

section \<open>Loading a snapshot\<close>

definition flag_of :: "flag_row \<times> flag_config \<Rightarrow> flag" where
  "flag_of = (\<lambda>(f, c).
     \<lparr>flag_key = fl_key f, flag_variants = fl_variants f, flag_enabled = fc_enabled c,
      flag_off_variant = fc_off_variant c, flag_fallthrough = fc_fallthrough c,
      flag_rules = fc_rules c, flag_version = fc_version c\<rparr>)"

definition load :: "int \<Rightarrow> uuid \<Rightarrow> db \<Rightarrow> storage_error + environment_snapshot" where
  "load now environment_id d =
     and_then (or_not_found (find (\<lambda>e. en_id e = environment_id) (db_environments d)) ''environment'')
       (\<lambda>env. Inr (with_experiments
          (snapshot_new environment_id (en_key env) (en_salt env)
             (map flag_of (load_environment_flags environment_id d))
             (load_environment_segments environment_id d) now)
          (load_running_experiments environment_id d)))"

definition resolve_environment :: "uuid \<Rightarrow> string \<Rightarrow> string \<Rightarrow> db \<Rightarrow> storage_error + uuid" where
  "resolve_environment organization_id project_key environment_key d =
     or_not_found (map_option (\<lambda>(e, p). en_id e)
       (find (\<lambda>(e, p). prj_id p = en_project_id e \<and> prj_organization_id p = organization_id \<and>
            prj_key p = project_key \<and> en_key e = environment_key)
          (List.product (db_environments d) (db_projects d)))) ''environment''"

lemmas tenant_store_defs [model_defs] =
  slug_char_def check_slug_def normal_email_def insert_user_def create_organization_with_owner_def
  create_user_def find_by_email_def find_user_def find_organization_def create_api_key_def
  list_api_keys_def mark_revoked_def revoke_api_key_def resolve_api_key_def mark_used_def touch_api_key_def MAX_PAGE_SIZE_def
  audit_record_def opt_filter_def clamp_limit_def audit_list_def flag_of_def load_def
  resolve_environment_def

section \<open>Integrity\<close>

lemma unrelated_tables_inv [simp]:
  "db_inv (d\<lparr>db_users := us\<rparr>) = db_inv d"
  "db_inv (d\<lparr>db_organizations := gs\<rparr>) = db_inv d"
  "db_inv (d\<lparr>db_api_keys := ks\<rparr>) = db_inv d"
  "db_inv (d\<lparr>db_audit := as\<rparr>) = db_inv d"
  "db_inv (d\<lparr>db_next_audit_id := n\<rparr>) = db_inv d"
  by (simp_all add: integrity_defs)

lemma insert_user_eq:
  "insert_user T i now g email h r d = Inr (u, d') \<Longrightarrow>
     d' = d\<lparr>db_users := db_users d @ [u]\<rparr> \<and> usr_email u = email \<and> usr_organization_id u = g \<and> usr_role u = r \<and>
     usr_id u = i \<and> sql_lower T email \<notin> (\<lambda>u. sql_lower T (usr_email u)) ` set (db_users d) \<and>
     g \<in> org_id ` set (db_organizations d)"
  by (auto simp: insert_user_def Let_def and_then_Inr)

lemma create_organization_eq:
  "create_organization_with_owner T i j now name slug email h d = Inr ((g, u), d') \<Longrightarrow>
     d' = d\<lparr>db_organizations := db_organizations d @ [g], db_users := db_users d @ [u]\<rparr> \<and>
     org_id g = i \<and> org_slug g = slug \<and> usr_role u = Owner \<and> usr_organization_id u = i \<and>
     slug \<notin> org_slug ` set (db_organizations d) \<and> usr_email u = normal_email T email"
  by (auto simp: create_organization_with_owner_def Let_def and_then_Inr dest!: insert_user_eq)

lemma create_organization_inv:
  "db_inv d \<Longrightarrow> create_organization_with_owner T i j now name slug email h d = Inr (r, d') \<Longrightarrow> db_inv d'"
  by (cases r) (auto dest!: create_organization_eq)

lemma create_user_inv:
  "db_inv d \<Longrightarrow> create_user T i now g email h r d = Inr (u, d') \<Longrightarrow> db_inv d'"
  by (auto simp: create_user_def dest!: insert_user_eq)

lemma create_api_key_eq:
  "create_api_key i now eid name hash display scope d = Inr (k, d') \<Longrightarrow>
     d' = d\<lparr>db_api_keys := db_api_keys d @ [k]\<rparr> \<and> ak_key_hash k = hash \<and> ak_environment_id k = eid \<and>
     ak_scope k = scope \<and> ak_revoked_at k = None \<and> ak_id k = i \<and>
     hash \<notin> ak_key_hash ` set (db_api_keys d) \<and> i \<notin> ak_id ` set (db_api_keys d) \<and>
     eid \<in> en_id ` set (db_environments d)"
  by (auto simp: create_api_key_def Let_def and_then_Inr)

lemma create_api_key_inv:
  "db_inv d \<Longrightarrow> create_api_key i now eid name hash display scope d = Inr (k, d') \<Longrightarrow> db_inv d'"
  by (auto dest!: create_api_key_eq)

lemma revoke_api_key_inv:
  "db_inv d \<Longrightarrow> revoke_api_key now eid i d = Inr d' \<Longrightarrow> db_inv d'"
  by (auto simp: revoke_api_key_def split: if_splits)

lemma touch_api_key_inv: "db_inv d \<Longrightarrow> db_inv (touch_api_key now i d)"
  by (simp add: touch_api_key_def)

lemma audit_record_eq:
  "audit_record now e d = Inr (i, d') \<Longrightarrow>
     \<exists>a. d' = d\<lparr>db_audit := db_audit d @ [a], db_next_audit_id := i + 1\<rparr> \<and> au_id a = i \<and>
       i = db_next_audit_id d \<and> au_organization_id a = na_organization_id e"
  by (auto simp: audit_record_def Let_def and_then_Inr)

lemma audit_record_inv:
  "db_inv d \<Longrightarrow> audit_record now e d = Inr (i, d') \<Longrightarrow> db_inv d'"
  by (auto dest!: audit_record_eq)

section \<open>Pagination of the audit trail\<close>

definition audit_wf :: "db \<Rightarrow> bool" where
  "audit_wf d = (distinct (map au_id (db_audit d)) \<and> (\<forall>a \<in> set (db_audit d). au_id a < db_next_audit_id d))"

text \<open>The whole filtered log, newest first, and its page-wise reading over successive databases.\<close>

definition audit_view :: "uuid \<Rightarrow> string option \<Rightarrow> string option \<Rightarrow> db \<Rightarrow> audit_entry list" where
  "audit_view organization_id resource_type resource_id d =
     sort_key (\<lambda>a. - au_id a)
       (filter (\<lambda>a. au_organization_id a = organization_id \<and>
            opt_filter resource_type (\<lambda>t. au_resource_type a = t) \<and>
            opt_filter resource_id (\<lambda>i. au_resource_id a = i)) (db_audit d))"

fun audit_walk ::
  "uuid \<Rightarrow> string option \<Rightarrow> string option \<Rightarrow> int \<Rightarrow> int option \<Rightarrow> db list \<Rightarrow> audit_entry list" where
  "audit_walk g rt ri limit cursor [] = []"
| "audit_walk g rt ri limit cursor (d # ds) =
     (let page = audit_list g rt ri cursor limit d
      in if page = [] then [] else page @ audit_walk g rt ri limit (Some (au_id (last page))) ds)"

definition audit_grows :: "db \<Rightarrow> db \<Rightarrow> bool" where
  "audit_grows d d' =
     (\<exists>extra. db_audit d' = db_audit d @ extra \<and> (\<forall>a \<in> set extra. db_next_audit_id d \<le> au_id a))"

lemma audit_list_view:
  "audit_list g rt ri before limit d =
     take (clamp_limit limit) (filter (\<lambda>a. opt_filter before (\<lambda>b. au_id a < b)) (audit_view g rt ri d))"
  by (simp add: audit_list_def audit_view_def filter_sort conj_ac)

lemma audit_view_descending:
  assumes "audit_wf d"
  shows "sorted_wrt (>) (map au_id (audit_view g rt ri d))"
proof -
  let ?v = "audit_view g rt ri d"
  have "sorted (map (\<lambda>a. - au_id a) ?v)" by (simp add: audit_view_def)
  moreover have "distinct (map (\<lambda>a. - au_id a) ?v)"
    using assms by (auto simp: audit_wf_def audit_view_def distinct_map inj_on_def)
  ultimately have "sorted_wrt (<) (map (\<lambda>a. - au_id a) ?v)" by (simp add: strict_sorted_iff)
  then show ?thesis by (simp add: sorted_wrt_map)
qed

lemma audit_list_grows:
  assumes "audit_grows d d'" and "b \<le> db_next_audit_id d"
  shows "audit_list g rt ri (Some b) limit d' = audit_list g rt ri (Some b) limit d"
proof -
  obtain extra where "db_audit d' = db_audit d @ extra" "\<forall>a \<in> set extra. db_next_audit_id d \<le> au_id a"
    using assms(1) by (auto simp: audit_grows_def)
  then have "filter (\<lambda>a. au_organization_id a = g \<and> opt_filter rt (\<lambda>t. au_resource_type a = t) \<and>
      opt_filter ri (\<lambda>i. au_resource_id a = i) \<and> opt_filter (Some b) (\<lambda>b. au_id a < b)) (db_audit d') =
    filter (\<lambda>a. au_organization_id a = g \<and> opt_filter rt (\<lambda>t. au_resource_type a = t) \<and>
      opt_filter ri (\<lambda>i. au_resource_id a = i) \<and> opt_filter (Some b) (\<lambda>b. au_id a < b)) (db_audit d)"
    using assms(2) by (fastforce simp: opt_filter_def filter_empty_conv)
  then show ?thesis by (simp only: audit_list_def)
qed

text \<open>In a descending list, what lies below an element is what follows it.\<close>

lemma descending_below:
  "sorted_wrt (>) (map f (xs @ x # ys)) \<Longrightarrow> filter (\<lambda>a. f a < (f x :: int)) (xs @ x # ys) = ys"
  by (auto simp: sorted_wrt_append filter_empty_conv filter_id_conv)

lemma descending_cursor:
  assumes "sorted_wrt (>) (map au_id v)" and "0 < k" and "k \<le> length v"
  shows "filter (\<lambda>a. au_id a < au_id (v ! (k - Suc 0))) v = drop k v"
proof -
  have v: "v = take (k - Suc 0) v @ v ! (k - Suc 0) # drop k v"
    using assms(2,3) id_take_nth_drop [of "k - Suc 0" v] by simp
  show ?thesis using descending_below [of au_id "take (k - Suc 0) v" "v ! (k - Suc 0)" "drop k v"] assms(1) v by metis
qed

lemma last_page:
  assumes "k < length v" and "0 < l"
  shows "last (take l (drop k v)) = v ! (min (k + l) (length v) - Suc 0)"
proof -
  have "k + (min (length v - k) l - Suc 0) = min (k + l) (length v) - Suc 0"
    using assms by (auto simp: min_def)
  moreover have "last (take l (drop k v)) = v ! (k + (min (length v - k) l - Suc 0))"
    using assms by (subst last_conv_nth) auto
  ultimately show ?thesis by simp
qed

lemma clamp_limit_pos: "0 < clamp_limit limit"
  by (simp add: clamp_limit_def MAX_PAGE_SIZE_def)

lemma audit_walk_from:
  assumes "audit_wf d0" and "\<forall>d \<in> set ds. audit_grows d0 d"
    and "0 < k" and "k \<le> length (audit_view g rt ri d0)"
  shows "audit_walk g rt ri limit (Some (au_id (audit_view g rt ri d0 ! (k - Suc 0)))) ds =
    take (length ds * clamp_limit limit) (drop k (audit_view g rt ri d0))"
  using assms(2-)
proof (induction ds arbitrary: k)
  case (Cons d ds)
  let ?v = "audit_view g rt ri d0" and ?l = "clamp_limit limit"
  let ?b = "au_id (?v ! (k - Suc 0))"
  have "?v ! (k - Suc 0) \<in> set ?v" using Cons.prems(2,3) by simp
  then have b: "?b \<le> db_next_audit_id d0"
    using assms(1) by (auto simp: audit_wf_def audit_view_def intro: less_imp_le)
  have page: "audit_list g rt ri (Some ?b) limit d = take ?l (drop k ?v)"
    using audit_list_grows [OF _ b] Cons.prems(1)
      descending_cursor [OF audit_view_descending [OF assms(1)] Cons.prems(2,3)]
    by (simp add: audit_list_view opt_filter_def)
  show ?case
  proof (cases "drop k ?v = []")
    case True
    then show ?thesis by (simp add: page)
  next
    case False
    let ?p = "take ?l (drop k ?v)" and ?k = "min (k + ?l) (length ?v)"
    have p: "?p \<noteq> []" using False clamp_limit_pos [of limit] by simp
    have "last ?p = ?v ! (?k - Suc 0)"
      using False clamp_limit_pos [of limit] by (intro last_page) auto
    moreover have "?p @ take (length ds * ?l) (drop ?k ?v) = take (?l + length ds * ?l) (drop k ?v)"
    proof (cases "k + ?l \<le> length ?v")
      case True
      then show ?thesis by (simp add: take_add add.commute)
    next
      case False
      then show ?thesis by simp
    qed
    moreover have "0 < ?k" "?k \<le> length ?v" using Cons.prems(2,3) by auto
    ultimately show ?thesis using Cons.IH [of ?k] Cons.prems(1) p by (simp add: page)
  qed
qed simp

lemma audit_record_grows: "audit_record now e d = Inr (i, d') \<Longrightarrow> audit_grows d d'"
  by (auto simp: audit_grows_def dest!: audit_record_eq)

lemma audit_record_wf: "audit_wf d \<Longrightarrow> audit_record now e d = Inr (i, d') \<Longrightarrow> audit_wf d'"
  by (force simp: audit_wf_def dest!: audit_record_eq)

section \<open>Properties\<close>

text \<open>
  Reading the audit trail page by page, with the last identifier of each page as the next
  cursor, returns exactly the newest entries of the log as it was when the first page was
  read, each once and in order, even when entries are recorded between the pages; enough pages
  return all of it.
\<close>

theorem audit_pagination_stable:
  assumes "audit_wf d" and "\<forall>d' \<in> set ds. audit_grows d d'"
  shows "audit_walk g rt ri limit None (d # ds) =
    take (Suc (length ds) * clamp_limit limit) (audit_view g rt ri d)"
proof -
  let ?v = "audit_view g rt ri d" and ?l = "clamp_limit limit"
  have page: "audit_list g rt ri None limit d = take ?l ?v"
    by (simp add: audit_list_view opt_filter_def)
  show ?thesis
  proof (cases "?v = []")
    case True
    then show ?thesis by (simp add: page)
  next
    case False
    let ?k = "min ?l (length ?v)"
    have p: "take ?l ?v \<noteq> []" and k: "0 < ?k" "?k \<le> length ?v"
      using False clamp_limit_pos [of limit] by auto
    have "last (take ?l ?v) = ?v ! (?k - Suc 0)"
      using p by (subst last_conv_nth) (auto simp: min_def)
    moreover have "take ?l ?v @ take (length ds * ?l) (drop ?k ?v) = take (?l + length ds * ?l) ?v"
      by (cases "?l \<le> length ?v") (simp_all add: take_add min_def)
    ultimately show ?thesis
      using audit_walk_from [OF assms k] p by (simp add: page)
  qed
qed

definition demo_audit_db :: db where
  "demo_audit_db = demo_db\<lparr>db_audit := map (\<lambda>i. \<lparr>au_id = i, au_actor_email = ''a'', au_action = ''create'',
     au_resource_type = ''flag'', au_resource_id = ''f'', au_environment_id = None, au_before = None,
     au_after = None, au_created_at = 0, au_organization_id = 1, au_actor_user_id = None\<rparr>) [1, 2, 3],
     db_next_audit_id := 4\<rparr>"

theorem audit_pagination_stable_witness:
  "map au_id (audit_walk 1 None None 2 None [demo_audit_db, demo_audit_db]) = [3, 2, 1]"
proof -
  have "audit_wf demo_audit_db" "\<forall>d' \<in> set [demo_audit_db]. audit_grows demo_audit_db d'"
    by (simp_all add: audit_wf_def audit_grows_def demo_audit_db_def)
  note walk = audit_pagination_stable [OF this, of 1 None None 2]
  show ?thesis
    unfolding walk
    by (simp add: clamp_limit_def MAX_PAGE_SIZE_def audit_view_def opt_filter_def demo_audit_db_def)
qed

section \<open>What a snapshot serves\<close>

text \<open>A configuration joins a flag and an environment of the same project.\<close>

definition configs_local :: "db \<Rightarrow> bool" where
  "configs_local d =
     (\<forall>c \<in> set (db_configs d). \<forall>f \<in> set (db_flags d). \<forall>e \<in> set (db_environments d).
        fc_flag_id c = fl_id f \<and> fc_environment_id c = en_id e \<longrightarrow> fl_project_id f = en_project_id e)"

lemma map_of_rev_distinct:
  "distinct (map fst kvs) \<Longrightarrow> map_of (rev kvs) k = Some v \<longleftrightarrow> (k, v) \<in> set kvs"
proof -
  assume "distinct (map fst kvs)"
  then have "distinct (map fst (rev kvs))" by (simp add: rev_map [symmetric])
  then show ?thesis by simp
qed

lemma snapshot_get_iff:
  assumes "distinct (map flag_key fs)"
  shows "snapshot_get (with_experiments (snapshot_new i ek salt fs ss t) xs) k = Some f \<longleftrightarrow>
    f \<in> set fs \<and> flag_key f = k"
proof -
  have "distinct (map fst (map (\<lambda>f. (flag_key f, f)) fs))" using assms by (simp add: comp_def)
  from map_of_rev_distinct [OF this, of k f] show ?thesis
    by (auto simp: snapshot_get_def with_experiments_def snapshot_new_def Let_def bt_get_collect)
qed

lemma snapshot_segment_iff:
  assumes "distinct (map seg_key ss)"
  shows "snapshot_segment (with_experiments (snapshot_new i ek salt fs ss t) xs) k = Some s \<longleftrightarrow>
    s \<in> set ss \<and> seg_key s = k"
proof -
  have "distinct (map fst (map (\<lambda>s. (seg_key s, s)) ss))" using assms by (simp add: comp_def)
  from map_of_rev_distinct [OF this, of k s] show ?thesis
    by (auto simp: snapshot_segment_def with_experiments_def snapshot_new_def Let_def bt_get_collect)
qed

lemma load_environment_flags_set:
  "set (load_environment_flags eid d) =
     {(f, c). f \<in> set (db_flags d) \<and> c \<in> set (db_configs d) \<and> fc_flag_id c = fl_id f \<and>
        fc_environment_id c = eid \<and> \<not> fl_archived f}"
  by (auto simp: load_environment_flags_def)

lemma load_environment_flags_keys:
  assumes "db_inv d" and "configs_local d" and "e \<in> set (db_environments d)"
  shows "distinct (map (\<lambda>p. fl_key (fst p)) (load_environment_flags (en_id e) d))"
proof -
  let ?ps = "load_environment_flags (en_id e) d"
  note u = db_invD(1) [OF assms(1), unfolded keys_unique_def]
  have "p = q" if p: "p \<in> set ?ps" and q: "q \<in> set ?ps" and k: "fl_key (fst p) = fl_key (fst q)" for p q
  proof -
    obtain f c g b where pq: "p = (f, c)" "q = (g, b)" by (cases p, cases q)
    have f: "f \<in> set (db_flags d)" "c \<in> set (db_configs d)" "fc_flag_id c = fl_id f" "fc_environment_id c = en_id e"
      and g: "g \<in> set (db_flags d)" "b \<in> set (db_configs d)" "fc_flag_id b = fl_id g" "fc_environment_id b = en_id e"
      using p q by (simp_all add: pq load_environment_flags_set)
    have "fl_project_id f = en_project_id e" "fl_project_id g = en_project_id e"
      using assms(2,3) f g unfolding configs_local_def by blast+
    then have "f = g"
      using k pq u by (intro unique_by [OF _ f(1) g(1), of "\<lambda>f. (fl_project_id f, fl_key f)"]) simp_all
    moreover from this have "c = b"
      using f g u by (intro unique_by [OF _ f(2) g(2), of "\<lambda>c. (fc_flag_id c, fc_environment_id c)"]) simp_all
    ultimately show ?thesis by (simp add: pq)
  qed
  moreover have "distinct ?ps"
  proof -
    have "distinct (db_flags d)" "distinct (db_configs d)" using u by (simp_all add: distinct_map)
    then show ?thesis by (simp add: load_environment_flags_def distinct_product)
  qed
  ultimately show ?thesis by (auto simp: distinct_map inj_on_def)
qed

lemma load_environment_segments_keys:
  assumes "keys_unique d"
  shows "distinct (map seg_key (load_environment_segments eid d))"
proof -
  have "distinct (map (\<lambda>s. (sg_environment_id s, sg_key s)) (list_segments eid d))"
    using assms by (auto simp: list_segments_def keys_unique_def distinct_map inj_on_def)
  then have "distinct (map sg_key (list_segments eid d))"
    by (auto simp: list_segments_def distinct_map inj_on_def)
  then show ?thesis by (simp add: load_environment_segments_def comp_def segment_definition_def)
qed

text \<open>What a loaded snapshot finds under a key.\<close>

lemma load_finds:
  assumes "db_inv d" and "configs_local d" and "e \<in> set (db_environments d)" and "load now (en_id e) d = Inr snap"
  shows "snapshot_get snap k = Some f \<longleftrightarrow>
      (\<exists>r c. r \<in> set (db_flags d) \<and> c \<in> set (db_configs d) \<and> fc_flag_id c = fl_id r \<and>
         fc_environment_id c = en_id e \<and> \<not> fl_archived r \<and> fl_key r = k \<and> f = flag_of (r, c))"
    and "snapshot_segment snap k = Some s \<longleftrightarrow>
      (\<exists>r \<in> set (db_segments d). sg_environment_id r = en_id e \<and> sg_key r = k \<and> s = segment_definition r)"
    and "snapshot_wf snap \<and> snap_environment_id snap = en_id e \<and> snap_salt snap = en_salt e \<and>
      set (snap_experiments snap) = experiment_spec_of `
        set (experiment_query (\<lambda>x. ex_environment_id x = en_id e \<and> ex_state x = Running) d)"
proof -
  let ?fs = "map flag_of (load_environment_flags (en_id e) d)"
  have find: "find (\<lambda>x. en_id x = en_id e) (db_environments d) = Some e"
    by (rule find_unique) (use db_invD(1) [OF assms(1)] assms(3) in \<open>simp_all add: keys_unique_def\<close>)
  then have snap: "snap = with_experiments (snapshot_new (en_id e) (en_key e) (en_salt e) ?fs
      (load_environment_segments (en_id e) d) now) (load_running_experiments (en_id e) d)"
    using assms(4) by (simp add: load_def or_not_found_def)
  have key: "flag_key (flag_of p) = fl_key (fst p)" for p by (cases p) (simp add: flag_of_def)
  have "distinct (map flag_key ?fs)"
    using load_environment_flags_keys [OF assms(1-3)] by (simp add: comp_def key)
  note get = snapshot_get_iff [OF this]
  show "snapshot_get snap k = Some f \<longleftrightarrow>
      (\<exists>r c. r \<in> set (db_flags d) \<and> c \<in> set (db_configs d) \<and> fc_flag_id c = fl_id r \<and>
         fc_environment_id c = en_id e \<and> \<not> fl_archived r \<and> fl_key r = k \<and> f = flag_of (r, c))"
    unfolding snap get by (force simp: load_environment_flags_set key)
  show "snapshot_segment snap k = Some s \<longleftrightarrow>
      (\<exists>r \<in> set (db_segments d). sg_environment_id r = en_id e \<and> sg_key r = k \<and> s = segment_definition r)"
    unfolding snap snapshot_segment_iff [OF load_environment_segments_keys [OF db_invD(1) [OF assms(1)]]]
    by (auto simp: load_environment_segments_def list_segments_def segment_definition_def)
  show "snapshot_wf snap \<and> snap_environment_id snap = en_id e \<and> snap_salt snap = en_salt e \<and>
      set (snap_experiments snap) = experiment_spec_of `
        set (experiment_query (\<lambda>x. ex_environment_id x = en_id e \<and> ex_state x = Running) d)"
    unfolding snap
    by (simp add: snapshot_new_wf) (simp add: with_experiments_def snapshot_new_def Let_def load_running_experiments_def)
qed

lemma load_present:
  "e \<in> set (db_environments d) \<Longrightarrow> \<exists>snap. load now (en_id e) d = Inr snap"
  by (auto simp: load_def or_not_found_def find_None_iff split: option.splits)

text \<open>
  C10. A snapshot serves what is stored: loading an existing environment succeeds, the snapshot
  finds under a key exactly the stored definition and configuration of the unarchived flag
  with that key, every unarchived flag of the project is in it, its segments are exactly the
  stored ones of the environment, and its experiments are the running ones.
\<close>

theorem load_serves_stored:
  assumes "db_inv d" and "configs_local d" and "e \<in> set (db_environments d)"
  shows "\<exists>snap. load now (en_id e) d = Inr snap \<and> snapshot_wf snap \<and>
    snap_environment_id snap = en_id e \<and> snap_salt snap = en_salt e \<and>
    (\<forall>k f. snapshot_get snap k = Some f \<longleftrightarrow>
       (\<exists>r c. r \<in> set (db_flags d) \<and> c \<in> set (db_configs d) \<and> fc_flag_id c = fl_id r \<and>
          fc_environment_id c = en_id e \<and> \<not> fl_archived r \<and> fl_key r = k \<and> f = flag_of (r, c))) \<and>
    (\<forall>r \<in> set (db_flags d). fl_project_id r = en_project_id e \<and> \<not> fl_archived r \<longrightarrow>
       snapshot_get snap (fl_key r) \<noteq> None) \<and>
    (\<forall>k s. snapshot_segment snap k = Some s \<longleftrightarrow>
       (\<exists>r \<in> set (db_segments d). sg_environment_id r = en_id e \<and> sg_key r = k \<and> s = segment_definition r)) \<and>
    set (snap_experiments snap) = experiment_spec_of `
      set (experiment_query (\<lambda>x. ex_environment_id x = en_id e \<and> ex_state x = Running) d)"
proof -
  obtain snap where snap: "load now (en_id e) d = Inr snap" using load_present [OF assms(3)] by blast
  note finds = load_finds [OF assms snap]
  have "snapshot_get snap (fl_key r) \<noteq> None"
    if r: "r \<in> set (db_flags d)" "fl_project_id r = en_project_id e" "\<not> fl_archived r" for r
  proof -
    obtain c where "c \<in> set (db_configs d)" "fc_flag_id c = fl_id r" "fc_environment_id c = en_id e"
      using db_invD(3) [OF assms(1)] r assms(3) unfolding configured_everywhere_def by metis
    then have "snapshot_get snap (fl_key r) = Some (flag_of (r, c))" using finds(1) r by blast
    then show ?thesis by simp
  qed
  then show ?thesis using snap finds by (intro exI [of _ snap]) blast
qed

theorem load_serves_stored_witness:
  "\<exists>snap. load 9 3 demo_db = Inr snap \<and> snapshot_get snap ''f'' \<noteq> None \<and> snapshot_get snap ''g'' = None"
proof -
  let ?e = "hd (db_environments demo_db)" and ?f = "hd (db_flags demo_db)"
  have "configs_local demo_db" "?e \<in> set (db_environments demo_db)" and e: "en_id ?e = 3"
    by (simp_all add: configs_local_def demo_db_def)
  from load_serves_stored [OF demo_db_inv this(1,2), of 9]
  obtain snap where snap: "load 9 3 demo_db = Inr snap"
    and get: "\<forall>k f. snapshot_get snap k = Some f \<longleftrightarrow>
       (\<exists>r c. r \<in> set (db_flags demo_db) \<and> c \<in> set (db_configs demo_db) \<and> fc_flag_id c = fl_id r \<and>
          fc_environment_id c = 3 \<and> \<not> fl_archived r \<and> fl_key r = k \<and> f = flag_of (r, c))"
    unfolding e by blast
  have "snapshot_get snap ''f'' = Some (flag_of (?f, hd (db_configs demo_db)))"
    using get by (simp add: demo_db_def)
  moreover have "snapshot_get snap ''g'' = None"
    using get by (cases "snapshot_get snap ''g''") (auto simp: demo_db_def)
  ultimately show ?thesis using snap by simp
qed

section \<open>Keys and accounts\<close>

definition api_keys_wf :: "db \<Rightarrow> bool" where
  "api_keys_wf d = (distinct (map ak_id (db_api_keys d)) \<and> distinct (map ak_key_hash (db_api_keys d)) \<and>
     ak_environment_id ` set (db_api_keys d) \<subseteq> en_id ` set (db_environments d))"

definition live_keys :: "db \<Rightarrow> api_key set" where
  "live_keys d = {k \<in> set (db_api_keys d). ak_revoked_at k = None}"

definition identity_of :: "api_key \<Rightarrow> environment \<Rightarrow> project \<Rightarrow> key_identity" where
  "identity_of k e p =
     \<lparr>ki_api_key_id = ak_id k, ki_environment_id = ak_environment_id k, ki_project_id = en_project_id e,
      ki_organization_id = prj_organization_id p, ki_scope = ak_scope k\<rparr>"

lemma identity_of_key [simp]: "ki_api_key_id (identity_of k e p) = ak_id k"
  by (simp add: identity_of_def)

lemma resolve_api_key_iff:
  assumes "db_inv d" and "api_keys_wf d"
  shows "resolve_api_key hash d = Some ki \<longleftrightarrow>
    (\<exists>k \<in> live_keys d. ak_key_hash k = hash \<and> (\<exists>e \<in> set (db_environments d). \<exists>p \<in> set (db_projects d).
       en_id e = ak_environment_id k \<and> prj_id p = en_project_id e \<and> ki = identity_of k e p))" (is "_ \<longleftrightarrow> ?R")
proof
  let ?P = "\<lambda>(k, e, p). en_id e = ak_environment_id k \<and> prj_id p = en_project_id e \<and>
     ak_key_hash k = hash \<and> ak_revoked_at k = None"
  let ?xs = "List.product (db_api_keys d) (List.product (db_environments d) (db_projects d))"
  note u = db_invD(1) [OF assms(1), unfolded keys_unique_def] assms(2) [unfolded api_keys_wf_def]
  have res: "resolve_api_key hash d = map_option (\<lambda>(k, e, p). identity_of k e p) (find ?P ?xs)"
    by (simp add: resolve_api_key_def identity_of_def)
  show "resolve_api_key hash d = Some ki" if r: ?R
  proof -
    obtain k e p where x: "k \<in> set (db_api_keys d)" "e \<in> set (db_environments d)" "p \<in> set (db_projects d)"
      "?P (k, e, p)" and ki: "ki = identity_of k e p"
      using r by (auto simp: live_keys_def)
    then have "(k, e, p) \<in> set ?xs" by simp
    then obtain y where y: "find ?P ?xs = Some y" "y \<in> set ?xs" "?P y"
      using x(4) by (rule find_exists)
    obtain k' e' p' where y': "y = (k', e', p')" by (cases y) auto
    have m: "k' \<in> set (db_api_keys d)" "e' \<in> set (db_environments d)" "p' \<in> set (db_projects d)"
      using y(2) by (simp_all add: y')
    have k: "k' = k" by (rule unique_by [of ak_key_hash, OF _ m(1) x(1)]) (use u x y y' in simp_all)
    have e: "e' = e" by (rule unique_by [of en_id, OF _ m(2) x(2)]) (use u x y y' k in simp_all)
    have "p' = p" by (rule unique_by [of prj_id, OF _ m(3) x(3)]) (use u x y y' e in simp_all)
    with k e show ?thesis by (simp add: res y y' ki)
  qed
  assume "resolve_api_key hash d = Some ki"
  then obtain k e p where f: "find ?P ?xs = Some (k, e, p)" and "ki = identity_of k e p"
    by (auto simp: res)
  moreover have "(k, e, p) \<in> set ?xs" "?P (k, e, p)" using find_SomeD [OF f] by blast+
  ultimately show ?R by (auto simp: live_keys_def)
qed

lemma mark_revoked_fields [simp]:
  "ak_id (mark_revoked now eid i k) = ak_id k" "ak_key_hash (mark_revoked now eid i k) = ak_key_hash k"
  "ak_environment_id (mark_revoked now eid i k) = ak_environment_id k"
  "mark_revoked now' eid i (mark_revoked now eid i k) = mark_revoked now eid i k"
  by (simp_all add: mark_revoked_def unwrap_or_def)

lemma mark_used_fields [simp]:
  "ak_id (mark_used now i k) = ak_id k" "ak_key_hash (mark_used now i k) = ak_key_hash k"
  "ak_environment_id (mark_used now i k) = ak_environment_id k"
  "ak_revoked_at (mark_used now i k) = ak_revoked_at k"
  by (simp_all add: mark_used_def)

lemma mark_revoked_live:
  "ak_revoked_at (mark_revoked now eid i k) = None \<longleftrightarrow>
     ak_revoked_at k = None \<and> \<not> (ak_id k = i \<and> ak_environment_id k = eid)"
  "\<not> (ak_id k = i \<and> ak_environment_id k = eid) \<Longrightarrow> mark_revoked now eid i k = k"
  unfolding mark_revoked_def by auto

lemma live_after_revoke:
  assumes "api_keys_wf d" and "revoke_api_key now eid i d = Inr d'"
  shows "live_keys d' = {k \<in> live_keys d. ak_id k \<noteq> i}"
proof -
  obtain k0 where k0: "k0 \<in> set (db_api_keys d)" "ak_id k0 = i" "ak_environment_id k0 = eid"
    and d': "d' = d\<lparr>db_api_keys := map (mark_revoked now eid i) (db_api_keys d)\<rparr>"
    using assms(2) by (auto simp: revoke_api_key_def list_ex_iff split: if_splits)
  have here: "ak_environment_id k = eid" if "k \<in> set (db_api_keys d)" "ak_id k = i" for k
    using unique_by [of ak_id "db_api_keys d" k k0] assms(1) that k0 by (simp add: api_keys_wf_def)
  have "live_keys d' = {k \<in> mark_revoked now eid i ` set (db_api_keys d). ak_revoked_at k = None}"
    by (simp add: live_keys_def d')
  also have "\<dots> = mark_revoked now eid i ` {k \<in> set (db_api_keys d). ak_revoked_at (mark_revoked now eid i k) = None}"
    by auto
  also have "\<dots> = mark_revoked now eid i ` {k \<in> live_keys d. ak_id k \<noteq> i}"
    using here by (intro arg_cong [of _ _ "image _"]) (auto simp: live_keys_def mark_revoked_live)
  also have "\<dots> = id ` {k \<in> live_keys d. ak_id k \<noteq> i}"
    by (rule image_cong) (simp_all add: mark_revoked_live)
  finally show ?thesis by simp
qed

lemma resolve_after_revoke:
  assumes "db_inv d" and "api_keys_wf d" and "revoke_api_key now eid i d = Inr d'"
  shows "resolve_api_key hash d' = Some ki \<longleftrightarrow> resolve_api_key hash d = Some ki \<and> ki_api_key_id ki \<noteq> i"
proof -
  have d': "d' = d\<lparr>db_api_keys := map (mark_revoked now eid i) (db_api_keys d)\<rparr>"
    using assms(3) by (auto simp: revoke_api_key_def split: if_splits)
  have wf': "api_keys_wf d'" "db_inv d'"
    using assms(1,2) by (simp_all add: d' api_keys_wf_def comp_def image_image)
  have tables: "db_environments d' = db_environments d" "db_projects d' = db_projects d" by (simp_all add: d')
  define names where "names k \<longleftrightarrow> (\<exists>e \<in> set (db_environments d). \<exists>p \<in> set (db_projects d).
       en_id e = ak_environment_id k \<and> prj_id p = en_project_id e \<and> ki = identity_of k e p)" for k
  have id: "names k \<Longrightarrow> ki_api_key_id ki = ak_id k" for k by (auto simp: names_def)
  show ?thesis
    unfolding resolve_api_key_iff [OF wf'(2,1)] resolve_api_key_iff [OF assms(1,2)] tables
      live_after_revoke [OF assms(2,3)] names_def [symmetric]
    using id by auto
qed

text \<open>
  Revocation is immediate, complete and idempotent: after a key is revoked no presented
  secret resolves to it, every other key resolves as before, and revoking it again changes
  nothing, not even the recorded time.
\<close>

theorem revocation_is_final:
  assumes "db_inv d" and "api_keys_wf d" and "revoke_api_key now eid i d = Inr d'"
  shows "(\<forall>hash ki. resolve_api_key hash d' = Some ki \<longleftrightarrow>
      resolve_api_key hash d = Some ki \<and> ki_api_key_id ki \<noteq> i) \<and>
    revoke_api_key now' eid i d' = Inr d'"
proof -
  have d': "d' = d\<lparr>db_api_keys := map (mark_revoked now eid i) (db_api_keys d)\<rparr>"
    and ex: "list_ex (\<lambda>k. ak_id k = i \<and> ak_environment_id k = eid) (db_api_keys d)"
    using assms(3) by (auto simp: revoke_api_key_def split: if_splits)
  have "revoke_api_key now' eid i d' = Inr d'"
    using ex by (simp add: revoke_api_key_def d' list_ex_iff)
  with resolve_after_revoke [OF assms] show ?thesis by blast
qed

definition demo_keys_db :: db where
  "demo_keys_db = demo_db\<lparr>db_api_keys := [\<lparr>ak_id = 7, ak_environment_id = 3, ak_name = ''k'', ak_prefix = [],
     ak_scope = Server, ak_created_at = 0, ak_last_used_at = None, ak_revoked_at = None, ak_key_hash = ''h''\<rparr>]\<rparr>"

theorem revocation_is_final_witness:
  "\<exists>d'. revoke_api_key 5 3 7 demo_keys_db = Inr d' \<and> resolve_api_key ''h'' demo_keys_db \<noteq> None \<and>
     resolve_api_key ''h'' d' = None \<and> revoke_api_key 6 3 7 d' = Inr d'"
proof -
  have wf: "db_inv demo_keys_db" "api_keys_wf demo_keys_db"
    using demo_db_inv by (simp_all add: demo_keys_db_def api_keys_wf_def demo_db_def)
  obtain d' where run: "revoke_api_key 5 3 7 demo_keys_db = Inr d'"
    by (simp add: revoke_api_key_def demo_keys_db_def)
  obtain ki where ki: "resolve_api_key ''h'' demo_keys_db = Some ki" "ki_api_key_id ki = 7"
    by (simp add: resolve_api_key_def demo_keys_db_def demo_db_def)
  note final = revocation_is_final [OF wf run, of 6]
  have "resolve_api_key ''h'' d' = None"
    using final ki by (cases "resolve_api_key ''h'' d'") auto
  then show ?thesis using final run ki by simp
qed

text \<open>
  A user can log in with any spelling of the address they registered with: lower-casing
  and trimming both sides finds the account that was created, provided that the database
  leaves an address alone that the program already lower-cased.
\<close>

theorem login_finds_registered:
  assumes "\<And>s. sql_lower T (str_lower T s) = str_lower T s"
    and "create_user T i now g email h r d = Inr (u, d')"
    and "normal_email T typed = normal_email T email"
  shows "find_by_email T typed d' = Some u \<and>
    (\<forall>i' now' g' h' r'. \<exists>e. create_user T i' now' g' typed h' r' d' = Inl e)"
proof -
  have e: "d' = d\<lparr>db_users := db_users d @ [u]\<rparr>" "usr_email u = normal_email T email"
    and fresh: "sql_lower T (normal_email T email) \<notin> (\<lambda>u. sql_lower T (usr_email u)) ` set (db_users d)"
    using assms(2) by (auto simp: create_user_def dest!: insert_user_eq)
  have low: "sql_lower T (normal_email T email) = normal_email T email"
    by (simp add: normal_email_def assms(1))
  have "find (\<lambda>u. sql_lower T (usr_email u) = normal_email T typed) (us @ [u]) = Some u"
    if "\<forall>v \<in> set us. sql_lower T (usr_email v) \<noteq> normal_email T email" for us
    using that by (induction us) (simp_all add: e low assms(3))
  then have "find_by_email T typed d' = Some u" using fresh low by (force simp: find_by_email_def e(1))
  moreover have "\<exists>e. create_user T i' now' g' typed h' r' d' = Inl e" for i' now' g' h' r'
    by (simp add: create_user_def insert_user_def Let_def constraints_def e assms(3))
  ultimately show ?thesis by blast
qed

theorem login_finds_registered_witness:
  "\<exists>u d'. create_user \<lparr>str_lower = id, sql_lower = id\<rparr> 9 0 1 ''a@b.c'' ''h'' Member demo_db = Inr (u, d') \<and>
     find_by_email \<lparr>str_lower = id, sql_lower = id\<rparr> ''a@b.c'' d' = Some u"
proof -
  let ?T = "\<lparr>str_lower = id, sql_lower = id\<rparr>"
  obtain u d' where run: "create_user ?T 9 0 1 ''a@b.c'' ''h'' Member demo_db = Inr (u, d')"
    by (simp add: create_user_def insert_user_def Let_def constraints_def demo_db_def db_empty_def)
  then show ?thesis using login_finds_registered [OF _ run, of "''a@b.c''"] by simp
qed

end
