(* ===== verification/Api_Auth.thy ===== *)
theory Api_Auth
  imports Api_Errors Storage_Tenants
begin

text \<open>
  \<^verbatim>\<open>crates/api/src/auth\<close>: access tokens (\<^verbatim>\<open>jwt.rs\<close>), passwords (\<^verbatim>\<open>password.rs\<close>) and the
  extraction of the caller from a request (\<^verbatim>\<open>extract.rs\<close>), with the helpers of
  \<^verbatim>\<open>routes/mod.rs\<close>. The third-party primitives, JWT signing and Argon2, are the fields of
  \<open>crypto\<close>; the clock and the random values of a request are arguments.
\<close>

section \<open>Strings\<close>

definition split_once :: "char \<Rightarrow> string \<Rightarrow> (string \<times> string) option" where
  "split_once c s =
     (if c \<in> set s then Some (takeWhile (\<lambda>x. x \<noteq> c) s, tl (dropWhile (\<lambda>x. x \<noteq> c) s)) else None)"

definition to_ascii_lowercase :: "char \<Rightarrow> char" where
  "to_ascii_lowercase c = (if CHR ''A'' \<le> c \<and> c \<le> CHR ''Z'' then char_of ((of_char c :: nat) + 32) else c)"

definition eq_ignore_ascii_case :: "string \<Rightarrow> string \<Rightarrow> bool" where
  "eq_ignore_ascii_case s t = (map to_ascii_lowercase s = map to_ascii_lowercase t)"

definition strip_prefix :: "string \<Rightarrow> string \<Rightarrow> string option" where
  "strip_prefix s p = (if starts_with s p then Some (drop (length p) s) else None)"

section \<open>Tokens\<close>

datatype token_error = Expired | InvalidToken | Issuance

record claims =
  cl_sub :: uuid
  cl_org :: uuid
  cl_email :: string
  cl_role :: role
  cl_iat :: int
  cl_exp :: int
  cl_jti :: uuid

datatype jwt_failure = ExpiredSignature | OtherFailure

record crypto =
  jwt_encode :: "string \<Rightarrow> claims \<Rightarrow> string option"
  jwt_decode :: "string \<Rightarrow> int \<Rightarrow> string \<Rightarrow> jwt_failure + claims"
  encode_b64 :: "string \<Rightarrow> string option"
  argon2_hash :: "string \<Rightarrow> string \<Rightarrow> string option"
  phc_parses :: "string \<Rightarrow> bool"
  argon2_verify :: "string \<Rightarrow> string \<Rightarrow> bool"

record token_issuer =
  ti_secret :: string
  ti_ttl :: u64

text \<open>The expiry is a sum of \<^verbatim>\<open>i64\<close> values, which wraps around in a release build.\<close>

definition issue_token ::
  "crypto \<Rightarrow> int \<Rightarrow> uuid \<Rightarrow> token_issuer \<Rightarrow> uuid \<Rightarrow> uuid \<Rightarrow> string \<Rightarrow> role \<Rightarrow> token_error + string" where
  "issue_token C now jti ti user_id organization_id email r =
     (let claims = \<lparr>cl_sub = user_id, cl_org = organization_id, cl_email = email, cl_role = r,
                    cl_iat = now, cl_exp = sint ((word_of_int now :: u64) + ti_ttl ti), cl_jti = jti\<rparr>
      in case jwt_encode C (ti_secret ti) claims of
           None \<Rightarrow> Inl Issuance
         | Some token \<Rightarrow> Inr token)"

definition verify_token :: "crypto \<Rightarrow> int \<Rightarrow> token_issuer \<Rightarrow> string \<Rightarrow> token_error + claims" where
  "verify_token C now ti token =
     (case jwt_decode C (ti_secret ti) now token of
        Inr claims \<Rightarrow> Inr claims
      | Inl ExpiredSignature \<Rightarrow> Inl Expired
      | Inl _ \<Rightarrow> Inl InvalidToken)"

section \<open>Passwords\<close>

definition SALT_BYTES :: nat where "SALT_BYTES = 16"
definition MIN_PASSWORD_LEN :: nat where "MIN_PASSWORD_LEN = 12"
definition MAX_PASSWORD_LEN :: nat where "MAX_PASSWORD_LEN = 256"

datatype password_error = Length | Hashing

fun password_error_to_string :: "password_error \<Rightarrow> string" where
  "password_error_to_string Length =
     ''password must be between '' @ show_nat MIN_PASSWORD_LEN @ '' and '' @ show_nat MAX_PASSWORD_LEN @
     '' characters''"
| "password_error_to_string Hashing = ''failed to hash password''"

definition hash_password :: "crypto \<Rightarrow> string \<Rightarrow> string \<Rightarrow> password_error + string" where
  "hash_password C salt_bytes password =
     (let n = utf8_length password in
      if \<not> (MIN_PASSWORD_LEN \<le> n \<and> n \<le> MAX_PASSWORD_LEN) then Inl Length
      else case encode_b64 C salt_bytes of
             None \<Rightarrow> Inl Hashing
           | Some salt \<Rightarrow>
               (case argon2_hash C password salt of None \<Rightarrow> Inl Hashing | Some h \<Rightarrow> Inr h))"

definition is_parseable :: "crypto \<Rightarrow> string \<Rightarrow> bool" where
  "is_parseable C phc = phc_parses C phc"

definition verify_password :: "crypto \<Rightarrow> string \<Rightarrow> string \<Rightarrow> bool" where
  "verify_password C password phc = (if \<not> phc_parses C phc then False else argon2_verify C password phc)"

section \<open>Who is calling\<close>

record auth_user =
  caller_user_id :: uuid
  caller_org :: uuid
  caller_email :: string
  caller_role :: role

definition actor :: "auth_user \<Rightarrow> uuid option \<times> string" where
  "actor u = (Some (caller_user_id u), caller_email u)"

definition require_write :: "auth_user \<Rightarrow> api_error + unit" where
  "require_write u =
     (if can_write (caller_role u) then Inr () else Inl (Forbidden ''this role cannot modify configuration''))"

definition require_admin :: "auth_user \<Rightarrow> api_error + unit" where
  "require_admin u =
     (if can_administer (caller_role u) then Inr ()
      else Inl (Forbidden ''this action requires an owner or admin''))"

definition bearer :: "request_headers \<Rightarrow> string option" where
  "bearer h =
     Option.bind (hdr_authorization h)
       (\<lambda>v. Option.bind (split_once CHR '' '' v)
          (\<lambda>(scheme, credential).
             if eq_ignore_ascii_case scheme ''bearer'' then Some (str_trim credential) else None))"

definition auth_user_from :: "crypto \<Rightarrow> int \<Rightarrow> token_issuer \<Rightarrow> request_headers \<Rightarrow> api_error + auth_user" where
  "auth_user_from C now ti h =
     (case bearer h of
        None \<Rightarrow> Inl (ApiUnauthorized ''missing bearer token'')
      | Some token \<Rightarrow>
          if claimed_scope token \<noteq> None
          then Inl (ApiUnauthorized ''this endpoint requires a user token, not an SDK key'')
          else (case verify_token C now ti token of
                  Inl Expired \<Rightarrow> Inl (ApiUnauthorized ''token has expired'')
                | Inl _ \<Rightarrow> Inl (ApiUnauthorized ''invalid token'')
                | Inr c \<Rightarrow> Inr \<lparr>caller_user_id = cl_sub c, caller_org = cl_org c, caller_email = cl_email c,
                               caller_role = cl_role c\<rparr>))"

text \<open>
  The SDK identity: the result, and whether the usage of the key is written down. That write
  runs in a task of its own, so here it is a flag for the caller of the extractor.
\<close>

definition sdk_identity_from ::
  "('re, 'ver) externals \<Rightarrow> nat \<Rightarrow> request_headers \<Rightarrow> db \<Rightarrow> usage_tracker \<Rightarrow>
     (api_error + key_identity \<times> bool) \<times> usage_tracker" where
  "sdk_identity_from X instant h d usage =
     (case (case bearer h of Some k \<Rightarrow> Some k | None \<Rightarrow> hdr_flagforge_key h) of
        None \<Rightarrow> (Inl (ApiUnauthorized ''missing SDK key''), usage)
      | Some presented \<Rightarrow>
          if claimed_scope presented = None
          then (Inl (ApiUnauthorized ''not a valid SDK key''), usage)
          else (case resolve_api_key (key_hash X presented) d of
                  None \<Rightarrow> (Inl (ApiUnauthorized ''unknown or revoked SDK key''), usage)
                | Some identity \<Rightarrow>
                    (let (record, usage') = should_record_at (ki_api_key_id identity) instant usage
                     in (Inr (identity, record), usage'))))"

section \<open>Helpers of the routes\<close>

definition metrics_allowed :: "string option \<Rightarrow> request_headers \<Rightarrow> bool" where
  "metrics_allowed expected h =
     (case expected of
        None \<Rightarrow> True
      | Some token \<Rightarrow>
          unwrap_or (Option.bind (hdr_authorization h) (\<lambda>v. strip_prefix v ''Bearer '')) [] = token)"

definition valid_key :: "string \<Rightarrow> string \<Rightarrow> api_error + unit" where
  "valid_key candidate field =
     (if candidate \<noteq> [] \<and> length candidate \<le> MAX_KEY_LEN \<and>
         list_all (\<lambda>c. is_ascii_alphanumeric c \<or> c \<in> {CHR ''.'', CHR ''_'', CHR ''-''}) candidate
      then Inr ()
      else Inl (BadRequest (quoted field @ '' must be 1-'' @ show_nat MAX_KEY_LEN @
        '' characters of letters, digits, `.`, `_` or `-`'')))"

lemmas auth_defs [model_defs] =
  split_once_def to_ascii_lowercase_def eq_ignore_ascii_case_def strip_prefix_def issue_token_def
  verify_token_def hash_password_def verify_password_def actor_def require_write_def require_admin_def
  bearer_def auth_user_from_def sdk_identity_from_def metrics_allowed_def valid_key_def

section \<open>Lemmas\<close>

lemma require_write_Inr [simp]: "require_write u = Inr x \<longleftrightarrow> can_write (caller_role u)"
  by (simp add: require_write_def)

lemma require_admin_Inr [simp]: "require_admin u = Inr x \<longleftrightarrow> can_administer (caller_role u)"
  by (simp add: require_admin_def)

lemma admin_can_write: "can_administer r \<Longrightarrow> can_write r"
  by (auto simp: can_administer_def can_write_def)

lemma valid_key_Inr [simp]: "valid_key k field = Inr x \<longleftrightarrow> is_valid_key k"
  by (simp add: valid_key_def is_valid_key_def)

lemma bearer_header:
  assumes "str_trim token = token"
  shows "bearer \<lparr>hdr_authorization = Some (''Bearer '' @ token), hdr_forwarded_for = f, hdr_flagforge_key = k\<rparr> =
    Some token"
proof -
  have "eq_ignore_ascii_case ''Bearer'' ''bearer''" by code_simp
  then show ?thesis using assms by (simp add: bearer_def split_once_def)
qed

text \<open>What is documented of token signing: a token decodes to the claims it was made of until
  it expires, and reports expiry afterwards.\<close>

definition jwt_sound :: "crypto \<Rightarrow> string \<Rightarrow> bool" where
  "jwt_sound C secret =
     (\<forall>claims token now. jwt_encode C secret claims = Some token \<longrightarrow>
        jwt_decode C secret now token = (if cl_exp claims < now then Inl ExpiredSignature else Inr claims))"

lemma sint_expiry:
  assumes "0 \<le> now" and "now + int (unat (ttl :: u64)) < 2 ^ 63"
  shows "sint ((word_of_int now :: u64) + ttl) = now + int (unat ttl)"
proof -
  have "sint (word_of_int x :: u64) = x" if "0 \<le> x" "x < 2 ^ 63" for x
    using that by (subst signed_of_int) (simp add: signed_take_bit_int_eq_self)
  from this [of "now + int (unat ttl)"] assms show ?thesis by simp
qed

text \<open>
  A token identifies its user. A token issued to a user and presented as a bearer token
  authenticates exactly that user, with the organization and the role it was issued for, until
  the lifetime of the token has passed, and is refused as expired afterwards. This holds for
  every token that does not happen to have the shape of an SDK key.
\<close>

lemma token_identifies_user:
  assumes "jwt_sound C (ti_secret ti)" and "issue_token C now jti ti uid org email r = Inr token"
    and "0 \<le> now" and "now + int (unat (ti_ttl ti)) < 2 ^ 63"
    and "claimed_scope token = None" and "str_trim token = token"
  shows "auth_user_from C later ti
      \<lparr>hdr_authorization = Some (''Bearer '' @ token), hdr_forwarded_for = f, hdr_flagforge_key = k\<rparr> =
    (if now + int (unat (ti_ttl ti)) < later then Inl (ApiUnauthorized ''token has expired'')
     else Inr \<lparr>caller_user_id = uid, caller_org = org, caller_email = email, caller_role = r\<rparr>)"
proof -
  from assms(2) obtain c where "jwt_encode C (ti_secret ti) c = Some token"
    and c: "cl_sub c = uid" "cl_org c = org" "cl_email c = email" "cl_role c = r"
      "cl_exp c = now + int (unat (ti_ttl ti))"
    by (auto simp: issue_token_def Let_def sint_expiry [OF assms(3,4)] split: option.splits)
  with assms(1) have "jwt_decode C (ti_secret ti) later token =
      (if now + int (unat (ti_ttl ti)) < later then Inl ExpiredSignature else Inr c)"
    by (auto simp: jwt_sound_def)
  then show ?thesis
    using c assms(5) unfolding auth_user_from_def bearer_header [OF assms(6)] by (simp add: verify_token_def)
qed

end
