(* ===== verification/Storage_Steps.thy ===== *)
theory Storage_Steps
  imports Storage_Tenants
begin

text \<open>
  The storage layer as one transition system: a step is one successful operation of
  \<^verbatim>\<open>crates/storage\<close>, and any interleaving of the operations of several connections is a
  sequence of steps. Every reachable database is well formed, rows only advance in version, and
  an optimistic write succeeds only on the row its author read.
\<close>

section \<open>Steps\<close>

inductive db_step :: "('re, 'ver) externals \<Rightarrow> case_tables \<Rightarrow> db \<Rightarrow> db \<Rightarrow> bool"
  for X :: "('re, 'ver) externals" and T :: case_tables where
  step_create_organization:
    "create_organization_with_owner T i j now name slug email h d = Inr (r, d') \<Longrightarrow> db_step X T d d'"
| step_create_user: "create_user T i now g email h ro d = Inr (u, d') \<Longrightarrow> db_step X T d d'"
| step_create_project: "create_project i now g key name desc d = Inr (p, d') \<Longrightarrow> db_step X T d d'"
| step_delete_project: "delete_project g key d = Inr d' \<Longrightarrow> db_step X T d d'"
| step_create_environment:
    "create_environment i now prj key name salt production d = Inr (e, d') \<Longrightarrow> db_step X T d d'"
| step_delete_environment: "delete_environment prj key d = Inr d' \<Longrightarrow> db_step X T d d'"
| step_create_flag:
    "create_flag i now prj key name desc vs off ft d = Inr (f, d') \<Longrightarrow> db_step X T d d'"
| step_update_flag: "update_flag X now i name' desc' vs' arch d = Inr (f, d') \<Longrightarrow> db_step X T d d'"
| step_delete_flag: "delete_flag prj key d = Inr d' \<Longrightarrow> db_step X T d d'"
| step_upsert_config:
    "upsert_config X now fid eid en off ft rs expected d = Inr (c, d') \<Longrightarrow> db_step X T d d'"
| step_create_segment: "create_segment i now eid key name desc d = Inr (s, d') \<Longrightarrow> db_step X T d d'"
| step_write_segment:
    "write_segment now eid key ch expected current d = Inr (s, d') \<Longrightarrow> db_step X T d d'"
| step_delete_segment: "delete_segment eid key d = Inr d' \<Longrightarrow> db_step X T d d'"
| step_create_experiment:
    "create_experiment i now eid fid key name desc metric control d = (x, d') \<Longrightarrow> db_step X T d d'"
| step_update_experiment: "update_experiment now eid key name' desc' d = (x, d') \<Longrightarrow> db_step X T d d'"
| step_start_experiment: "start_experiment now eid key d = (x, d') \<Longrightarrow> db_step X T d d'"
| step_stop_experiment: "stop_experiment now eid key d = (x, d') \<Longrightarrow> db_step X T d d'"
| step_delete_experiment: "delete_experiment eid key d = Inr d' \<Longrightarrow> db_step X T d d'"
| step_backdate_start: "backdate_start now eid key t d = Inr d' \<Longrightarrow> db_step X T d d'"
| step_ingest: "ingest_counters trunc eid deltas d = Inr (n, d') \<Longrightarrow> db_step X T d d'"
| step_create_api_key:
    "create_api_key i now eid name hash display scope d = Inr (k, d') \<Longrightarrow> db_step X T d d'"
| step_revoke_api_key: "revoke_api_key now eid i d = Inr d' \<Longrightarrow> db_step X T d d'"
| step_touch_api_key: "db_step X T d (touch_api_key now i d)"
| step_audit_record: "audit_record now entry d = Inr (n, d') \<Longrightarrow> db_step X T d d'"

definition db_reachable :: "('re, 'ver) externals \<Rightarrow> case_tables \<Rightarrow> db \<Rightarrow> bool" where
  "db_reachable X T = (db_step X T)\<^sup>*\<^sup>* db_empty"

text \<open>The integrity of the schema, of the flag configurations, and of the remaining tables.\<close>

definition store_inv :: "db \<Rightarrow> bool" where
  "store_inv d = (db_inv d \<and> counters_wf d \<and> audit_wf d \<and> api_keys_wf d)"

lemma store_invD: "store_inv d \<Longrightarrow> db_inv d" "store_inv d \<Longrightarrow> counters_wf d"
    "store_inv d \<Longrightarrow> audit_wf d" "store_inv d \<Longrightarrow> api_keys_wf d"
  by (simp_all add: store_inv_def)

lemma db_step_inv: "db_step X T d d' \<Longrightarrow> db_inv d \<Longrightarrow> db_inv d'"
proof (induction rule: db_step.induct)
  case step_touch_api_key
  then show ?case by (rule touch_api_key_inv)
qed (blast intro: create_organization_inv create_user_inv create_project_inv delete_project_inv
    create_environment_inv delete_environment_inv create_flag_inv update_flag_inv delete_flag_inv
    upsert_config_inv create_segment_inv write_segment_inv delete_segment_inv create_experiment_inv
    update_experiment_inv delete_experiment_inv backdate_start_inv ingest_inv create_api_key_inv
    revoke_api_key_inv audit_record_inv
    transition_inv [of _ _ _ _ Draft Running, folded start_experiment_def]
    transition_inv [of _ _ _ _ Running Stopped, folded stop_experiment_def])+

section \<open>The side tables\<close>

text \<open>What most operations leave alone.\<close>

definition side_frame :: "db \<Rightarrow> db \<Rightarrow> bool" where
  "side_frame d d' =
     (db_counters d' = db_counters d \<and> db_audit d' = db_audit d \<and>
      db_next_audit_id d' = db_next_audit_id d \<and> db_api_keys d' = db_api_keys d \<and>
      en_id ` set (db_environments d) \<subseteq> en_id ` set (db_environments d'))"

lemma side_frame_wf:
  "side_frame d d' \<Longrightarrow> counters_wf d \<and> audit_wf d \<and> api_keys_wf d \<Longrightarrow>
     counters_wf d' \<and> audit_wf d' \<and> api_keys_wf d'"
  by (simp add: side_frame_def counters_wf_def audit_wf_def api_keys_wf_def) blast

lemma notify_side [simp]:
  "db_audit (notify es d) = db_audit d" "db_next_audit_id (notify es d) = db_next_audit_id d"
  by (simp_all add: notify_def)

lemma update_experiments_frame: "side_frame d (update_experiments now cond f d)"
  by (simp add: side_frame_def update_experiments_def)

lemma transition_frame: "transition now eid key src tgt d = (x, d') \<Longrightarrow> side_frame d d'"
  by (auto simp: transition_def Let_def update_experiments_frame split: if_splits)
     (simp_all add: side_frame_def)

lemma cascade_flags_frame: "cascade_flags gone d = Inr d' \<Longrightarrow> side_frame d d'"
  by (auto simp: side_frame_def cascade_flags_def Let_def split: if_splits)

lemma frames:
  "create_organization_with_owner T i j now name slug email h d = Inr (r, d') \<Longrightarrow> side_frame d d'"
  "create_user T i now g email h ro d = Inr (u, d') \<Longrightarrow> side_frame d d'"
  "create_project i now g key name desc d = Inr (p, d') \<Longrightarrow> side_frame d d'"
  "create_environment i now prj key name salt production d = Inr (e, d') \<Longrightarrow> side_frame d d'"
  "create_flag i now prj key name desc vs off ft d = Inr (f, d') \<Longrightarrow> side_frame d d'"
  "update_flag X now i name' desc' vs' arch d = Inr (f, d') \<Longrightarrow> side_frame d d'"
  "delete_flag prj key d = Inr d' \<Longrightarrow> side_frame d d'"
  "upsert_config X now fid eid en off ft rs expected d = Inr (c, d') \<Longrightarrow> side_frame d d'"
  "create_segment i now eid key name desc d = Inr (s, d') \<Longrightarrow> side_frame d d'"
  "write_segment now eid key ch expected current d = Inr (s, d') \<Longrightarrow> side_frame d d'"
  "delete_segment eid key d = Inr d' \<Longrightarrow> side_frame d d'"
  "create_experiment i now eid fid key name desc metric control d = (x, d') \<Longrightarrow> side_frame d d'"
  "update_experiment now eid key name' desc' d = (x, d') \<Longrightarrow> side_frame d d'"
  "start_experiment now eid key d = (x, d') \<Longrightarrow> side_frame d d'"
  "stop_experiment now eid key d = (x, d') \<Longrightarrow> side_frame d d'"
  "backdate_start now eid key t d = Inr d' \<Longrightarrow> side_frame d d'"
proof goal_cases
  case 1 then show ?case by (cases r) (auto simp: side_frame_def dest!: create_organization_eq)
next
  case 2 then show ?case by (auto simp: side_frame_def create_user_def dest!: insert_user_eq)
next
  case 3 then show ?case by (auto simp: side_frame_def create_project_def Let_def and_then_Inr)
next
  case 4 then show ?case
    by (auto simp: side_frame_def create_environment_def Let_def and_then_Inr split: option.splits)
next
  case 5 then show ?case by (auto simp: side_frame_def create_flag_def Let_def and_then_Inr)
next
  case 6 then show ?case
    by (auto simp: side_frame_def update_flag_def Let_def and_then_Inr split: option.splits)
next
  case 7 then show ?case
    by (auto simp: delete_flag_def Let_def and_then_Inr split: if_splits intro: cascade_flags_frame)
next
  case 8 then show ?case
    by (auto simp: side_frame_def upsert_config_def Let_def and_then_Inr split: option.splits if_splits)
next
  case 9 then show ?case by (simp add: side_frame_def create_segment_eq(1) [OF 9])
next
  case 10 then show ?case
    by (auto simp: side_frame_def write_segment_def Let_def and_then_Inr split: option.splits)
next
  case 11 then show ?case by (auto simp: side_frame_def dest!: delete_segment_eq)
next
  case 12 then show ?case by (auto simp: side_frame_def dest!: create_experiment_eq)
next
  case 13
  then consider "d' = d" | cond f where "d' = update_experiments now cond f d"
    by (auto simp: update_experiment_def Let_def split: if_splits)
  then show ?case by cases (simp add: side_frame_def, simp add: update_experiments_frame)
next
  case 14 then show ?case unfolding start_experiment_def by (rule transition_frame)
next
  case 15 then show ?case unfolding stop_experiment_def by (rule transition_frame)
next
  case 16 then show ?case
    by (auto simp: backdate_start_def Let_def update_experiments_frame split: if_splits)
qed

lemma cascade_environments_side:
  assumes "counters_wf d \<and> audit_wf d \<and> api_keys_wf d"
  shows "counters_wf (cascade_environments gone d) \<and> audit_wf (cascade_environments gone d) \<and>
    api_keys_wf (cascade_environments gone d)"
proof -
  let ?ids = "en_id ` set (filter gone (db_environments d))" and ?d = "cascade_environments gone d"
  have audit: "map au_id (db_audit ?d) = map au_id (db_audit d)" "db_next_audit_id ?d = db_next_audit_id d"
    and keys: "db_api_keys ?d = filter (\<lambda>k. ak_environment_id k \<notin> ?ids) (db_api_keys d)"
    by (simp_all add: cascade_environments_def Let_def)
  have "au_id ` set (db_audit ?d) = au_id ` set (db_audit d)"
    using arg_cong [OF audit(1), of set] by simp
  moreover have wf: "audit_wf e \<longleftrightarrow> distinct (map au_id (db_audit e)) \<and> (\<forall>i \<in> au_id ` set (db_audit e). i < db_next_audit_id e)" for e
    by (simp add: audit_wf_def)
  ultimately have "audit_wf ?d" using assms unfolding wf audit by simp
  moreover have "api_keys_wf ?d"
    using assms image_filter_kept [of ak_environment_id "db_api_keys d" en_id "db_environments d" gone]
    by (simp add: api_keys_wf_def keys cascade_environments_tables distinct_map_filter)
  moreover have "counters_wf ?d"
    using assms by (simp add: counters_wf_def cascade_environments_tables distinct_map_filter)
  ultimately show ?thesis by blast
qed

lemma db_step_side:
  "db_step X T d d' \<Longrightarrow> counters_wf d \<and> audit_wf d \<and> api_keys_wf d \<Longrightarrow>
     counters_wf d' \<and> audit_wf d' \<and> api_keys_wf d'"
proof (induction rule: db_step.induct)
  case (step_delete_project g key d d')
  then obtain P Q d2 where "cascade_flags P (cascade_environments Q d) = Inr d2"
    and d': "\<exists>R. d' = d2\<lparr>db_projects := R\<rparr>"
    by (auto simp: delete_project_def Let_def and_then_Inr split: if_splits)
  then have "counters_wf d2 \<and> audit_wf d2 \<and> api_keys_wf d2"
    using cascade_environments_side [OF step_delete_project(2)] side_frame_wf cascade_flags_frame by blast
  with d' show ?case by (elim exE) (simp add: counters_wf_def audit_wf_def api_keys_wf_def)
next
  case (step_delete_environment prj key d d')
  then obtain gone where "d' = cascade_environments gone d"
    by (auto simp: delete_environment_def Let_def split: if_splits)
  then show ?case using cascade_environments_side [OF step_delete_environment(2)] by simp
next
  case (step_delete_experiment eid key d d')
  then obtain es xs P where "d' = notify es (d\<lparr>db_experiments := xs, db_counters := filter P (db_counters d)\<rparr>)"
    using delete_experiment_eq by blast
  then show ?case
    using step_delete_experiment(2) by (simp add: counters_wf_def audit_wf_def api_keys_wf_def distinct_map_filter)
next
  case (step_ingest trunc eid deltas d n d')
  then obtain cs where "d' = d\<lparr>db_counters := cs\<rparr>" by (blast elim: ingest_Inr)
  then show ?case
    using step_ingest(2) ingest_counters_wf [OF _ step_ingest(1)]
    by (simp add: audit_wf_def api_keys_wf_def)
next
  case (step_create_api_key i now eid name hash display scope d k d')
  from create_api_key_eq [OF step_create_api_key(1)] step_create_api_key(2) show ?case
    by (elim conjE) (simp add: counters_wf_def audit_wf_def api_keys_wf_def)
next
  case (step_revoke_api_key now eid i d d')
  then have "d' = d\<lparr>db_api_keys := map (mark_revoked now eid i) (db_api_keys d)\<rparr>"
    by (simp add: revoke_api_key_def split: if_splits)
  then show ?case
    using step_revoke_api_key(2)
    by (simp add: counters_wf_def audit_wf_def api_keys_wf_def comp_def image_image)
next
  case (step_touch_api_key d now i)
  then show ?case
    by (simp add: touch_api_key_def counters_wf_def audit_wf_def api_keys_wf_def comp_def image_image)
next
  case (step_audit_record now entry d n d')
  then show ?case
    using audit_record_wf [OF _ step_audit_record(1)] audit_record_eq [OF step_audit_record(1)]
    by (elim exE conjE) (simp add: counters_wf_def api_keys_wf_def)
qed (rule side_frame_wf, erule frames, assumption)+

lemma db_step_store_inv: "store_inv d \<Longrightarrow> db_step X T d d' \<Longrightarrow> store_inv d'"
  using db_step_inv [of X T d d'] db_step_side [of X T d d'] by (simp add: store_inv_def)

lemma store_inv_empty: "store_inv db_empty"
  by (simp add: store_inv_def) (simp add: counters_wf_def audit_wf_def api_keys_wf_def db_empty_def)

section \<open>Versioned rows\<close>

text \<open>
  The interface of a table whose rows carry a version: a step leaves a row alone, removes it,
  or advances its version. What follows holds for every such table: as long as the row is not
  removed, an unchanged version means an unchanged row.
\<close>

locale versioned_rows =
  fixes step :: "'s \<Rightarrow> 's \<Rightarrow> bool"
    and invar :: "'s \<Rightarrow> bool"
    and rows :: "'s \<Rightarrow> 'r list"
    and key :: "'r \<Rightarrow> 'k"
    and version :: "'r \<Rightarrow> int"
  assumes invar_step: "invar s \<Longrightarrow> step s s' \<Longrightarrow> invar s'"
    and unique: "invar s \<Longrightarrow> distinct (map key (rows s))"
    and advance: "invar s \<Longrightarrow> step s s' \<Longrightarrow> r \<in> set (rows s) \<Longrightarrow> r' \<in> set (rows s') \<Longrightarrow> key r = key r' \<Longrightarrow>
      r' = r \<or> version r < version r'"
begin

text \<open>The paths along which a row of key \<open>k\<close> is present in every state.\<close>

lemma invar_path: "(\<lambda>s s'. step s s' \<and> k \<in> key ` set (rows s'))\<^sup>*\<^sup>* s s' \<Longrightarrow> invar s \<Longrightarrow> invar s'"
  by (induction rule: rtranclp_induct) (auto intro: invar_step)

lemma row_advances:
  assumes "(\<lambda>s s'. step s s' \<and> k \<in> key ` set (rows s'))\<^sup>*\<^sup>* s s'" and "invar s" and "r \<in> set (rows s)" and "key r = k"
    and "r' \<in> set (rows s')" and "key r' = k"
  shows "r' = r \<or> version r < version r'"
  using assms(1,5,6)
proof (induction arbitrary: r' rule: rtranclp_induct)
  case base
  then show ?case using unique_by [OF unique [OF assms(2)] assms(3), of r'] assms(4) by simp
next
  case (step y z)
  have inv: "invar y" using invar_path [OF step(1) assms(2)] .
  obtain q where q: "q \<in> set (rows y)" "key q = k"
    using step(1) assms(3,4) by (cases rule: rtranclp.cases) auto
  have "r' = q \<or> version q < version r'"
    using advance [OF inv _ q(1) step(4)] step(2,5) q(2) by simp
  moreover have "q = r \<or> version r < version q" using step(3) [OF q] .
  ultimately show ?case by auto
qed

lemma same_version_same_row:
  assumes "(\<lambda>s s'. step s s' \<and> k \<in> key ` set (rows s'))\<^sup>*\<^sup>* s s'" and "invar s" and "r \<in> set (rows s)" and "key r = k"
    and "r' \<in> set (rows s')" and "key r' = k" and "version r' = version r"
  shows "r' = r"
  using row_advances [OF assms(1-6)] assms(7) by auto

end

text \<open>A table that gains only rows with new keys, or loses rows, advances trivially.\<close>

definition advances :: "('r \<Rightarrow> 'k) \<Rightarrow> ('r \<Rightarrow> 'r \<Rightarrow> bool) \<Rightarrow> 'r list \<Rightarrow> 'r list \<Rightarrow> bool" where
  "advances key P rs rs' =
     (\<forall>r \<in> set rs. \<forall>r' \<in> set rs'. key r = key r' \<longrightarrow> r' = r \<or> P r r')"

lemma advances_fresh:
  assumes "distinct (map key rs)" and "\<And>r'. r' \<in> set rs' \<Longrightarrow> r' \<in> set rs \<or> key r' \<notin> key ` set rs"
  shows "advances key P rs rs'"
  unfolding advances_def
proof (intro ballI impI)
  fix r r'
  assume r: "r \<in> set rs" and r': "r' \<in> set rs'" and k: "key r = key r'"
  have "key r' \<in> key ` set rs" using r by (simp flip: k)
  then have "r' \<in> set rs" using assms(2) [OF r'] by simp
  then show "r' = r \<or> P r r'" using unique_by [OF assms(1) r] k by blast
qed

lemma advances_subset: "distinct (map key rs) \<Longrightarrow> set rs' \<subseteq> set rs \<Longrightarrow> advances key P rs rs'"
  by (rule advances_fresh) auto

lemma advances_append:
  "distinct (map key rs) \<Longrightarrow> key ` set new \<inter> key ` set rs = {} \<Longrightarrow> advances key P rs (rs @ new)"
  by (rule advances_fresh) auto

lemma advances_map:
  assumes "distinct (map key rs)" and "\<And>r. r \<in> set rs \<Longrightarrow> key (f r) = key r"
    and "\<And>r. r \<in> set rs \<Longrightarrow> f r = r \<or> P r (f r)"
  shows "advances key P rs (map f rs)"
  unfolding advances_def
proof (intro ballI impI)
  fix r r'
  assume r: "r \<in> set rs" and "r' \<in> set (map f rs)" and k: "key r = key r'"
  then obtain q where q: "q \<in> set rs" "r' = f q" by auto
  then have "r = q" using k assms(2) by (intro unique_by [OF assms(1) r q(1)]) simp
  with q assms(3) show "r' = r \<or> P r r'" by blast
qed

section \<open>The three versioned tables\<close>

abbreviation config_key :: "flag_config \<Rightarrow> uuid \<times> uuid" where
  "config_key c \<equiv> (fc_flag_id c, fc_environment_id c)"

abbreviation segment_key :: "segment_row \<Rightarrow> uuid \<times> string" where
  "segment_key s \<equiv> (sg_environment_id s, sg_key s)"

text \<open>The order of the lifecycle.\<close>

definition state_rank :: "experiment_state \<Rightarrow> nat" where
  "state_rank s = (case s of Draft \<Rightarrow> 0 | Running \<Rightarrow> 1 | Stopped \<Rightarrow> 2)"

definition experiment_advance :: "experiment_row \<Rightarrow> experiment_row \<Rightarrow> bool" where
  "experiment_advance x x' =
     (ex_version x < ex_version x' \<and> state_rank (ex_state x) \<le> state_rank (ex_state x') \<and>
      ex_flag_id x' = ex_flag_id x \<and> ex_metric_key x' = ex_metric_key x \<and>
      ex_control_variant x' = ex_control_variant x \<and>
      (ex_state x = Stopped \<longrightarrow> ex_started_at x' = ex_started_at x \<and> ex_stopped_at x' = ex_stopped_at x))"

definition tables_advance :: "db \<Rightarrow> db \<Rightarrow> bool" where
  "tables_advance d d' =
     (advances config_key (\<lambda>c c'. fc_version c < fc_version c') (db_configs d) (db_configs d') \<and>
      advances segment_key (\<lambda>s s'. sg_version s < sg_version s') (db_segments d) (db_segments d') \<and>
      advances ex_id experiment_advance (db_experiments d) (db_experiments d'))"

lemma tables_advance_subset:
  assumes "keys_unique d" and "set (db_configs d') \<subseteq> set (db_configs d)"
    and "set (db_segments d') \<subseteq> set (db_segments d)" and "set (db_experiments d') \<subseteq> set (db_experiments d)"
  shows "tables_advance d d'"
  using assms by (simp add: tables_advance_def keys_unique_def advances_subset)

lemma tables_advance_configs:
  assumes "keys_unique d" and "db_segments d' = db_segments d" and "db_experiments d' = db_experiments d"
    and "advances config_key (\<lambda>c c'. fc_version c < fc_version c') (db_configs d) (db_configs d')"
  shows "tables_advance d d'"
  using assms by (simp add: tables_advance_def keys_unique_def advances_subset)

lemma tables_advance_segments:
  assumes "keys_unique d" and "db_configs d' = db_configs d" and "db_experiments d' = db_experiments d"
    and "advances segment_key (\<lambda>s s'. sg_version s < sg_version s') (db_segments d) (db_segments d')"
  shows "tables_advance d d'"
  using assms by (simp add: tables_advance_def keys_unique_def advances_subset)

lemma tables_advance_experiments:
  assumes "keys_unique d" and "db_configs d' = db_configs d" and "db_segments d' = db_segments d"
    and "advances ex_id experiment_advance (db_experiments d) (db_experiments d')"
  shows "tables_advance d d'"
  using assms by (simp add: tables_advance_def keys_unique_def advances_subset)

lemma update_experiments_advance:
  assumes "keys_unique d" and "\<And>x. ex_id (f x) = ex_id x"
    and "\<And>x. cond x \<Longrightarrow> experiment_advance x (touch_experiment now f x)"
  shows "tables_advance d (update_experiments now cond f d)"
proof (rule tables_advance_experiments [OF assms(1)])
  have id: "ex_id (touch_experiment now f x) = ex_id x" for x by (simp add: touch_experiment_def assms(2))
  have "distinct (map ex_id (db_experiments d))" using assms(1) by (simp add: keys_unique_def)
  then have "advances ex_id experiment_advance (db_experiments d)
      (map (\<lambda>x. if cond x then touch_experiment now f x else x) (db_experiments d))"
    by (rule advances_map) (auto simp: id intro: assms(3))
  then show "advances ex_id experiment_advance (db_experiments d) (db_experiments (update_experiments now cond f d))"
    by (simp add: update_experiments_def)
qed (simp_all add: update_experiments_def)

lemma transition_advance:
  assumes "keys_unique d" and "state_rank src \<le> state_rank tgt" and "src \<noteq> Stopped"
    and "transition now eid key src tgt d = (x, d')"
  shows "tables_advance d d'"
proof (cases "d' = d")
  case True
  then show ?thesis using assms(1) by (simp add: tables_advance_subset)
next
  case False
  then have "d' = update_experiments now
      (\<lambda>x. ex_environment_id x = eid \<and> ex_key x = key \<and> ex_state x = src)
      (\<lambda>x. x\<lparr>ex_state := tgt, ex_started_at := if tgt = Running then Some now else ex_started_at x,
             ex_stopped_at := if tgt = Stopped then Some now else ex_stopped_at x\<rparr>) d"
    using assms(4) by (auto simp: transition_def Let_def split: if_splits)
  then show ?thesis
    using assms(2,3)
    by (auto intro!: update_experiments_advance [OF assms(1)] simp: experiment_advance_def touch_experiment_def)
qed

lemma cascade_environments_advance:
  "keys_unique d \<Longrightarrow> set (db_configs (cascade_environments gone d)) \<subseteq> set (db_configs d) \<and>
     set (db_segments (cascade_environments gone d)) \<subseteq> set (db_segments d) \<and>
     set (db_experiments (cascade_environments gone d)) \<subseteq> set (db_experiments d)"
  by (auto simp: cascade_environments_tables)

lemma cascade_flags_subset:
  "cascade_flags gone d = Inr d' \<Longrightarrow> set (db_configs d') \<subseteq> set (db_configs d) \<and>
     db_segments d' = db_segments d \<and> db_experiments d' = db_experiments d"
  by (auto dest!: cascade_flags_eq(1))

lemma create_flag_advance:
  assumes "db_inv d" and "create_flag i now prj key name desc vs off ft d = Inr (f, d')"
  shows "tables_advance d d'"
proof (rule tables_advance_configs [OF db_invD(1) [OF assms(1)]])
  obtain new where new: "db_configs d' = db_configs d @ new" "\<forall>c \<in> set new. fc_flag_id c = i"
    and i: "i \<notin> fl_id ` set (db_flags d)"
    using assms(2) by (fastforce simp: create_flag_def Let_def and_then_Inr)
  have "config_key ` set new \<inter> config_key ` set (db_configs d) = {}"
    using new(2) i references_holdD(3) [OF db_invD(2) [OF assms(1)]] by auto
  then show "advances config_key (\<lambda>c c'. fc_version c < fc_version c') (db_configs d) (db_configs d')"
    unfolding new(1) using db_invD(1) [OF assms(1)] by (intro advances_append) (simp_all add: keys_unique_def)
qed (use assms(2) in \<open>auto simp: create_flag_def Let_def and_then_Inr\<close>)

lemma create_environment_advance:
  assumes "db_inv d" and "create_environment i now prj key name salt production d = Inr (e, d')"
  shows "tables_advance d d'"
proof -
  note u = db_invD(1) [OF assms(1)]
  show ?thesis
  proof (rule create_environment_cases [OF assms(2)])
    fix new
    assume i: "i \<notin> en_id ` set (db_environments d)"
      and keys: "map config_key new = map (\<lambda>f. (fl_id f, i)) (filter (\<lambda>f. fl_project_id f = prj) (db_flags d))"
      and d': "d' = notify (map fc_environment_id new)
         (d\<lparr>db_environments := db_environments d @ [e], db_configs := db_configs d @ new\<rparr>)"
    have "config_key ` set new \<subseteq> UNIV \<times> {i}" using arg_cong [OF keys, of set] by auto
    moreover have "i \<notin> fc_environment_id ` set (db_configs d)"
      using i references_holdD(4) [OF db_invD(2) [OF assms(1)]] by blast
    ultimately have "config_key ` set new \<inter> config_key ` set (db_configs d) = {}" by auto
    then have "advances config_key (\<lambda>c c'. fc_version c < fc_version c') (db_configs d) (db_configs d @ new)"
      using u by (intro advances_append) (simp_all add: keys_unique_def)
    then show ?thesis by (intro tables_advance_configs [OF u]) (simp_all add: d')
  qed
qed

lemma upsert_config_advance:
  assumes "db_inv d" and "upsert_config X now fid eid en off ft rs expected d = Inr (c, d')"
  shows "tables_advance d d'"
proof -
  let ?here = "\<lambda>b. fc_flag_id b = fid \<and> fc_environment_id b = eid"
  have u: "distinct (map config_key (db_configs d))"
    using db_invD(1) [OF assms(1)] by (simp add: keys_unique_def)
  have "advances config_key (\<lambda>c c'. fc_version c < fc_version c') (db_configs d) (db_configs d')"
  proof (cases "find ?here (db_configs d)")
    case None
    then have d': "db_configs d' = db_configs d @ [c]" "config_key c = (fid, eid)"
      using assms(2) by (auto simp: upsert_config_def Let_def and_then_Inr)
    show ?thesis
      unfolding d'(1) using u None d'(2) by (intro advances_append) (auto simp: find_None_iff)
  next
    case (Some b)
    then have c: "c = b\<lparr>fc_enabled := en, fc_off_variant := off, fc_fallthrough := ft, fc_rules := rs,
        fc_version := fc_version b + 1, fc_updated_at := now\<rparr>"
      and d': "db_configs d' = map (\<lambda>b. if ?here b then c else b) (db_configs d)"
      using assms(2) by (auto simp: upsert_config_def Let_def split: if_splits)
    have b: "b \<in> set (db_configs d)" "?here b" using find_SomeD [OF Some] by auto
    have here: "b' = b" if "b' \<in> set (db_configs d)" "?here b'" for b'
      by (rule unique_by [OF u that(1) b(1)]) (simp add: that b)
    have ck: "config_key c = config_key b" "fc_version b < fc_version c" by (simp_all add: c)
    show ?thesis
      unfolding d'
    proof (rule advances_map [OF u])
      fix b'
      assume b': "b' \<in> set (db_configs d)"
      show "config_key (if ?here b' then c else b') = config_key b'"
        using ck(1) b(2) by (simp split: if_split)
      show "(if ?here b' then c else b') = b' \<or> fc_version b' < fc_version (if ?here b' then c else b')"
        using ck(2) here [OF b'] by (cases "?here b'") (simp_all only: if_True if_False simp_thms)
    qed
  qed
  then show ?thesis
    using assms(2)
    by (intro tables_advance_configs [OF db_invD(1) [OF assms(1)]])
       (auto simp: upsert_config_def Let_def and_then_Inr split: option.splits if_splits)
qed

lemma write_segment_advance:
  assumes "keys_unique d" and "write_segment now eid key ch expected current d = Inr (s', d')"
  shows "tables_advance d d'"
proof -
  have u: "distinct (map segment_key (db_segments d))" using assms(1) by (simp add: keys_unique_def)
  obtain s where s: "s \<in> set (db_segments d)" "sg_environment_id s = eid" "sg_key s = key"
      "s' = updated_segment now ch s"
    and d': "d' = notify [eid] (d\<lparr>db_segments := map (\<lambda>t. if sg_environment_id t = eid \<and> sg_key t = key
           then s' else t) (db_segments d)\<rparr>)"
    using write_segment_eq [OF assms(2,1)] by blast
  have "t = s" if "t \<in> set (db_segments d)" "sg_environment_id t = eid \<and> sg_key t = key" for t
    using that s by (intro unique_by [OF u]) simp_all
  then have "advances segment_key (\<lambda>s s'. sg_version s < sg_version s') (db_segments d) (db_segments d')"
    using u s(2-) unfolding d' by (simp, intro advances_map) (auto simp: updated_segment_def)
  then show ?thesis by (intro tables_advance_segments [OF assms(1)]) (simp_all add: d')
qed

lemma db_step_advance:
  assumes "db_step X T d d'" and "db_inv d"
  shows "tables_advance d d'"
  using assms
proof (induction rule: db_step.induct)
  case (step_create_organization i j now name slug email h d r d')
  then show ?case
    by (cases r) (auto dest!: create_organization_eq intro!: tables_advance_subset [OF db_invD(1)])
next
  case (step_create_user i now g email h ro d u d')
  then show ?case
    by (auto simp: create_user_def dest!: insert_user_eq intro!: tables_advance_subset [OF db_invD(1)])
next
  case (step_create_project i now g key name desc d p d')
  then show ?case
    by (auto simp: create_project_def Let_def and_then_Inr intro!: tables_advance_subset [OF db_invD(1)])
next
  case (step_delete_project g key d d')
  then obtain P Q d2 where c: "cascade_flags P (cascade_environments Q d) = Inr d2"
    and d': "\<exists>R. d' = d2\<lparr>db_projects := R\<rparr>"
    by (auto simp: delete_project_def Let_def and_then_Inr split: if_splits)
  have u: "keys_unique d" using step_delete_project(2) by (rule db_invD)
  have "db_configs d' = db_configs d2" "db_segments d' = db_segments d2" "db_experiments d' = db_experiments d2"
    using d' by auto
  then show ?case
    using cascade_flags_subset [OF c] cascade_environments_advance [OF u, of Q]
    by (intro tables_advance_subset [OF u]) auto
next
  case (step_create_environment i now prj key name salt production d e d')
  then show ?case by (blast intro: create_environment_advance)
next
  case (step_delete_environment prj key d d')
  then have u: "keys_unique d" by (blast dest: db_invD)
  obtain gone where "d' = cascade_environments gone d"
    using step_delete_environment(1) by (auto simp: delete_environment_def Let_def split: if_splits)
  then show ?case
    using cascade_environments_advance [OF u, of gone] by (intro tables_advance_subset [OF u]) simp_all
next
  case (step_create_flag i now prj key name desc vs off ft d f d')
  then show ?case by (blast intro: create_flag_advance)
next
  case (step_update_flag now i name' desc' vs' arch d f d')
  then show ?case
    by (auto simp: update_flag_def Let_def and_then_Inr split: option.splits
        intro!: tables_advance_subset [OF db_invD(1)])
next
  case (step_delete_flag prj key d d')
  then obtain gone where "cascade_flags gone d = Inr d'"
    by (auto simp: delete_flag_def Let_def and_then_Inr split: if_splits)
  from cascade_flags_subset [OF this] db_invD(1) [OF step_delete_flag(2)] show ?case
    by (intro tables_advance_subset) simp_all
next
  case (step_upsert_config now fid eid en off ft rs expected d c d')
  then show ?case by (blast intro: upsert_config_advance)
next
  case (step_create_segment i now eid key name desc d s d')
  note c = create_segment_eq [OF step_create_segment(1)] and u = db_invD(1) [OF step_create_segment(2)]
  have "advances segment_key (\<lambda>s s'. sg_version s < sg_version s') (db_segments d) (db_segments d @ [s])"
    using u c(2-) by (intro advances_append) (simp_all add: keys_unique_def)
  then show ?case by (intro tables_advance_segments [OF u]) (simp_all add: c(1))
next
  case (step_write_segment now eid key ch expected current d s d')
  then show ?case by (blast intro: write_segment_advance db_invD)
next
  case (step_delete_segment eid key d d')
  from delete_segment_eq [OF this(1)] db_invD(1) [OF this(2)] show ?case
    by (intro tables_advance_subset) auto
next
  case (step_create_experiment i now eid fid key name desc metric control d x d')
  note u = db_invD(1) [OF step_create_experiment(2)]
  from create_experiment_eq [OF step_create_experiment(1)] show ?case
  proof (elim disjE conjE exE, goal_cases)
    case 1
    then show ?case using u by (intro tables_advance_subset) simp_all
  next
    case (2 row)
    then have "advances ex_id experiment_advance (db_experiments d) (db_experiments d @ [row])"
      using u by (intro advances_append) (simp_all add: keys_unique_def)
    then show ?case by (intro tables_advance_experiments [OF u]) (simp_all add: 2(1))
  qed
next
  case (step_update_experiment now eid key name' desc' d x d')
  note u = db_invD(1) [OF step_update_experiment(2)]
  from step_update_experiment(1) consider "d' = d"
    | cond where "d' = update_experiments now cond (\<lambda>x. x\<lparr>ex_name := unwrap_or name' (ex_name x),
        ex_description := unwrap_or desc' (ex_description x)\<rparr>) d"
    by (auto simp: update_experiment_def Let_def split: if_splits)
  then show ?case
  proof cases
    case 1
    then show ?thesis using u by (intro tables_advance_subset) simp_all
  next
    case 2
    then show ?thesis
      by (simp, intro update_experiments_advance [OF u]) (simp_all add: experiment_advance_def touch_experiment_def)
  qed
next
  case (step_start_experiment now eid key d x d')
  then show ?case
    unfolding start_experiment_def
    by (intro transition_advance [of d Draft Running]) (auto dest: db_invD simp: state_rank_def)
next
  case (step_stop_experiment now eid key d x d')
  then show ?case
    unfolding stop_experiment_def
    by (intro transition_advance [of d Running Stopped]) (auto dest: db_invD simp: state_rank_def)
next
  case (step_delete_experiment eid key d d')
  from delete_experiment_eq [OF this(1)] db_invD(1) [OF this(2)] show ?case
    by (intro tables_advance_subset) auto
next
  case (step_backdate_start now eid key t d d')
  then have "d' = update_experiments now (\<lambda>x. ex_environment_id x = eid \<and> ex_key x = key \<and> ex_state x = Running)
      (\<lambda>x. x\<lparr>ex_started_at := Some t\<rparr>) d"
    by (auto simp: backdate_start_def Let_def split: if_splits)
  then show ?case
    using db_invD(1) [OF step_backdate_start(2)]
    by (simp, intro update_experiments_advance) (simp_all add: experiment_advance_def touch_experiment_def)
next
  case (step_ingest trunc eid deltas d n d')
  then obtain cs where "d' = d\<lparr>db_counters := cs\<rparr>" by (blast elim: ingest_Inr)
  then show ?case using db_invD(1) [OF step_ingest(2)] by (intro tables_advance_subset) simp_all
next
  case (step_create_api_key i now eid name hash display scope d k d')
  from create_api_key_eq [OF this(1)] db_invD(1) [OF this(2)] show ?case
    by (intro tables_advance_subset) simp_all
next
  case (step_revoke_api_key now eid i d d')
  then show ?case
    by (auto simp: revoke_api_key_def split: if_splits intro!: tables_advance_subset [OF db_invD(1)])
next
  case (step_touch_api_key d now i)
  then show ?case using db_invD(1) by (intro tables_advance_subset) (simp_all add: touch_api_key_def)
next
  case (step_audit_record now entry d n d')
  from audit_record_eq [OF this(1)] db_invD(1) [OF this(2)] show ?case
    by (elim exE conjE) (intro tables_advance_subset, simp_all)
qed

lemma advancesD:
  "advances key P rs rs' \<Longrightarrow> r \<in> set rs \<Longrightarrow> r' \<in> set rs' \<Longrightarrow> key r = key r' \<Longrightarrow> r' = r \<or> P r r'"
  by (auto simp: advances_def)

interpretation cfg: versioned_rows "db_step X T" db_inv db_configs config_key fc_version for X T
proof
  fix s s' r r'
  assume "db_inv s" "db_step X T s s'" "r \<in> set (db_configs s)" "r' \<in> set (db_configs s')" "config_key r = config_key r'"
  then show "r' = r \<or> fc_version r < fc_version r'"
    using db_step_advance [of X T s s'] by (auto simp: tables_advance_def advances_def)
qed (auto intro: db_step_inv dest: db_invD(1) simp: keys_unique_def)

interpretation sgm: versioned_rows "db_step X T" db_inv db_segments segment_key sg_version for X T
proof
  fix s s' r r'
  assume "db_inv s" "db_step X T s s'" "r \<in> set (db_segments s)" "r' \<in> set (db_segments s')" "segment_key r = segment_key r'"
  then show "r' = r \<or> sg_version r < sg_version r'"
    using db_step_advance [of X T s s'] by (auto simp: tables_advance_def advances_def)
qed (auto intro: db_step_inv dest: db_invD(1) simp: keys_unique_def)

interpretation xpm: versioned_rows "db_step X T" db_inv db_experiments ex_id ex_version for X T
proof
  fix s s' r r'
  assume "db_inv s" "db_step X T s s'" "r \<in> set (db_experiments s)" "r' \<in> set (db_experiments s')" "ex_id r = ex_id r'"
  then show "r' = r \<or> ex_version r < ex_version r'"
    using db_step_advance [of X T s s'] by (auto simp: tables_advance_def advances_def experiment_advance_def)
qed (auto intro: db_step_inv dest: db_invD(1) simp: keys_unique_def)

section \<open>Properties\<close>


definition demo_tables :: case_tables where
  "demo_tables = \<lparr>str_lower = id, sql_lower = id\<rparr>"

text \<open>A database the operations build: an organization, a project and a flag, then an environment.\<close>

definition demo_signup :: db where
  "demo_signup = snd (projr (create_organization_with_owner demo_tables 1 5 0 ''Acme'' ''acme'' ''a@b.c'' ''h'' db_empty))"

definition demo_project :: db where
  "demo_project = snd (projr (create_project 2 0 1 ''shop'' ''Shop'' None demo_signup))"

definition demo_flag_only :: db where
  "demo_flag_only = snd (projr (create_flag 4 0 2 ''f'' ''F'' None
     [\<lparr>variant_key = ''on'', variant_value = VBool True\<rparr>] ''on'' (Fixed ''on'') demo_project))"

definition demo_seeded :: db where
  "demo_seeded = snd (projr (create_environment 3 0 2 ''prod'' ''Production'' ''s'' True demo_flag_only))"

lemma projr_run: "\<not> isl r \<Longrightarrow> r = Inr (fst (projr r), snd (projr r))"
  by (cases r) simp_all

lemma demo_checks:
  "check_slug ''acme''" "check_name ''Acme''" "check_name ''Shop''" "is_valid_key ''shop''" "check_name ''F''"
  "is_valid_key ''f''" "check_name ''Production''" "is_valid_key ''prod''"
  by code_simp+

lemmas demo_eval = create_organization_with_owner_def insert_user_def create_project_def create_flag_def
  create_environment_def Let_def constraints_def db_empty_def demo_checks environments_of_def


lemma demo_signup_runs: "\<not> isl (create_organization_with_owner demo_tables 1 5 0 ''Acme'' ''acme'' ''a@b.c'' ''h'' db_empty)"
  by (simp add: demo_eval)

lemma demo_project_runs: "\<not> isl (create_project 2 0 1 ''shop'' ''Shop'' None demo_signup)"
  by (simp add: demo_signup_def demo_eval)

lemma demo_flag_runs: "\<not> isl (create_flag 4 0 2 ''f'' ''F'' None [\<lparr>variant_key = ''on'', variant_value = VBool True\<rparr>] ''on'' (Fixed ''on'') demo_project)"
  by (simp add: demo_signup_def demo_project_def demo_eval)

lemma demo_environment_runs: "\<not> isl (create_environment 3 0 2 ''prod'' ''Production'' ''s'' True demo_flag_only)"
  by (simp add: demo_signup_def demo_project_def demo_flag_only_def demo_eval seeded_config_def reference_config_def default_variant_def notify_def)

lemma demo_seeded_configs:  "db_configs demo_seeded \<noteq> []"
  by (simp add: demo_signup_def demo_project_def demo_flag_only_def demo_seeded_def demo_eval seeded_config_def reference_config_def default_variant_def notify_def)

lemma demo_steps:
  "db_step demo_externals demo_tables db_empty demo_signup"
  "db_step demo_externals demo_tables demo_signup demo_project"
  "db_step demo_externals demo_tables demo_project demo_flag_only"
  "db_step demo_externals demo_tables demo_flag_only demo_seeded"
  unfolding demo_signup_def demo_project_def demo_flag_only_def demo_seeded_def
  by (rule step_create_organization [OF projr_run [OF demo_signup_runs]])
     (rule step_create_project [OF projr_run [OF demo_project_runs, unfolded demo_signup_def]],
      rule step_create_flag [OF projr_run [OF demo_flag_runs, unfolded demo_project_def demo_signup_def]],
      rule step_create_environment
        [OF projr_run [OF demo_environment_runs, unfolded demo_flag_only_def demo_project_def demo_signup_def]])



lemma demo_guarded_write:
  "\<exists>c c' d2. find_config 4 3 demo_db = Inr c \<and>
     upsert_config demo_externals 9 4 3 True ''off'' (Fixed ''on'') [] (Some (fc_version c))
       (touch_api_key 8 7 demo_db) = Inr (c', d2)"
  by (simp add: find_config_def upsert_config_def demo_db_def or_not_found_def touch_api_key_def Let_def)


text \<open>
  C23. An experiment never moves backwards: along any sequence of operations that keeps it, its
  state only advances from draft to running to stopped, its flag, metric and control variant
  never change, and once it is stopped its measurement window is fixed. Every change raises
  its version, so an unchanged version means an unchanged experiment.
\<close>

theorem experiment_never_reopens:
  assumes "db_inv d" and "(\<lambda>a b. db_step X T a b \<and> i \<in> ex_id ` set (db_experiments b))\<^sup>*\<^sup>* d d'"
    and "x \<in> set (db_experiments d)" and "ex_id x = i" and "x' \<in> set (db_experiments d')" and "ex_id x' = i"
  shows "(x' = x \<or> experiment_advance x x') \<and> (ex_version x' = ex_version x \<longrightarrow> x' = x)"
proof -
  have "x' = x \<or> experiment_advance x x'"
    using assms(2,5,6)
  proof (induction arbitrary: x' rule: rtranclp_induct)
    case base
    then show ?case
      using unique_by [OF xpm.unique [OF assms(1)] assms(3), of x'] assms(4) by simp
  next
    case (step y z)
    obtain q where q: "q \<in> set (db_experiments y)" "ex_id q = i"
      using step(1) assms(3,4) by (cases rule: rtranclp.cases) auto
    have "db_inv y" by (rule xpm.invar_path [OF step(1) assms(1)])
    then have "x' = q \<or> experiment_advance q x'"
      using db_step_advance [of X T y z] step(2,4,5) q by (auto simp: tables_advance_def dest: advancesD)
    moreover have "q = x \<or> experiment_advance x q" using step(3) [OF q] .
    ultimately show ?case
      by (auto simp: experiment_advance_def state_rank_def split: experiment_state.splits)
  qed
  then show ?thesis by (auto simp: experiment_advance_def)
qed

theorem experiment_never_reopens_witness:
  "\<exists>v d'. stop_experiment 9 3 ''exp'' demo_experiment_db = (Inr v, d') \<and>
     experiment_advance (hd (db_experiments demo_experiment_db)) (exp_row v)"
proof -
  let ?d = "demo_experiment_db" and ?x = "hd (db_experiments demo_experiment_db)"
  obtain v d' where run: "stop_experiment 9 3 ''exp'' ?d = (Inr v, d')"
    and x': "exp_row v \<in> set (db_experiments d')" "ex_id (exp_row v) = 8" "ex_version (exp_row v) = 3"
    and there: "8 \<in> ex_id ` set (db_experiments d')"
    by (simp add: stop_experiment_def transition_def find_experiment_def experiment_query_def
        update_experiments_def touch_experiment_def demo_experiment_db_def demo_db_def)
  have "(\<lambda>a b. db_step demo_externals demo_tables a b \<and> 8 \<in> ex_id ` set (db_experiments b))\<^sup>*\<^sup>* ?d d'"
    using step_stop_experiment [OF run] there by blast
  moreover have "?x \<in> set (db_experiments ?d)" "ex_id ?x = 8" "ex_version ?x = 2"
    by (simp_all add: demo_experiment_db_def)
  ultimately have "exp_row v = ?x \<or> experiment_advance ?x (exp_row v)"
    using experiment_never_reopens [OF demo_experiment_db_inv(1) _ _ _ x'(1,2)] by blast
  then show ?thesis using run x'(3) \<open>ex_version ?x = 2\<close> by auto
qed

end
