(* ===== verification/Storage_Announce.thy ===== *)
theory Storage_Announce
  imports Storage_Steps
begin

text \<open>
  The notify triggers of \<^verbatim>\<open>migrations/\<close>: which environments a storage operation announces as
  changed. Every operation that changes what a snapshot of an environment is loaded from
  announces that environment.
\<close>

section \<open>What a snapshot depends on\<close>

text \<open>
  The rows a snapshot of an environment is loaded from: the environment, its configurations,
  segments and experiments, the flags its configurations belong to, and the keys of the flags
  its experiments measure.
\<close>

definition env_configs :: "uuid \<Rightarrow> db \<Rightarrow> flag_config list" where
  "env_configs eid d = filter (\<lambda>c. fc_environment_id c = eid) (db_configs d)"

definition env_segments :: "uuid \<Rightarrow> db \<Rightarrow> segment_row list" where
  "env_segments eid d = filter (\<lambda>s. sg_environment_id s = eid) (db_segments d)"

definition env_experiments :: "uuid \<Rightarrow> db \<Rightarrow> experiment_row list" where
  "env_experiments eid d = filter (\<lambda>x. ex_environment_id x = eid) (db_experiments d)"

definition env_flags :: "uuid \<Rightarrow> db \<Rightarrow> flag_row list" where
  "env_flags eid d = filter (\<lambda>f. fl_id f \<in> fc_flag_id ` set (env_configs eid d)) (db_flags d)"

definition measured_flags :: "uuid \<Rightarrow> db \<Rightarrow> (uuid \<times> string) list" where
  "measured_flags eid d =
     map (\<lambda>f. (fl_id f, fl_key f))
       (filter (\<lambda>f. fl_id f \<in> ex_flag_id ` set (env_experiments eid d)) (db_flags d))"

definition same_part :: "uuid \<Rightarrow> db \<Rightarrow> db \<Rightarrow> bool" where
  "same_part eid d d' =
     (find (\<lambda>e. en_id e = eid) (db_environments d') = find (\<lambda>e. en_id e = eid) (db_environments d) \<and>
      env_configs eid d' = env_configs eid d \<and> env_segments eid d' = env_segments eid d \<and>
      env_experiments eid d' = env_experiments eid d \<and> env_flags eid d' = env_flags eid d \<and>
      measured_flags eid d' = measured_flags eid d)"

lemma filter_product:
  "filter (\<lambda>(x, y). P x \<and> Q y \<and> R x y) (List.product xs ys) =
     filter (\<lambda>(x, y). R x y) (List.product (filter P xs) (filter Q ys))"
proof (induction xs)
  case (Cons x xs)
  have "filter (\<lambda>(x, y). P x \<and> Q y \<and> R x y) (map (Pair x) ys) =
      (if P x then filter (\<lambda>(x, y). R x y) (map (Pair x) (filter Q ys)) else [])"
    by (induction ys) auto
  with Cons show ?case by simp
qed simp

lemma sort_key_map: "sort_key k (map f xs) = map f (sort_key (\<lambda>x. k (f x)) xs)"
proof -
  have ins: "insort_key k (f x) (map f ys) = map f (insort_key (\<lambda>x. k (f x)) x ys)" for x ys
    by (induction ys) auto
  show ?thesis by (induction xs) (simp_all add: ins)
qed

lemma product_map: "List.product xs (map g ys) = map (\<lambda>(x, y). (x, g y)) (List.product xs ys)"
  by (induction xs) (auto simp: comp_def)

lemma load_flags_part:
  "load_environment_flags eid d =
     sort_key (\<lambda>(f, c). fl_key f)
       (filter (\<lambda>(f, c). fl_id f = fc_flag_id c \<and> \<not> fl_archived f)
          (List.product (env_flags eid d) (env_configs eid d)))"
proof -
  have "filter (\<lambda>(f, c). fl_id f = fc_flag_id c \<and> fc_environment_id c = eid \<and> \<not> fl_archived f)
          (List.product (db_flags d) (db_configs d)) =
      filter (\<lambda>(f, c). fl_id f \<in> fc_flag_id ` set (env_configs eid d) \<and> fc_environment_id c = eid \<and>
          fl_id f = fc_flag_id c \<and> \<not> fl_archived f) (List.product (db_flags d) (db_configs d))"
    by (rule filter_cong) (auto simp: env_configs_def)
  then show ?thesis
    unfolding load_environment_flags_def env_flags_def
    by (simp only: filter_product) (simp add: env_configs_def)
qed

lemma load_segments_part: "load_environment_segments eid d = map segment_definition (sort_key sg_key (env_segments eid d))"
  by (simp add: load_environment_segments_def list_segments_def env_segments_def)

definition spec_of_parts :: "experiment_row \<times> uuid \<times> string \<Rightarrow> experiment_spec" where
  "spec_of_parts = (\<lambda>(x, i, k). \<lparr>xs_key = ex_key x, xs_flag_key = k, xs_metric_key = ex_metric_key x,
      xs_control_variant = ex_control_variant x, xs_version = ex_version x\<rparr>)"

lemma load_experiments_part:
  "load_running_experiments eid d =
     map spec_of_parts (sort_key (\<lambda>(x, i, k). ex_key x)
       (filter (\<lambda>(x, i, k). i = ex_flag_id x \<and> ex_state x = Running)
          (List.product (env_experiments eid d) (measured_flags eid d))))"
proof -
  let ?R = "\<lambda>f. fl_id f \<in> ex_flag_id ` set (env_experiments eid d)"
  have "filter (\<lambda>(x, f). fl_id f = ex_flag_id x \<and> ex_environment_id x = eid \<and> ex_state x = Running)
          (List.product (db_experiments d) (db_flags d)) =
      filter (\<lambda>(x, f). ex_environment_id x = eid \<and> ?R f \<and> fl_id f = ex_flag_id x \<and> ex_state x = Running)
          (List.product (db_experiments d) (db_flags d))"
    by (rule filter_cong) (auto simp: env_experiments_def)
  also have "\<dots> = filter (\<lambda>(x, f). fl_id f = ex_flag_id x \<and> ex_state x = Running)
      (List.product (env_experiments eid d) (filter ?R (db_flags d)))"
    by (simp only: filter_product) (simp add: env_experiments_def)
  finally show ?thesis
    by (simp add: load_running_experiments_def experiment_query_def sort_key_map measured_flags_def
        product_map filter_map comp_def case_prod_unfold spec_of_parts_def experiment_spec_of_def)
qed

lemma load_same_part: "same_part eid d d' \<Longrightarrow> load now eid d' = load now eid d"
  unfolding load_def load_flags_part load_segments_part load_experiments_part
  by (simp add: same_part_def)

section \<open>Every change is announced\<close>

definition env_ids :: "db \<Rightarrow> uuid set" where
  "env_ids d = en_id ` set (db_environments d)"

definition announces :: "db \<Rightarrow> db \<Rightarrow> bool" where
  "announces d d' =
     (\<exists>new. db_notified d' = db_notified d @ new \<and>
        (\<forall>eid \<in> env_ids d \<inter> env_ids d'. same_part eid d d' \<or> eid \<in> set new))"

lemma announcesI:
  assumes "db_notified d' = db_notified d @ new"
    and "\<And>eid. eid \<in> env_ids d \<Longrightarrow> eid \<in> env_ids d' \<Longrightarrow> eid \<notin> set new \<Longrightarrow> same_part eid d d'"
  shows "announces d d'"
  using assms unfolding announces_def by blast

lemma same_part_refl [simp]: "same_part eid d d"
  by (simp add: same_part_def)

lemma same_part_trans: "same_part eid d d' \<Longrightarrow> same_part eid d' d'' \<Longrightarrow> same_part eid d d''"
  by (simp add: same_part_def)

lemma announces_refl [simp]: "announces d d"
  by (rule announcesI [of _ _ "[]"]) simp_all

lemma announces_trans:
  assumes "announces d d'" and "announces d' d''" and "env_ids d'' \<subseteq> env_ids d'"
  shows "announces d d''"
proof -
  from assms(1,2) obtain n m where "db_notified d' = db_notified d @ n" "db_notified d'' = db_notified d' @ m"
    and part: "\<forall>eid \<in> env_ids d \<inter> env_ids d'. same_part eid d d' \<or> eid \<in> set n"
      "\<forall>eid \<in> env_ids d' \<inter> env_ids d''. same_part eid d' d'' \<or> eid \<in> set m"
    unfolding announces_def by blast
  then show ?thesis
    using assms(3) by (intro announcesI [of _ _ "n @ m"]) (auto intro: same_part_trans)
qed

text \<open>A step that touches none of the tables behind a snapshot.\<close>

definition quiet :: "db \<Rightarrow> db \<Rightarrow> bool" where
  "quiet d d' =
     (db_environments d' = db_environments d \<and> db_flags d' = db_flags d \<and> db_configs d' = db_configs d \<and>
      db_segments d' = db_segments d \<and> db_experiments d' = db_experiments d \<and> db_notified d' = db_notified d)"

lemmas part_defs = same_part_def env_configs_def env_segments_def env_experiments_def env_flags_def
  measured_flags_def

lemma quiet_announces: "quiet d d' \<Longrightarrow> announces d d'"
  by (rule announcesI [of _ _ "[]"]) (simp_all add: quiet_def part_defs)

lemma notified_notify [simp]: "db_notified (notify es d) = db_notified d @ es"
  by (simp add: notify_def)

lemma quiet_steps:
  "create_organization_with_owner T i j now name slug email h d = Inr (r, d') \<Longrightarrow> quiet d d'"
  "create_user T i now g email h ro d = Inr (u, d') \<Longrightarrow> quiet d d'"
  "create_project i now g key name desc d = Inr (p, d') \<Longrightarrow> quiet d d'"
  "ingest_counters trunc eid deltas d = Inr (n, d') \<Longrightarrow> quiet d d'"
  "create_api_key i now eid name hash display scope d = Inr (k, d') \<Longrightarrow> quiet d d'"
  "revoke_api_key now eid i d = Inr d' \<Longrightarrow> quiet d d'"
  "audit_record now entry d = Inr (m, d') \<Longrightarrow> quiet d d'"
proof goal_cases
  case 1 then show ?case by (cases r) (auto simp: quiet_def dest!: create_organization_eq)
next
  case 2 then show ?case by (auto simp: quiet_def create_user_def dest!: insert_user_eq)
next
  case 3 then show ?case by (auto simp: quiet_def create_project_def Let_def and_then_Inr)
next
  case 4 then show ?case by (auto simp: quiet_def elim: ingest_Inr)
next
  case 5 then show ?case by (auto simp: quiet_def dest!: create_api_key_eq)
next
  case 6 then show ?case by (auto simp: quiet_def revoke_api_key_def split: if_splits)
next
  case 7 then show ?case by (auto simp: quiet_def dest!: audit_record_eq)
qed

lemma quiet_touch: "quiet d (touch_api_key now i d)"
  by (simp add: quiet_def touch_api_key_def)

lemma filter_map_other:
  "(\<And>x. x \<in> set xs \<Longrightarrow> P x \<Longrightarrow> f x = x) \<Longrightarrow> (\<And>x. x \<in> set xs \<Longrightarrow> P (f x) = P x) \<Longrightarrow> filter P (map f xs) = filter P xs"
  by (induction xs) auto

lemma config_table_announces:
  assumes "d' = notify [eid] (d\<lparr>db_configs := cs\<rparr>)"
    and "\<And>k. k \<noteq> eid \<Longrightarrow> filter (\<lambda>c. fc_environment_id c = k) cs =
        filter (\<lambda>c. fc_environment_id c = k) (db_configs d)"
  shows "announces d d'"
  by (rule announcesI [of _ _ "[eid]"]) (auto simp: assms part_defs)

lemma upsert_config_announces:
  assumes "upsert_config X now fid eid en off ft rs expected d = Inr (c, d')"
  shows "announces d d'"
proof (cases "find (\<lambda>c. fc_flag_id c = fid \<and> fc_environment_id c = eid) (db_configs d)")
  case None
  with assms have "d' = notify [eid] (d\<lparr>db_configs := db_configs d @ [c]\<rparr>)" "fc_environment_id c = eid"
    by (auto simp: upsert_config_def Let_def and_then_Inr)
  then show ?thesis by (intro config_table_announces [where eid = eid and cs = "db_configs d @ [c]"]) auto
next
  case (Some b)
  let ?f = "\<lambda>b. if fc_flag_id b = fid \<and> fc_environment_id b = eid then c else b"
  from Some assms find_SomeD [OF Some]
  have d': "d' = notify [eid] (d\<lparr>db_configs := map ?f (db_configs d)\<rparr>)" and c: "fc_environment_id c = eid"
    by (auto simp: upsert_config_def Let_def split: if_splits)
  from c have "filter (\<lambda>c. fc_environment_id c = k) (map ?f (db_configs d)) =
      filter (\<lambda>c. fc_environment_id c = k) (db_configs d)" if "k \<noteq> eid" for k
    using that by (intro filter_map_other) auto
  then show ?thesis by (intro config_table_announces [OF d']) simp
qed

lemma segment_table_announces:
  assumes "d' = notify [eid] (d\<lparr>db_segments := ss\<rparr>)"
    and "\<And>k. k \<noteq> eid \<Longrightarrow> filter (\<lambda>s. sg_environment_id s = k) ss =
        filter (\<lambda>s. sg_environment_id s = k) (db_segments d)"
  shows "announces d d'"
  by (rule announcesI [of _ _ "[eid]"]) (auto simp: assms part_defs)

lemma create_segment_announces:
  "create_segment i now eid key name desc d = Inr (s, d') \<Longrightarrow> announces d d'"
  by (rule segment_table_announces [where eid = eid and ss = "db_segments d @ [s]"])
     (auto simp: create_segment_def Let_def and_then_Inr)

lemma write_segment_announces:
  assumes "write_segment now eid key ch expected current d = Inr (s, d')"
  shows "announces d d'"
proof -
  let ?here = "\<lambda>s. sg_environment_id s = eid \<and> sg_key s = key \<and> (expected = None \<or> expected = Some (sg_version s))"
  let ?f = "\<lambda>t. if ?here t then s else t"
  from assms obtain t where t: "find ?here (db_segments d) = Some t" "s = updated_segment now ch t"
    and d': "d' = notify [eid] (d\<lparr>db_segments := map ?f (db_segments d)\<rparr>)"
    unfolding write_segment_def by (auto simp: Let_def and_then_Inr split: option.splits)
  have "sg_environment_id s = eid" using find_SomeD [OF t(1)] by (simp add: t(2) updated_segment_def)
  then have "filter (\<lambda>s. sg_environment_id s = k) (map ?f (db_segments d)) =
      filter (\<lambda>s. sg_environment_id s = k) (db_segments d)" if "k \<noteq> eid" for k
    using that by (intro filter_map_other) auto
  then show ?thesis by (intro segment_table_announces [OF d']) simp
qed

lemma delete_segment_announces: "delete_segment eid key d = Inr d' \<Longrightarrow> announces d d'"
  by (auto simp: delete_segment_def Let_def split: if_splits
      intro!: segment_table_announces intro: filter_cong)

lemma update_experiments_announces:
  assumes "\<And>x. ex_environment_id (f x) = ex_environment_id x" "\<And>x. ex_flag_id (f x) = ex_flag_id x"
  shows "announces d (update_experiments now cond f d)"
proof (rule announcesI [of _ _ "map ex_environment_id (filter cond (db_experiments d))"])
  fix eid
  assume "eid \<notin> set (map ex_environment_id (filter cond (db_experiments d)))"
  then have "\<not> cond x" if "x \<in> set (db_experiments d)" "ex_environment_id x = eid" for x
    using that by auto
  then have "env_experiments eid (update_experiments now cond f d) = env_experiments eid d"
    by (auto simp: env_experiments_def update_experiments_def touch_experiment_def assms intro!: filter_map_other)
  then show "same_part eid d (update_experiments now cond f d)"
    by (simp add: same_part_def env_configs_def env_segments_def env_flags_def measured_flags_def)
       (simp add: update_experiments_def)
qed (simp add: update_experiments_def)

lemma experiment_steps_announce:
  "update_experiment now eid key name' desc' d = (x, d') \<Longrightarrow> announces d d'"
  "start_experiment now eid key d = (x, d') \<Longrightarrow> announces d d'"
  "stop_experiment now eid key d = (x, d') \<Longrightarrow> announces d d'"
  "backdate_start now eid key t d = Inr d' \<Longrightarrow> announces d d'"
  by (auto simp: update_experiment_def start_experiment_def stop_experiment_def transition_def
      backdate_start_def Let_def split: if_splits intro!: update_experiments_announces)

lemma create_experiment_announces:
  assumes "create_experiment i now eid fid key name desc metric control d = (x, d')"
    and "db_inv d"
  shows "announces d d'"
proof -
  from create_experiment_eq [OF assms(1)] consider "d' = d"
    | r where "d' = notify [eid] (d\<lparr>db_experiments := db_experiments d @ [r]\<rparr>)" "ex_environment_id r = eid"
    by auto
  then show ?thesis
  proof cases
    case 2
    then show ?thesis by (intro announcesI [of _ _ "[eid]"]) (auto simp: part_defs)
  qed simp
qed

lemma delete_experiment_announces:
  assumes "delete_experiment eid key d = Inr d'"
  shows "announces d d'"
proof -
  let ?gone = "\<lambda>x. ex_environment_id x = eid \<and> ex_key x = key \<and> ex_state x \<noteq> Running"
  from assms have "\<exists>cs. d' = notify (map ex_environment_id (filter ?gone (db_experiments d)))
      (d\<lparr>db_experiments := filter (\<lambda>x. \<not> ?gone x) (db_experiments d), db_counters := cs\<rparr>)"
    and "list_ex ?gone (db_experiments d)"
    by (auto simp: delete_experiment_def Let_def and_then_def split: if_splits sum.splits)
  then obtain cs where d': "d' = notify (map ex_environment_id (filter ?gone (db_experiments d)))
      (d\<lparr>db_experiments := filter (\<lambda>x. \<not> ?gone x) (db_experiments d), db_counters := cs\<rparr>)" by blast
  show ?thesis
  proof (rule announcesI [of _ _ "map ex_environment_id (filter ?gone (db_experiments d))"])
    fix k
    assume "k \<notin> set (map ex_environment_id (filter ?gone (db_experiments d)))"
    then have "env_experiments k d' = env_experiments k d"
      by (auto simp: env_experiments_def d' filter_filter intro!: filter_cong)
    then show "same_part k d d'"
      by (simp add: same_part_def measured_flags_def) (simp add: d' env_configs_def env_segments_def env_flags_def)
  qed (simp add: d')
qed

lemma find_append_other: "\<not> P x \<Longrightarrow> find P (xs @ [x]) = find P xs"
  by (induction xs) auto

lemma create_environment_announces:
  assumes "create_environment i now prj key name salt production d = Inr (e, d')"
  shows "announces d d'"
proof -
  from assms obtain cs where i: "i \<notin> en_id ` set (db_environments d)" "en_id e = i"
    and cs: "map (\<lambda>c. (fc_flag_id c, fc_environment_id c)) cs =
      map (\<lambda>f. (fl_id f, i)) (filter (\<lambda>f. fl_project_id f = prj) (db_flags d))"
    and d': "d' = notify (map fc_environment_id cs)
      (d\<lparr>db_environments := db_environments d @ [e], db_configs := db_configs d @ cs\<rparr>)"
    by (rule create_environment_cases)
  have "fc_environment_id c = i" if "c \<in> set cs" for c
  proof -
    have "(fc_flag_id c, fc_environment_id c) \<in> set (map (\<lambda>c. (fc_flag_id c, fc_environment_id c)) cs)"
      using that by force
    then show ?thesis unfolding cs by auto
  qed
  then have "filter (\<lambda>c. fc_environment_id c = k) cs = []" if "k \<noteq> i" for k
    using that by (auto simp: filter_empty_conv)
  moreover have "k \<noteq> i" if "k \<in> env_ids d" for k using that i(1) unfolding env_ids_def by blast
  ultimately show ?thesis
    by (intro announcesI [of _ _ "map fc_environment_id cs"], simp add: d')
       (subst same_part_def, simp add: d' env_configs_def env_segments_def env_experiments_def env_flags_def
          measured_flags_def, subst find_append_other, auto simp: i(2))
qed

lemma find_filter_kept: "(\<And>x. x \<in> set xs \<Longrightarrow> P x \<Longrightarrow> Q x) \<Longrightarrow> find P (filter Q xs) = find P xs"
  by (induction xs) auto

lemma cascade_environments_announces:
  assumes "distinct (map en_id (db_environments d))"
  shows "announces d (cascade_environments gone d)"
proof -
  let ?d = "cascade_environments gone d" and ?ids = "en_id ` set (filter gone (db_environments d))"
  have kept: "k \<notin> ?ids" if "k \<in> env_ids ?d" for k
    using that unique_by [OF assms] by (auto simp: env_ids_def cascade_environments_tables)
  have env: "find (\<lambda>e. en_id e = k) (db_environments ?d) = find (\<lambda>e. en_id e = k) (db_environments d)"
    if "k \<notin> ?ids" for k
    unfolding cascade_environments_tables using that by (intro find_filter_kept) auto
  have "env_configs k ?d = env_configs k d" "env_segments k ?d = env_segments k d"
    "env_experiments k ?d = env_experiments k d" if "k \<notin> ?ids" for k
    using that unfolding env_configs_def env_segments_def env_experiments_def cascade_environments_tables
    by (auto simp: filter_filter intro!: filter_cong)
  then have part: "same_part k d ?d" if "k \<notin> ?ids" for k
    using that env by (simp add: same_part_def env_flags_def measured_flags_def cascade_environments_tables(2))
  have "\<exists>es. db_notified ?d = db_notified d @ es" by (simp add: cascade_environments_def Let_def)
  then obtain es where "db_notified ?d = db_notified d @ es" by blast
  then show ?thesis by (rule announcesI) (use kept part in blast)
qed

lemma cascade_flags_announces:
  assumes "cascade_flags gone d = Inr d'"
  shows "announces d d'"
proof -
  let ?ids = "fl_id ` set (filter gone (db_flags d))"
  let ?es = "map fc_environment_id (filter (\<lambda>c. fc_flag_id c \<in> ?ids) (db_configs d))"
  from assms obtain es where es: "db_notified d' = db_notified d @ ?es @ es"
    and d': "db_flags d' = filter (\<lambda>f. \<not> gone f) (db_flags d)"
      "db_configs d' = filter (\<lambda>c. fc_flag_id c \<notin> ?ids) (db_configs d)"
      "db_environments d' = db_environments d" "db_segments d' = db_segments d" "db_experiments d' = db_experiments d"
    and used: "\<And>x. x \<in> set (db_experiments d) \<Longrightarrow> ex_flag_id x \<notin> ?ids"
    by (auto simp: cascade_flags_def Let_def list_ex_iff split: if_splits)
  show ?thesis
  proof (rule announcesI [OF es])
    fix k
    assume "k \<notin> set (?es @ es)"
    then have other: "fc_flag_id c \<notin> ?ids" if "c \<in> set (env_configs k d)" for c
      using that by (auto simp: env_configs_def)
    then have cs: "env_configs k d' = env_configs k d"
      by (auto simp: env_configs_def d' filter_filter intro!: filter_cong)
    have "\<not> gone f" if "f \<in> set (db_flags d)" "fl_id f \<in> fc_flag_id ` set (env_configs k d)" for f
    proof -
      from that(2) obtain c where "c \<in> set (env_configs k d)" "fl_id f = fc_flag_id c" by blast
      then have "fl_id f \<notin> ?ids" using other by (simp only: not_False_eq_True)
      then show ?thesis using that(1) by auto
    qed
    then have "env_flags k d' = env_flags k d"
      unfolding env_flags_def cs d' filter_filter by (intro filter_cong) blast+
    moreover have "\<not> gone f" if "f \<in> set (db_flags d)" "fl_id f \<in> ex_flag_id ` set (env_experiments k d)" for f
    proof -
      from that(2) obtain x where "x \<in> set (db_experiments d)" "fl_id f = ex_flag_id x"
        by (auto simp: env_experiments_def)
      then have "fl_id f \<notin> ?ids" using used by (simp only: not_False_eq_True)
      then show ?thesis using that(1) by auto
    qed
    then have "measured_flags k d' = measured_flags k d"
      unfolding measured_flags_def env_experiments_def d' filter_filter
      by (intro arg_cong2 [where f = map] refl filter_cong) (simp_all add: env_experiments_def, blast)
    ultimately show "same_part k d d'"
      by (simp add: same_part_def cs d' env_segments_def env_experiments_def)
  qed
qed

lemma create_flag_announces:
  assumes "create_flag i now prj key name desc vs off ft d = Inr (f, d')" and "db_inv d"
  shows "announces d d'"
proof -
  let ?envs = "map en_id (environments_of prj d)"
  note r = references_holdD [OF db_invD(2) [OF assms(2)]]
  define cs where "cs = map (\<lambda>e. \<lparr>fc_flag_id = i, fc_environment_id = e, fc_enabled = False,
      fc_off_variant = off, fc_fallthrough = ft, fc_rules = [], fc_version = 1, fc_updated_at = now\<rparr>) ?envs"
  from assms(1) have new: "i \<notin> fl_id ` set (db_flags d)" "fl_id f = i"
    and d': "d' = notify (?envs @ ?envs) (d\<lparr>db_flags := db_flags d @ [f], db_configs := db_configs d @ cs\<rparr>)"
    by (auto simp: create_flag_def Let_def and_then_Inr cs_def)
  have cs: "fc_environment_id ` set cs \<subseteq> set ?envs" by (auto simp: cs_def)
  show ?thesis
  proof (rule announcesI [of _ _ "?envs @ ?envs"])
    fix k
    assume k: "k \<notin> set (?envs @ ?envs)"
    then have "filter (\<lambda>c. fc_environment_id c = k) cs = []" using cs by (auto simp: filter_empty_conv)
    then have c: "env_configs k d' = env_configs k d" by (simp add: d' env_configs_def)
    have x: "env_experiments k d' = env_experiments k d" by (simp add: d' env_experiments_def)
    have "i \<notin> fc_flag_id ` set (env_configs k d)"
      using new(1) r(3) by (auto simp: env_configs_def)
    then have "env_flags k d' = env_flags k d" by (simp add: env_flags_def c) (simp add: d' new(2))
    moreover have "i \<notin> ex_flag_id ` set (env_experiments k d)"
      using new(1) r(7) by (auto simp: env_experiments_def)
    then have "measured_flags k d' = measured_flags k d" by (simp add: measured_flags_def x) (simp add: d' new(2))
    ultimately show "same_part k d d'" by (simp add: same_part_def c x) (simp add: d' env_segments_def)
  qed (simp add: d')
qed

lemma update_flag_announces:
  assumes "update_flag X now i name' desc' vs' arch d = Inr (f', d')" and "db_inv d" and "configs_local d"
  shows "announces d d'"
proof -
  from assms(1) obtain f where f: "find (\<lambda>f. fl_id f = i) (db_flags d) = Some f"
    and f': "f' = updated_flag now name' desc' vs' arch f"
    and d': "d' = notify (map en_id (environments_of (fl_project_id f) d))
      (d\<lparr>db_flags := map (\<lambda>g. if fl_id g = i then f' else g) (db_flags d)\<rparr>)"
    by (auto simp: update_flag_def Let_def and_then_Inr split: option.splits)
  have fi: "f \<in> set (db_flags d)" "fl_id f = i" using find_SomeD [OF f] by simp_all
  have same: "fl_id f' = i" "fl_key f' = fl_key f" using fi by (simp_all add: f' updated_flag_def)
  have only: "g = f" if "g \<in> set (db_flags d)" "fl_id g = i" for g
    using unique_by [of fl_id "db_flags d" g f] that fi db_invD(1) [OF assms(2)] by (simp add: keys_unique_def)
  show ?thesis
  proof (rule announcesI [of _ _ "map en_id (environments_of (fl_project_id f) d)"])
    fix k
    assume "k \<in> env_ids d" and k: "k \<notin> set (map en_id (environments_of (fl_project_id f) d))"
    then obtain e where e: "e \<in> set (db_environments d)" "en_id e = k" "en_project_id e \<noteq> fl_project_id f"
      by (auto simp: env_ids_def environments_of_def)
    have "i \<notin> fc_flag_id ` set (env_configs k d)"
    proof
      assume "i \<in> fc_flag_id ` set (env_configs k d)"
      then obtain c where "c \<in> set (db_configs d)" "fc_flag_id c = fl_id f" "fc_environment_id c = en_id e"
        using fi(2) e(2) by (auto simp: env_configs_def)
      then have "fl_project_id f = en_project_id e"
        using assms(3) fi(1) e(1) unfolding configs_local_def by blast
      with e(3) show False by simp
    qed
    then have "env_flags k d' = env_flags k d"
      using same by (simp add: env_flags_def env_configs_def d') (intro filter_map_other, auto)
    moreover have "map (\<lambda>f. (fl_id f, fl_key f)) (filter P (map (\<lambda>g. if fl_id g = i then f' else g) (db_flags d))) =
        map (\<lambda>f. (fl_id f, fl_key f)) (filter P (db_flags d))" if "\<And>g. P g \<longleftrightarrow> fl_id g \<in> S" for P S
    proof -
      have "map (\<lambda>f. (fl_id f, fl_key f)) (filter P (map (\<lambda>g. if fl_id g = i then f' else g) gs)) =
        map (\<lambda>f. (fl_id f, fl_key f)) (filter P gs)" if "set gs \<subseteq> set (db_flags d)" for gs
        using that by (induction gs) (auto simp: \<open>\<And>g. P g \<longleftrightarrow> fl_id g \<in> S\<close> same dest!: only)
      then show ?thesis by simp
    qed
    then have "measured_flags k d' = measured_flags k d"
      by (simp add: measured_flags_def env_experiments_def d')
    ultimately show "same_part k d d'"
      by (simp add: same_part_def) (simp add: d' env_configs_def env_segments_def env_experiments_def)
  qed (simp add: d')
qed

lemma env_ids_cascade_flags: "cascade_flags gone d = Inr d' \<Longrightarrow> env_ids d' = env_ids d"
  by (auto simp: env_ids_def cascade_flags_def Let_def split: if_splits)

lemma delete_project_announces:
  assumes "delete_project g key d = Inr d'" and "db_inv d"
  shows "announces d d'"
proof -
  from assms(1) obtain P Q d2 R where d2: "cascade_flags P (cascade_environments Q d) = Inr d2"
    and d': "d' = d2\<lparr>db_projects := R\<rparr>"
    by (auto simp: delete_project_def Let_def and_then_Inr split: if_splits)
  have "announces d (cascade_environments Q d)"
    using db_invD(1) [OF assms(2)] by (intro cascade_environments_announces) (simp add: keys_unique_def)
  then have "announces d d2"
    using cascade_flags_announces [OF d2] env_ids_cascade_flags [OF d2] by (blast intro: announces_trans)
  moreover have "announces d2 d'" by (rule quiet_announces) (simp add: d' quiet_def)
  ultimately show ?thesis by (rule announces_trans) (simp add: d' env_ids_def)
qed

lemma db_step_announces:
  "db_step X T d d' \<Longrightarrow> db_inv d \<Longrightarrow> configs_local d \<Longrightarrow> announces d d'"
proof (induction rule: db_step.induct)
  case (step_delete_environment prj key d d')
  then obtain gone where "d' = cascade_environments gone d"
    by (auto simp: delete_environment_def Let_def split: if_splits)
  then show ?case
    using db_invD(1) [OF step_delete_environment(2)] by (simp add: cascade_environments_announces keys_unique_def)
next
  case (step_delete_flag prj key d d')
  then show ?case
    by (auto simp: delete_flag_def Let_def and_then_Inr split: if_splits intro: cascade_flags_announces)
qed (rule quiet_announces, erule quiet_steps | rule quiet_announces, rule quiet_touch
  | erule create_environment_announces | erule (1) delete_project_announces
  | erule (1) create_flag_announces | erule (2) update_flag_announces | erule upsert_config_announces
  | erule create_segment_announces | erule write_segment_announces | erule delete_segment_announces
  | erule (1) create_experiment_announces | erule experiment_steps_announce
  | erule delete_experiment_announces)+

end
