(* ===== verification/Api_Cache.thy ===== *)
theory Api_Cache
  imports Storage_Announce
begin

text \<open>
  \<^verbatim>\<open>crates/api/src/cache.rs\<close>: one slot per environment with the last loaded snapshot. A slot
  without a value belongs to an environment whose first load has not succeeded. The outcome of
  a load is an argument of the operations, so that a failing database is one of the outcomes.

  The second half is the cache against a changing database: a load and the write of its result
  are two steps, with the slot's mutex held in between, and the changes announced by the
  database wait in a queue until the listener takes them.
\<close>

section \<open>The cache\<close>

record snapshot_cache =
  sc_slots :: "(uuid \<times> environment_snapshot option) list"

definition snapshot_cache_new :: snapshot_cache where
  "snapshot_cache_new = \<lparr>sc_slots = []\<rparr>"

definition slot :: "uuid \<Rightarrow> snapshot_cache \<Rightarrow> environment_snapshot option \<times> snapshot_cache" where
  "slot environment_id c =
     (case map_of (sc_slots c) environment_id of
        Some v \<Rightarrow> (v, c)
      | None \<Rightarrow> (None, c\<lparr>sc_slots := sc_slots c @ [(environment_id, None)]\<rparr>))"

definition slot_store :: "uuid \<Rightarrow> environment_snapshot \<Rightarrow> snapshot_cache \<Rightarrow> snapshot_cache" where
  "slot_store environment_id snap c =
     c\<lparr>sc_slots := AList.update environment_id (Some snap) (sc_slots c)\<rparr>"

definition cache_get ::
  "(storage_error + environment_snapshot) \<Rightarrow> uuid \<Rightarrow> snapshot_cache \<Rightarrow>
     (storage_error + environment_snapshot) \<times> snapshot_cache" where
  "cache_get loading environment_id c =
     (case slot environment_id c of
        (Some snap, c') \<Rightarrow> (Inr snap, c')
      | (None, c') \<Rightarrow>
          (case loading of
             Inl e \<Rightarrow> (Inl e, c')
           | Inr loaded \<Rightarrow> (Inr loaded, slot_store environment_id loaded c')))"

definition cache_refresh ::
  "(storage_error + environment_snapshot) \<Rightarrow> uuid \<Rightarrow> snapshot_cache \<Rightarrow> snapshot_cache" where
  "cache_refresh loading environment_id c =
     (if map_of (sc_slots c) environment_id = None then c
      else (case loading of
              Inr fresh \<Rightarrow> slot_store environment_id fresh c
            | Inl (NotFound _) \<Rightarrow> c\<lparr>sc_slots := AList.delete environment_id (sc_slots c)\<rparr>
            | Inl error \<Rightarrow> c))"

definition cached_environments :: "snapshot_cache \<Rightarrow> uuid list" where
  "cached_environments c = map fst (sc_slots c)"

definition cache_len :: "snapshot_cache \<Rightarrow> nat" where
  "cache_len c = length (sc_slots c)"

definition cache_is_empty :: "snapshot_cache \<Rightarrow> bool" where
  "cache_is_empty c = (sc_slots c = [])"

text \<open>The sweep: \<open>loading\<close> gives the outcome of the load of each environment.\<close>

definition refresh_all ::
  "(uuid \<Rightarrow> storage_error + environment_snapshot) \<Rightarrow> snapshot_cache \<Rightarrow> snapshot_cache" where
  "refresh_all loading c =
     fold (\<lambda>environment_id. cache_refresh (loading environment_id) environment_id)
       (cached_environments c) c"

lemmas cache_defs [model_defs] =
  snapshot_cache_new_def slot_def slot_store_def cache_get_def cache_refresh_def
  cached_environments_def cache_len_def cache_is_empty_def refresh_all_def

section \<open>Slots\<close>

definition cache_wf :: "snapshot_cache \<Rightarrow> bool" where
  "cache_wf c = distinct (cached_environments c)"

definition cached :: "snapshot_cache \<Rightarrow> uuid \<Rightarrow> environment_snapshot option" where
  "cached c eid = Option.bind (map_of (sc_slots c) eid) id"

lemma cached_slot_store [simp]: "cached (slot_store eid s c) k = (if k = eid then Some s else cached c k)"
  by (simp add: cached_def slot_store_def update_conv')

lemma cache_wf_new [simp]: "cache_wf snapshot_cache_new"
  by (simp add: cache_wf_def cached_environments_def snapshot_cache_new_def)

lemma cache_wf_slot: "cache_wf c \<Longrightarrow> cache_wf (snd (slot eid c))"
  by (auto simp: cache_wf_def cached_environments_def slot_def map_of_eq_None_iff split: option.splits)

lemma cache_wf_store: "cache_wf c \<Longrightarrow> cache_wf (slot_store eid s c)"
  by (simp add: cache_wf_def cached_environments_def slot_store_def distinct_update)

lemma cached_slot [simp]: "cached (snd (slot eid c)) k = cached c k"
  by (auto simp: slot_def cached_def map_of_append map_add_def split: option.splits)

lemma fst_slot [simp]: "fst (slot eid c) = cached c eid"
  by (auto simp: slot_def cached_def split: option.splits)

lemma cache_get_cases:
  "cache_get loading eid c =
     (case cached c eid of
        Some s \<Rightarrow> (Inr s, snd (slot eid c))
      | None \<Rightarrow> (case loading of Inl e \<Rightarrow> (Inl e, snd (slot eid c))
          | Inr s \<Rightarrow> (Inr s, slot_store eid s (snd (slot eid c)))))"
  by (cases "slot eid c")
     (auto simp: cache_get_def simp flip: fst_slot split: option.splits sum.splits)

lemma cache_wf_get: "cache_wf c \<Longrightarrow> cache_wf (snd (cache_get loading eid c))"
  by (auto simp: cache_get_cases split: option.splits sum.splits intro: cache_wf_slot cache_wf_store)

lemma cache_wf_refresh: "cache_wf c \<Longrightarrow> cache_wf (cache_refresh loading eid c)"
  by (auto simp: cache_refresh_def cache_wf_store split: sum.splits storage_error.splits)
     (simp add: cache_wf_def cached_environments_def distinct_delete)

lemma cached_delete: "cache_wf c \<Longrightarrow> cached (c\<lparr>sc_slots := AList.delete eid (sc_slots c)\<rparr>) k =
    (if k = eid then None else cached c k)"
  by (simp add: cached_def delete_conv' map_of_delete)

section \<open>The cache beside a changing database\<close>

text \<open>
  A load holds the mutex of its slot from its query to its write. \<open>cw_loading\<close> holds the loads
  under way with what their query returned, \<open>cw_seen\<close> counts the announcements the listener has
  taken.
\<close>

datatype loader = Getting | Refreshing

record cache_world =
  cw_db :: db
  cw_cache :: snapshot_cache
  cw_loading :: "uuid \<rightharpoonup> loader \<times> (storage_error + environment_snapshot)"
  cw_seen :: nat

definition cache_world_init :: cache_world where
  "cache_world_init = \<lparr>cw_db = db_empty, cw_cache = snapshot_cache_new, cw_loading = Map.empty, cw_seen = 0\<rparr>"

definition pending :: "cache_world \<Rightarrow> uuid set" where
  "pending w = set (drop (cw_seen w) (db_notified (cw_db w)))"

definition begin_load :: "loader \<Rightarrow> int \<Rightarrow> uuid \<Rightarrow> cache_world \<Rightarrow> cache_world" where
  "begin_load l now eid w = w\<lparr>cw_loading := (cw_loading w)(eid \<mapsto> (l, load now eid (cw_db w)))\<rparr>"

inductive cache_step :: "('re, 'ver) externals \<Rightarrow> case_tables \<Rightarrow> cache_world \<Rightarrow> cache_world \<Rightarrow> bool"
  for X :: "('re, 'ver) externals" and T :: case_tables where
  cs_write:
    "db_step X T (cw_db w) d' \<Longrightarrow> configs_local d' \<Longrightarrow>
     (env_ids d' - env_ids (cw_db w)) \<inter> (dom (map_of (sc_slots (cw_cache w))) \<union> dom (cw_loading w)) = {} \<Longrightarrow>
     cache_step X T w (w\<lparr>cw_db := d'\<rparr>)"
| cs_get:
    "cw_loading w eid = None \<Longrightarrow> cached (cw_cache w) eid = None \<Longrightarrow>
     cache_step X T w (begin_load Getting now eid (w\<lparr>cw_cache := snd (slot eid (cw_cache w))\<rparr>))"
| cs_refresh:
    "cw_loading w eid = None \<Longrightarrow> map_of (sc_slots (cw_cache w)) eid \<noteq> None \<Longrightarrow>
     cache_step X T w (begin_load Refreshing now eid w)"
| cs_listen_skip:
    "cw_seen w < length (db_notified (cw_db w)) \<Longrightarrow> eid = db_notified (cw_db w) ! cw_seen w \<Longrightarrow>
     map_of (sc_slots (cw_cache w)) eid = None \<Longrightarrow>
     cache_step X T w (w\<lparr>cw_seen := Suc (cw_seen w)\<rparr>)"
| cs_listen:
    "cw_seen w < length (db_notified (cw_db w)) \<Longrightarrow> eid = db_notified (cw_db w) ! cw_seen w \<Longrightarrow>
     map_of (sc_slots (cw_cache w)) eid \<noteq> None \<Longrightarrow> cw_loading w eid = None \<Longrightarrow>
     cache_step X T w (begin_load Refreshing now eid (w\<lparr>cw_seen := Suc (cw_seen w)\<rparr>))"
| cs_finish_get:
    "cw_loading w eid = Some (Getting, r) \<Longrightarrow>
     cache_step X T w (w\<lparr>cw_cache := snd (cache_get r eid (cw_cache w)), cw_loading := (cw_loading w)(eid := None)\<rparr>)"
| cs_finish_refresh:
    "cw_loading w eid = Some (Refreshing, r) \<Longrightarrow>
     cache_step X T w (w\<lparr>cw_cache := cache_refresh r eid (cw_cache w), cw_loading := (cw_loading w)(eid := None)\<rparr>)"

definition fresh :: "db \<Rightarrow> uuid \<Rightarrow> storage_error + environment_snapshot \<Rightarrow> bool" where
  "fresh d eid r = (\<exists>now. r = load now eid d)"

text \<open>Whatever is cached or being loaded is fresh, or something that will refresh it is under way.\<close>

definition coherent :: "cache_world \<Rightarrow> bool" where
  "coherent w =
     (\<forall>eid \<in> env_ids (cw_db w).
        (\<forall>l r. cw_loading w eid = Some (l, r) \<longrightarrow> fresh (cw_db w) eid r \<or> eid \<in> pending w) \<and>
        (\<forall>s. cached (cw_cache w) eid = Some s \<longrightarrow>
           fresh (cw_db w) eid (Inr s) \<or> eid \<in> pending w \<or> cw_loading w eid \<noteq> None))"

definition cache_world_inv :: "cache_world \<Rightarrow> bool" where
  "cache_world_inv w =
     (db_inv (cw_db w) \<and> configs_local (cw_db w) \<and> cache_wf (cw_cache w) \<and>
      cw_seen w \<le> length (db_notified (cw_db w)) \<and>
      (\<forall>eid \<in> dom (cw_loading w). map_of (sc_slots (cw_cache w)) eid \<noteq> None) \<and>
      (\<forall>eid r. cw_loading w eid = Some (Getting, r) \<longrightarrow> cached (cw_cache w) eid = None) \<and>
      coherent w)"

lemma fresh_load [simp]: "fresh d eid (load now eid d)"
  by (auto simp: fresh_def)

lemma load_exists: "eid \<in> env_ids d \<Longrightarrow> \<exists>s. load now eid d = Inr s"
  by (auto simp: env_ids_def load_def or_not_found_def find_None_iff split: option.splits)

lemma slot_present: "map_of (sc_slots (snd (slot eid c))) k \<noteq> None \<longleftrightarrow> k = eid \<or> map_of (sc_slots c) k \<noteq> None"
  by (auto simp: slot_def map_add_def split: option.splits)

lemma cache_get_present: "map_of (sc_slots c) k \<noteq> None \<Longrightarrow> map_of (sc_slots (snd (cache_get r eid c))) k \<noteq> None"
  using slot_present [of eid c k]
  by (auto simp: cache_get_cases slot_store_def update_conv' split: option.splits sum.splits)

lemma cached_get: "cached (snd (cache_get r eid c)) k =
    (if k = eid \<and> cached c eid = None then (case r of Inl _ \<Rightarrow> None | Inr s \<Rightarrow> Some s) else cached c k)"
  by (auto simp: cache_get_cases split: option.splits sum.splits)

lemma cached_refresh:
  "cache_wf c \<Longrightarrow> cached (cache_refresh r eid c) k =
     (if k = eid \<and> map_of (sc_slots c) eid \<noteq> None
      then (case r of Inr s \<Rightarrow> Some s | Inl (NotFound _) \<Rightarrow> None | Inl _ \<Rightarrow> cached c eid) else cached c k)"
  by (auto simp: cache_refresh_def cached_delete split: sum.splits storage_error.splits)

lemma refresh_present: "cache_wf c \<Longrightarrow> k \<noteq> eid \<Longrightarrow>
    map_of (sc_slots (cache_refresh r eid c)) k = map_of (sc_slots c) k"
  by (auto simp: cache_refresh_def slot_store_def update_conv' delete_conv' split: sum.splits storage_error.splits)

lemma drop_nth_set: "n < length xs \<Longrightarrow> set (drop n xs) = insert (xs ! n) (set (drop (Suc n) xs))"
  by (simp add: Cons_nth_drop_Suc [symmetric])

lemma pending_simps [simp]:
  "pending (begin_load l now eid w) = pending w"
  "pending (w\<lparr>cw_cache := c\<rparr>) = pending w" "pending (w\<lparr>cw_loading := m\<rparr>) = pending w"
  by (simp_all add: pending_def begin_load_def)

lemma cache_write_inv:
  assumes "cache_world_inv w" and "db_step X T (cw_db w) d'" and "configs_local d'"
    and new: "(env_ids d' - env_ids (cw_db w)) \<inter> (dom (map_of (sc_slots (cw_cache w))) \<union> dom (cw_loading w)) = {}"
  shows "cache_world_inv (w\<lparr>cw_db := d'\<rparr>)"
proof -
  let ?d = "cw_db w" and ?w = "w\<lparr>cw_db := d'\<rparr>"
  have inv: "db_inv ?d" "configs_local ?d" "coherent w" and seen: "cw_seen w \<le> length (db_notified ?d)"
    using assms(1) by (simp_all add: cache_world_inv_def)
  from db_step_announces [OF assms(2) inv(1,2)] obtain n where n: "db_notified d' = db_notified ?d @ n"
    and part: "\<And>eid. eid \<in> env_ids ?d \<Longrightarrow> eid \<in> env_ids d' \<Longrightarrow> same_part eid ?d d' \<or> eid \<in> set n"
    unfolding announces_def by blast
  have pend: "pending ?w = pending w \<union> set n" using seen by (simp add: pending_def n)
  have keep: "fresh d' eid r \<or> eid \<in> pending ?w" if "eid \<in> env_ids ?d" "eid \<in> env_ids d'" "fresh ?d eid r" for eid r
    using part [OF that(1,2)] that(3) load_same_part [of eid ?d d'] by (auto simp: fresh_def pend)
  have old: "eid \<in> env_ids ?d"
    if "eid \<in> env_ids d'" "cw_loading w eid \<noteq> None \<or> cached (cw_cache w) eid \<noteq> None" for eid
    using that new by (fastforce simp: cached_def)
  have "coherent ?w"
    unfolding coherent_def
  proof (intro ballI conjI allI impI)
    fix eid l r
    assume e: "eid \<in> env_ids (cw_db ?w)" and l: "cw_loading ?w eid = Some (l, r)"
    with old [of eid] have o: "eid \<in> env_ids ?d" by simp
    with inv(3) l have "fresh ?d eid r \<or> eid \<in> pending w" by (simp add: coherent_def)
    then show "fresh (cw_db ?w) eid r \<or> eid \<in> pending ?w" using keep [OF o] e by (auto simp: pend)
  next
    fix eid s
    assume e: "eid \<in> env_ids (cw_db ?w)" and s: "cached (cw_cache ?w) eid = Some s"
    with old [of eid] have o: "eid \<in> env_ids ?d" by simp
    with inv(3) s have "fresh ?d eid (Inr s) \<or> eid \<in> pending w \<or> cw_loading w eid \<noteq> None"
      by (simp add: coherent_def)
    then show "fresh (cw_db ?w) eid (Inr s) \<or> eid \<in> pending ?w \<or> cw_loading ?w eid \<noteq> None"
      using keep [OF o] e by (auto simp: pend)
  qed
  then show ?thesis
    using assms(1,3) db_step_inv [OF assms(2) inv(1)] seen by (simp add: cache_world_inv_def n)
qed

lemma cache_begin_inv:
  assumes "cache_world_inv w" and "cw_loading w eid = None" and "map_of (sc_slots (cw_cache w)) eid \<noteq> None"
    and "l = Getting \<Longrightarrow> cached (cw_cache w) eid = None"
  shows "cache_world_inv (begin_load l now eid w)"
  using assms unfolding cache_world_inv_def
  by (auto simp: begin_load_def coherent_def pending_def split: if_splits)

lemma cache_slot_inv:
  assumes "cache_world_inv w"
  shows "cache_world_inv (w\<lparr>cw_cache := snd (slot eid (cw_cache w))\<rparr>)"
  using assms slot_present [of eid "cw_cache w"] unfolding cache_world_inv_def
  by (simp add: coherent_def cache_wf_slot)

lemma cache_finish_inv:
  assumes "cache_world_inv w" and "cw_loading w eid = Some (l, r)"
    and c': "cache_wf c'" "\<And>k. k \<noteq> eid \<Longrightarrow> cached c' k = cached (cw_cache w) k"
      "\<And>k. k \<noteq> eid \<Longrightarrow> map_of (sc_slots (cw_cache w)) k \<noteq> None \<Longrightarrow> map_of (sc_slots c') k \<noteq> None"
    and r: "cached c' eid = (case r of Inr s \<Rightarrow> Some s | Inl _ \<Rightarrow> None) \<or> (\<exists>e. r = Inl e)"
  shows "cache_world_inv (w\<lparr>cw_cache := c', cw_loading := (cw_loading w)(eid := None)\<rparr>)"
proof -
  let ?w = "w\<lparr>cw_cache := c', cw_loading := (cw_loading w)(eid := None)\<rparr>"
  have pend: "pending ?w = pending w" by (simp add: pending_def)
  have co: "coherent w" using assms(1) by (simp add: cache_world_inv_def)
  have "fresh (cw_db w) eid (Inr s) \<or> eid \<in> pending w"
    if "eid \<in> env_ids (cw_db w)" "cached c' eid = Some s" for s
  proof -
    have "fresh (cw_db w) eid r \<or> eid \<in> pending w" using co assms(2) that(1) by (simp add: coherent_def)
    moreover have "r = Inr s" if fr: "fresh (cw_db w) eid r"
    proof -
      from fr load_exists [OF \<open>eid \<in> env_ids (cw_db w)\<close>] obtain s' where "r = Inr s'"
        unfolding fresh_def by blast
      then show ?thesis using r \<open>cached c' eid = Some s\<close> by simp
    qed
    ultimately show ?thesis by auto
  qed
  then have "coherent ?w"
    using co c'(2) unfolding coherent_def pend by (simp split: if_splits)
  then show ?thesis using assms(1) c' unfolding cache_world_inv_def by auto
qed

lemma cache_listen_inv:
  assumes "cache_world_inv w" and "cw_seen w < length (db_notified (cw_db w))"
    and "eid = db_notified (cw_db w) ! cw_seen w"
    and "cached (cw_cache w) eid = None \<and> cw_loading w eid = None"
  shows "cache_world_inv (w\<lparr>cw_seen := Suc (cw_seen w)\<rparr>)"
proof -
  have "pending w = insert eid (pending (w\<lparr>cw_seen := Suc (cw_seen w)\<rparr>))"
    using drop_nth_set [OF assms(2)] assms(3) by (simp add: pending_def)
  then have "k \<in> pending (w\<lparr>cw_seen := Suc (cw_seen w)\<rparr>) \<or> k = eid" if "k \<in> pending w" for k
    using that by auto
  then show ?thesis
    using assms(1,2,4) unfolding cache_world_inv_def coherent_def by simp (metis option.distinct(1))
qed

lemma cache_listen_begin_inv:
  assumes "cache_world_inv w" and "cw_seen w < length (db_notified (cw_db w))"
    and eid: "eid = db_notified (cw_db w) ! cw_seen w"
    and "map_of (sc_slots (cw_cache w)) eid \<noteq> None" and "cw_loading w eid = None"
  shows "cache_world_inv (begin_load Refreshing now eid (w\<lparr>cw_seen := Suc (cw_seen w)\<rparr>))"
proof -
  let ?w = "begin_load Refreshing now eid (w\<lparr>cw_seen := Suc (cw_seen w)\<rparr>)"
  have "k \<in> pending ?w \<or> k = eid" if "k \<in> pending w" for k
    using that drop_nth_set [OF assms(2)] eid by (auto simp: pending_def begin_load_def)
  then have "coherent ?w"
    using assms(1) unfolding cache_world_inv_def coherent_def
    by (simp add: begin_load_def) metis
  then show ?thesis
    using assms(1,2,4) unfolding cache_world_inv_def by (auto simp: begin_load_def)
qed

lemma cache_step_inv: "cache_step X T w w' \<Longrightarrow> cache_world_inv w \<Longrightarrow> cache_world_inv w'"
proof (induction rule: cache_step.induct)
  case (cs_write w d')
  then show ?case by (intro cache_write_inv)
next
  case (cs_get w eid now)
  let ?w = "w\<lparr>cw_cache := snd (slot eid (cw_cache w))\<rparr>"
  have "cache_world_inv ?w" by (rule cache_slot_inv) fact
  then show ?case
    using cs_get(1,2) slot_present [of eid "cw_cache w" eid] by (intro cache_begin_inv) simp_all
next
  case (cs_refresh w eid now)
  then show ?case by (intro cache_begin_inv) simp_all
next
  case (cs_listen_skip w eid)
  then have "cw_loading w eid = None" "cached (cw_cache w) eid = None"
    unfolding cache_world_inv_def by (blast, simp add: cached_def)
  with cs_listen_skip show ?case by (intro cache_listen_inv) simp_all
next
  case (cs_listen w eid now)
  then show ?case by (intro cache_listen_begin_inv)
next
  case (cs_finish_get w eid r)
  then have "cached (cw_cache w) eid = None" "cache_wf (cw_cache w)" by (auto simp: cache_world_inv_def)
  then show ?case
    by (intro cache_finish_inv [OF cs_finish_get(2,1)])
       (auto simp: cached_get cache_wf_get cache_get_present split: sum.splits)
next
  case (cs_finish_refresh w eid r)
  then have wf: "cache_wf (cw_cache w)" "map_of (sc_slots (cw_cache w)) eid \<noteq> None"
    by (auto simp: cache_world_inv_def)
  then show ?case
    by (intro cache_finish_inv [OF cs_finish_refresh(2,1)])
       (auto simp: cached_refresh cache_wf_refresh refresh_present split: sum.splits)
qed

lemma cache_world_init_inv: "cache_world_inv cache_world_init"
proof -
  have "configs_local db_empty" "env_ids db_empty = {}"
    by (simp_all add: configs_local_def env_ids_def db_empty_def)
  then show ?thesis by (simp add: cache_world_inv_def cache_world_init_def coherent_def)
qed


definition demo_cache_world :: cache_world where
  "demo_cache_world =
     (let w = cache_world_init\<lparr>cw_db := demo_seeded, cw_seen := 1\<rparr>
      in w\<lparr>cw_cache := snd (cache_get (load 9 3 demo_seeded) 3 (snd (slot 3 (cw_cache w))))\<rparr>)"

lemma demo_local: "configs_local demo_signup" "configs_local demo_project" "configs_local demo_flag_only"
    "configs_local demo_seeded" "env_ids demo_seeded = {3}" "db_notified demo_seeded = [3]"
  by (simp_all add: configs_local_def env_ids_def demo_signup_def demo_project_def demo_flag_only_def
      demo_seeded_def demo_eval seeded_config_def reference_config_def default_variant_def notify_def)

lemma demo_cache_run: "(cache_step demo_externals demo_tables)\<^sup>*\<^sup>* cache_world_init demo_cache_world"
proof -
  let ?step = "cache_step demo_externals demo_tables"
  define v where "v d = cache_world_init\<lparr>cw_db := d\<rparr>" for d
  have wr: "?step (v d) (v d')" if "db_step demo_externals demo_tables d d'" "configs_local d'" for d d'
    using cs_write [of demo_externals demo_tables "v d" d'] that
    by (simp add: v_def cache_world_init_def snapshot_cache_new_def)
  have init: "v db_empty = cache_world_init" by (simp add: v_def cache_world_init_def)
  have "?step (v db_empty) (v demo_signup)" by (rule wr [OF demo_steps(1) demo_local(1)])
  then have "?step\<^sup>*\<^sup>* (v db_empty) (v demo_signup)" by (rule r_into_rtranclp)
  then have "?step\<^sup>*\<^sup>* (v db_empty) (v demo_project)"
    by (rule rtranclp.rtrancl_into_rtrancl) (rule wr [OF demo_steps(2) demo_local(2)])
  then have "?step\<^sup>*\<^sup>* (v db_empty) (v demo_flag_only)"
    by (rule rtranclp.rtrancl_into_rtrancl) (rule wr [OF demo_steps(3) demo_local(3)])
  then have "?step\<^sup>*\<^sup>* (v db_empty) (v demo_seeded)"
    by (rule rtranclp.rtrancl_into_rtrancl) (rule wr [OF demo_steps(4) demo_local(4)])
  then have "?step\<^sup>*\<^sup>* cache_world_init (v demo_seeded)" unfolding init .
  moreover define w1 where "w1 = (v demo_seeded)\<lparr>cw_seen := 1\<rparr>"
  have "?step (v demo_seeded) ((v demo_seeded)\<lparr>cw_seen := Suc (cw_seen (v demo_seeded))\<rparr>)"
    by (rule cs_listen_skip [where eid = 3]) (simp_all add: v_def cache_world_init_def snapshot_cache_new_def demo_local(6))
  then have "?step (v demo_seeded) w1" by (simp add: w1_def v_def cache_world_init_def)
  moreover define w2 where "w2 = begin_load Getting 9 3 (w1\<lparr>cw_cache := snd (slot 3 (cw_cache w1))\<rparr>)"
  have "?step w1 w2"
    unfolding w2_def
    by (rule cs_get) (simp_all add: w1_def v_def cache_world_init_def cached_def snapshot_cache_new_def)
  moreover have "?step w2 demo_cache_world"
  proof -
    have "cw_loading w2 3 = Some (Getting, load 9 3 demo_seeded)"
      by (simp add: w2_def w1_def v_def begin_load_def)
    from cs_finish_get [OF this, of demo_externals demo_tables]
    have "?step w2 (w2\<lparr>cw_cache := snd (cache_get (load 9 3 demo_seeded) 3 (cw_cache w2)), cw_loading := (cw_loading w2)(3 := None)\<rparr>)" .
    moreover have "w2\<lparr>cw_cache := snd (cache_get (load 9 3 demo_seeded) 3 (cw_cache w2)), cw_loading := (cw_loading w2)(3 := None)\<rparr> = demo_cache_world"
      by (simp add: demo_cache_world_def w2_def w1_def v_def begin_load_def Let_def cache_world_init_def)
    ultimately show ?thesis by (simp only:)
  qed
  ultimately show ?thesis by (rule rtranclp.rtrancl_into_rtrancl [OF rtranclp.rtrancl_into_rtrancl [OF rtranclp.rtrancl_into_rtrancl]])
qed


lemma cached_refresh_all:
  assumes "cache_wf c"
  shows "cached (refresh_all L c) k =
    (if k \<in> set (cached_environments c)
     then (case L k of Inr s \<Rightarrow> Some s | Inl (NotFound _) \<Rightarrow> None | Inl _ \<Rightarrow> cached c k) else None)"
proof -
  have "cache_wf c \<Longrightarrow> distinct ks \<Longrightarrow> (\<And>k. k \<in> set ks \<Longrightarrow> map_of (sc_slots c) k \<noteq> None) \<Longrightarrow>
      cached (fold (\<lambda>eid. cache_refresh (L eid) eid) ks c) k =
        (if k \<in> set ks then (case L k of Inr s \<Rightarrow> Some s | Inl (NotFound _) \<Rightarrow> None | Inl _ \<Rightarrow> cached c k)
         else cached c k)" for ks c
  proof (induction ks arbitrary: c)
    case (Cons e ks)
    have "map_of (sc_slots (cache_refresh (L e) e c)) k \<noteq> None" if "k \<in> set ks" for k
      using that Cons.prems(2,3) refresh_present [OF Cons.prems(1), of k e "L e"] by (cases "k = e") simp_all
    note step = Cons.IH [OF cache_wf_refresh [OF Cons.prems(1)], of "L e" e] this
    show ?case
    proof (cases "k = e")
      case True
      then show ?thesis using step Cons.prems by (simp add: cached_refresh split: sum.splits storage_error.splits)
    next
      case False
      then show ?thesis using step Cons.prems by (simp add: cached_refresh split: sum.splits storage_error.splits)
    qed
  qed simp
  note all = this [of c "cached_environments c"]
  have "map_of (sc_slots c) k \<noteq> None" if "k \<in> set (cached_environments c)" for k
    using that by (auto simp: cached_environments_def map_of_eq_None_iff)
  moreover have "cached c k = None" if "k \<notin> set (cached_environments c)"
    using that by (simp add: cached_environments_def cached_def map_of_eq_None_iff [THEN iffD2])
  ultimately show ?thesis
    using all assms by (simp add: refresh_all_def cache_wf_def)
qed

end
