(* ===== verification/Api_State.thy ===== *)
theory Api_State
  imports Api_Auth Api_Cache
begin

text \<open>
  The state the handlers share (\<^verbatim>\<open>crates/api/src/state.rs\<close>) and the way a handler runs: a
  handler takes the state to a result and a new state, an error ends it, and what it wrote
  before the error stays written. The statements of one request run without other requests in
  between; interleavings of statements are the subject of the theories on storage and of the
  cache. The clock readings, generated identifiers and random texts of a request are fields of
  \<open>request\<close>, numbered in the order of their use.
\<close>

named_theorems wp \<open>weakest preconditions of the combinators of handlers\<close>

record app =
  app_db :: db
  app_cache :: snapshot_cache
  app_usage :: usage_tracker

definition app_new :: "db \<Rightarrow> app" where
  "app_new d = \<lparr>app_db = d, app_cache = snapshot_cache_new, app_usage = usage_tracker_default\<rparr>"

text \<open>The serialisation of the objects the audit trail records.\<close>

record audit_json =
  js_project :: "project \<Rightarrow> json option"
  js_environment :: "environment \<Rightarrow> json option"
  js_flag :: "flag_row \<Rightarrow> json option"
  js_config :: "flag_config \<Rightarrow> json option"
  js_segment :: "segment_row \<Rightarrow> json option"
  js_experiment :: "experiment_view \<Rightarrow> json option"
  js_api_key :: "api_key \<Rightarrow> json option"

record ('re, 'ver) services =
  sv_ext :: "('re, 'ver) externals"
  sv_case :: case_tables
  sv_crypto :: crypto
  sv_json :: audit_json
  sv_tokens :: token_issuer
  sv_decoy :: string
  sv_trunc_hour :: "int \<Rightarrow> int option"

record request =
  rq_headers :: request_headers
  rq_clock :: "nat \<Rightarrow> int"
  rq_instant :: nat
  rq_uuid :: "nat \<Rightarrow> uuid"
  rq_random :: "nat \<Rightarrow> string"

type_synonym 'a handler = "app \<Rightarrow> (api_error + 'a) \<times> app"

definition h_return :: "'a \<Rightarrow> 'a handler" where
  "h_return x s = (Inr x, s)"

definition h_bind :: "'a handler \<Rightarrow> ('a \<Rightarrow> 'b handler) \<Rightarrow> 'b handler" where
  "h_bind m f s = (case m s of (Inl e, s') \<Rightarrow> (Inl e, s') | (Inr x, s') \<Rightarrow> f x s')"

definition h_check :: "api_error + 'a \<Rightarrow> 'a handler" where
  "h_check r s = (r, s)"

text \<open>A query, a statement with a result, a statement without one, and a statement that can
  fail after its write.\<close>

definition h_read :: "(db \<Rightarrow> storage_error + 'a) \<Rightarrow> 'a handler" where
  "h_read q s = (map_err from_storage (q (app_db s)), s)"

definition h_write :: "(db \<Rightarrow> storage_error + 'a \<times> db) \<Rightarrow> 'a handler" where
  "h_write q s =
     (case q (app_db s) of
        Inl e \<Rightarrow> (Inl (from_storage e), s)
      | Inr (x, d) \<Rightarrow> (Inr x, s\<lparr>app_db := d\<rparr>))"

definition h_exec :: "(db \<Rightarrow> storage_error + db) \<Rightarrow> unit handler" where
  "h_exec q s =
     (case q (app_db s) of
        Inl e \<Rightarrow> (Inl (from_storage e), s)
      | Inr d \<Rightarrow> (Inr (), s\<lparr>app_db := d\<rparr>))"

definition h_attempt :: "(db \<Rightarrow> (storage_error + 'a) \<times> db) \<Rightarrow> 'a handler" where
  "h_attempt q s =
     (let (r, d) = q (app_db s) in (map_err from_storage r, s\<lparr>app_db := d\<rparr>))"

definition h_cache_get :: "int \<Rightarrow> uuid \<Rightarrow> environment_snapshot handler" where
  "h_cache_get now eid s =
     (let (r, c) = cache_get (load now eid (app_db s)) eid (app_cache s)
      in (map_err from_storage r, s\<lparr>app_cache := c\<rparr>))"

definition h_cache_refresh :: "int \<Rightarrow> uuid \<Rightarrow> unit handler" where
  "h_cache_refresh now eid s =
     (Inr (), s\<lparr>app_cache := cache_refresh (load now eid (app_db s)) eid (app_cache s)\<rparr>)"

definition h_audit :: "int \<Rightarrow> new_audit_entry \<Rightarrow> unit handler" where
  "h_audit now entry = h_bind (h_write (audit_record now entry)) (\<lambda>_. h_return ())"

text \<open>The project and the environment of a path, as every scoped route looks them up.\<close>

definition h_project :: "auth_user \<Rightarrow> string \<Rightarrow> project handler" where
  "h_project caller project_key = h_read (find_project (caller_org caller) project_key)"

definition h_environment :: "project \<Rightarrow> string \<Rightarrow> environment handler" where
  "h_environment project environment_key = h_read (find_environment (prj_id project) environment_key)"

lemmas handler_defs [model_defs] =
  h_return_def h_bind_def h_check_def h_read_def h_write_def h_exec_def h_attempt_def h_cache_get_def
  h_cache_refresh_def h_audit_def h_project_def h_environment_def

section \<open>Reasoning about handlers\<close>

text \<open>\<open>holds\<close> is the weakest precondition: what a handler does from a state satisfies the
  postcondition of its result or of its error.\<close>

definition holds :: "'a handler \<Rightarrow> ('a \<Rightarrow> app \<Rightarrow> bool) \<Rightarrow> (api_error \<Rightarrow> app \<Rightarrow> bool) \<Rightarrow> app \<Rightarrow> bool" where
  "holds m Q E s = (case m s of (Inl e, s') \<Rightarrow> E e s' | (Inr x, s') \<Rightarrow> Q x s')"

lemma holds_return [wp]: "holds (h_return x) Q E s \<longleftrightarrow> Q x s"
  by (simp add: holds_def h_return_def)

lemma holds_bind [wp]: "holds (h_bind m f) Q E s \<longleftrightarrow> holds m (\<lambda>x. holds (f x) Q E) E s"
  by (auto simp: holds_def h_bind_def split: prod.splits sum.splits)

lemma holds_check [wp]:
  "holds (h_check r) Q E s \<longleftrightarrow> (\<forall>e. r = Inl e \<longrightarrow> E e s) \<and> (\<forall>x. r = Inr x \<longrightarrow> Q x s)"
  by (cases r) (simp_all add: holds_def h_check_def)

lemma holds_read [wp]:
  "holds (h_read q) Q E s \<longleftrightarrow>
     (\<forall>e. q (app_db s) = Inl e \<longrightarrow> E (from_storage e) s) \<and> (\<forall>x. q (app_db s) = Inr x \<longrightarrow> Q x s)"
  by (cases "q (app_db s)") (simp_all add: holds_def h_read_def)

lemma holds_write [wp]:
  "holds (h_write q) Q E s \<longleftrightarrow>
     (\<forall>e. q (app_db s) = Inl e \<longrightarrow> E (from_storage e) s) \<and>
     (\<forall>x d. q (app_db s) = Inr (x, d) \<longrightarrow> Q x (s\<lparr>app_db := d\<rparr>))"
  by (cases "q (app_db s)") (auto simp: holds_def h_write_def split: prod.splits)

lemma holds_exec [wp]:
  "holds (h_exec q) Q E s \<longleftrightarrow>
     (\<forall>e. q (app_db s) = Inl e \<longrightarrow> E (from_storage e) s) \<and>
     (\<forall>d. q (app_db s) = Inr d \<longrightarrow> Q () (s\<lparr>app_db := d\<rparr>))"
  by (cases "q (app_db s)") (simp_all add: holds_def h_exec_def)

lemma holds_attempt [wp]:
  "holds (h_attempt q) Q E s \<longleftrightarrow>
     (\<forall>e d. q (app_db s) = (Inl e, d) \<longrightarrow> E (from_storage e) (s\<lparr>app_db := d\<rparr>)) \<and>
     (\<forall>x d. q (app_db s) = (Inr x, d) \<longrightarrow> Q x (s\<lparr>app_db := d\<rparr>))"
  by (cases "q (app_db s)"; cases "fst (q (app_db s))") (simp_all add: holds_def h_attempt_def)

lemma holds_cache_get [wp]:
  "holds (h_cache_get now eid) Q E s \<longleftrightarrow>
     (\<forall>e c. cache_get (load now eid (app_db s)) eid (app_cache s) = (Inl e, c) \<longrightarrow>
        E (from_storage e) (s\<lparr>app_cache := c\<rparr>)) \<and>
     (\<forall>x c. cache_get (load now eid (app_db s)) eid (app_cache s) = (Inr x, c) \<longrightarrow> Q x (s\<lparr>app_cache := c\<rparr>))"
  by (cases "cache_get (load now eid (app_db s)) eid (app_cache s)";
      cases "fst (cache_get (load now eid (app_db s)) eid (app_cache s))")
     (simp_all add: holds_def h_cache_get_def)

lemma holds_cache_refresh [wp]:
  "holds (h_cache_refresh now eid) Q E s \<longleftrightarrow>
     Q () (s\<lparr>app_cache := cache_refresh (load now eid (app_db s)) eid (app_cache s)\<rparr>)"
  by (simp add: holds_def h_cache_refresh_def)

lemma holds_audit [wp]:
  "holds (h_audit now entry) Q E s \<longleftrightarrow>
     (\<forall>e. audit_record now entry (app_db s) = Inl e \<longrightarrow> E (from_storage e) s) \<and>
     (\<forall>i d. audit_record now entry (app_db s) = Inr (i, d) \<longrightarrow> Q () (s\<lparr>app_db := d\<rparr>))"
  by (simp add: h_audit_def wp)

lemma holds_project [wp]:
  "holds (h_project caller pk) Q E s \<longleftrightarrow>
     (\<forall>e. find_project (caller_org caller) pk (app_db s) = Inl e \<longrightarrow> E (from_storage e) s) \<and>
     (\<forall>p. find_project (caller_org caller) pk (app_db s) = Inr p \<longrightarrow> Q p s)"
  by (simp add: h_project_def wp)

lemma holds_environment [wp]:
  "holds (h_environment p ek) Q E s \<longleftrightarrow>
     (\<forall>e. find_environment (prj_id p) ek (app_db s) = Inl e \<longrightarrow> E (from_storage e) s) \<and>
     (\<forall>x. find_environment (prj_id p) ek (app_db s) = Inr x \<longrightarrow> Q x s)"
  by (simp add: h_environment_def wp)

lemma holds_if [wp]: "holds (if b then m else n) Q E s \<longleftrightarrow> (if b then holds m Q E s else holds n Q E s)"
  by simp

lemma holds_mono:
  "holds m Q E s \<Longrightarrow> (\<And>x s'. Q x s' \<Longrightarrow> Q' x s') \<Longrightarrow> (\<And>e s'. E e s' \<Longrightarrow> E' e s') \<Longrightarrow> holds m Q' E' s"
  by (auto simp: holds_def split: prod.splits sum.splits)

lemma holds_snd: "holds m (\<lambda>_. P) (\<lambda>_. P) s \<longleftrightarrow> P (snd (m s))"
  by (auto simp: holds_def split: prod.splits sum.splits)

section \<open>The preservation of a predicate on the database\<close>

text \<open>
  \<open>keeps P m\<close>: the handler leads from a database that satisfies \<open>P\<close> to one that does, whether
  it succeeds or fails. What a handler learns from a query is a hypothesis of the rest.
\<close>

definition keeps :: "(db \<Rightarrow> bool) \<Rightarrow> 'a handler \<Rightarrow> bool" where
  "keeps P m = (\<forall>s. P (app_db s) \<longrightarrow> P (app_db (snd (m s))))"

lemma keeps_holds: "keeps P m \<longleftrightarrow> (\<forall>s. P (app_db s) \<longrightarrow> holds m (\<lambda>_ s'. P (app_db s')) (\<lambda>_ s'. P (app_db s')) s)"
  by (simp add: keeps_def holds_snd [where P = "\<lambda>s. P (app_db s)"])

end
