(* ===== verification/Api_Accounts.thy ===== *)
theory Api_Accounts
  imports Api_State
begin

text \<open>
  \<^verbatim>\<open>crates/api/src/routes/auth.rs\<close>: registration, login and identity. Login compares against a
  decoy hash, computed once per process, when the address is unknown.
\<close>

section \<open>Input checks\<close>

definition contains_whitespace :: "string \<Rightarrow> bool" where
  "contains_whitespace s = list_ex (str_contains s) ws_encodings"

definition looks_like_email :: "string \<Rightarrow> bool" where
  "looks_like_email candidate =
     (if 254 < length candidate \<or> contains_whitespace candidate then False
      else (case split_once CHR ''@'' candidate of
              Some (local_part, domain) \<Rightarrow>
                local_part \<noteq> [] \<and> CHR ''.'' \<in> set domain \<and> \<not> starts_with domain ''.'' \<and>
                \<not> ends_with domain ''.''
            | None \<Rightarrow> False))"

text \<open>
  The loop of \<^verbatim>\<open>slugify\<close> over the characters. The bytes of a character outside ASCII are all
  outside the alphanumeric ones and give a single dash, like the character itself.
\<close>

fun slug_loop :: "string \<Rightarrow> bool \<Rightarrow> string \<Rightarrow> string" where
  "slug_loop slug last_was_dash [] = slug"
| "slug_loop slug last_was_dash (ch # chs) =
     (if is_ascii_alphanumeric ch then slug_loop (slug @ [to_ascii_lowercase ch]) False chs
      else if \<not> last_was_dash then slug_loop (slug @ ''-'') True chs
      else slug_loop slug last_was_dash chs)"

definition slugify :: "string \<Rightarrow> string" where
  "slugify name =
     (let slug = trim_end_matches CHR ''-'' (slug_loop [] True name);
          trimmed = trim_end_matches CHR ''-'' (take 63 slug)
      in if trimmed = [] then ''org'' else trimmed)"

section \<open>Registration\<close>

definition SLUG_ATTEMPTS :: nat where
  "SLUG_ATTEMPTS = 12"

definition slug_attempt :: "string \<Rightarrow> nat \<Rightarrow> string" where
  "slug_attempt base attempt = (if attempt = 1 then base else base @ ''-'' @ show_nat attempt)"

text \<open>The attempts from a given one on; each attempt of the database generates its own identifiers.\<close>

fun try_slugs ::
  "('re, 'ver) services \<Rightarrow> request \<Rightarrow> string \<Rightarrow> string \<Rightarrow> string \<Rightarrow> string \<Rightarrow> nat list \<Rightarrow>
     (organization \<times> user) handler" where
  "try_slugs S rq base name email password_hash [] s =
     (Inl (ApiConflict (''could not derive a free identifier from '' @ quoted name @
        '' '' @ map char_of [226, 128, 148 :: nat] @ '' try a more specific name'')), s)"
| "try_slugs S rq base name email password_hash (attempt # attempts) s =
     (case create_organization_with_owner (sv_case S) (rq_uuid rq (2 * attempt)) (rq_uuid rq (2 * attempt + 1))
             (rq_clock rq attempt) name (slug_attempt base attempt) email password_hash (app_db s) of
        Inr (created, d) \<Rightarrow> (Inr created, s\<lparr>app_db := d\<rparr>)
      | Inl (Conflict entity key) \<Rightarrow>
          if entity = ''organization'' then try_slugs S rq base name email password_hash attempts s
          else (Inl (from_storage (Conflict entity key)), s)
      | Inl error \<Rightarrow> (Inl (from_storage error), s))"

definition register_with_free_slug ::
  "('re, 'ver) services \<Rightarrow> request \<Rightarrow> string \<Rightarrow> string \<Rightarrow> string \<Rightarrow> (organization \<times> user) handler" where
  "register_with_free_slug S rq name email password_hash =
     try_slugs S rq (slugify name) name email password_hash [1..<SLUG_ATTEMPTS + 1]"

record register_request =
  rr_organization_name :: string
  rr_email :: string
  rr_password :: string

record session_response =
  se_token :: string
  se_expires_in :: u64
  se_user :: user

record register_response =
  rg_session :: session_response
  rg_organization :: organization

definition issue_session :: "('re, 'ver) services \<Rightarrow> request \<Rightarrow> user \<Rightarrow> session_response handler" where
  "issue_session S rq u =
     h_bind (h_check (map_err (\<lambda>_. Internal ''failed to issue token'')
       (issue_token (sv_crypto S) (rq_clock rq 0 div 1000000) (rq_uuid rq 0) (sv_tokens S) (usr_id u)
          (usr_organization_id u) (usr_email u) (usr_role u)))) (\<lambda>token.
     h_return \<lparr>se_token = token, se_expires_in = ti_ttl (sv_tokens S), se_user = u\<rparr>)"

definition register ::
  "('re, 'ver) services \<Rightarrow> request \<Rightarrow> register_request \<Rightarrow> register_response handler" where
  "register S rq body =
     (let email = normal_email (sv_case S) (rr_email body);
          name = str_trim (rr_organization_name body) in
      h_bind (h_check (if \<not> looks_like_email email
        then Inl (BadRequest ''that does not look like an email address'') else Inr ())) (\<lambda>_.
      h_bind (h_check (if name = [] \<or> 200 < length name
        then Inl (BadRequest ''organization name must be 1-200 characters'') else Inr ())) (\<lambda>_.
      h_bind (h_check (map_err (\<lambda>err. BadRequest (password_error_to_string err))
        (hash_password (sv_crypto S) (rq_random rq 0) (rr_password body)))) (\<lambda>hash.
      h_bind (register_with_free_slug S rq name email hash) (\<lambda>(organization, user).
      h_bind (issue_session S rq user) (\<lambda>session.
      h_return \<lparr>rg_session = session, rg_organization = organization\<rparr>))))))"

section \<open>Login and identity\<close>

definition decoy_hash :: "crypto \<Rightarrow> string \<Rightarrow> string \<Rightarrow> string option" where
  "decoy_hash C salt unknowable =
     (case hash_password C salt unknowable of Inl _ \<Rightarrow> None | Inr h \<Rightarrow> Some h)"

record login_request =
  lr_email :: string
  lr_password :: string

definition login ::
  "('re, 'ver) services \<Rightarrow> request \<Rightarrow> login_request \<Rightarrow> session_response handler" where
  "login S rq body =
     h_bind (h_read (\<lambda>d. Inr (find_by_email (sv_case S) (lr_email body) d))) (\<lambda>found.
     let stored_hash = unwrap_or (map_option usr_password_hash found) (sv_decoy S);
         password_ok = verify_password (sv_crypto S) (lr_password body) stored_hash in
     case (found, password_ok) of
       (Some user, True) \<Rightarrow> issue_session S rq user
     | _ \<Rightarrow> h_check (Inl (ApiUnauthorized ''invalid email or password'')))"

record me_response =
  me_user :: user
  me_organization :: organization

definition me :: "auth_user \<Rightarrow> me_response handler" where
  "me caller =
     h_bind (h_read (find_user (caller_user_id caller))) (\<lambda>user.
     h_bind (h_read (find_organization (caller_org caller))) (\<lambda>organization.
     h_return \<lparr>me_user = user, me_organization = organization\<rparr>))"

lemmas accounts_defs [model_defs] =
  contains_whitespace_def looks_like_email_def slugify_def SLUG_ATTEMPTS_def slug_attempt_def
  register_with_free_slug_def issue_session_def register_def login_def me_def

section \<open>Slugs\<close>

lemma trim_end_matches_parts: "\<exists>n. s = trim_end_matches c s @ replicate n c"
proof -
  have "rev s = takeWhile (\<lambda>x. x = c) (rev s) @ dropWhile (\<lambda>x. x = c) (rev s)" by simp
  moreover have "takeWhile (\<lambda>x. x = c) (rev s) = replicate (length (takeWhile (\<lambda>x. x = c) (rev s))) c"
    by (rule replicate_eqI) (auto dest: set_takeWhileD)
  ultimately have "rev s = replicate (length (takeWhile (\<lambda>x. x = c) (rev s))) c @ dropWhile (\<lambda>x. x = c) (rev s)"
    by simp
  then have "s = rev (dropWhile (\<lambda>x. x = c) (rev s)) @ replicate (length (takeWhile (\<lambda>x. x = c) (rev s))) c"
    by (metis rev_append rev_replicate rev_rev_ident)
  then show ?thesis unfolding trim_end_matches_def by blast
qed

definition slug_wf :: "string \<Rightarrow> bool" where
  "slug_wf s = (list_all (\<lambda>x. slug_char x \<or> x = CHR ''-'') s \<and> (s = [] \<or> slug_char (hd s)))"

lemma slug_wf_prefix: "slug_wf (s @ t) \<Longrightarrow> slug_wf s"
  by (cases s) (auto simp: slug_wf_def)

lemma lowercase_slug_char: "is_ascii_alphanumeric c \<Longrightarrow> slug_char (to_ascii_lowercase c)"
  by (auto simp: is_ascii_alphanumeric_def Let_def slug_char_def to_ascii_lowercase_def less_eq_char_def)

lemma slug_loop_wf: "slug_wf slug \<Longrightarrow> (slug = [] \<Longrightarrow> d) \<Longrightarrow> slug_wf (slug_loop slug d chs)"
proof (induction slug d chs rule: slug_loop.induct)
  case (2 slug d ch chs)
  have "slug_wf (slug @ [to_ascii_lowercase ch])" if "is_ascii_alphanumeric ch"
    using 2(4) lowercase_slug_char [OF that] by (cases slug) (simp_all add: slug_wf_def)
  moreover have "slug_wf (slug @ ''-'')" if "\<not> d" using 2(4,5) that by (cases slug) (auto simp: slug_wf_def)
  ultimately show ?case using 2 by simp
qed simp

lemma slugify_valid: "check_slug (slugify name)"
proof -
  let ?slug = "trim_end_matches CHR ''-'' (slug_loop [] True name)"
  let ?t = "trim_end_matches CHR ''-'' (take 63 ?slug)"
  have "slug_wf (slug_loop [] True name)" by (rule slug_loop_wf) (simp_all add: slug_wf_def)
  then have "slug_wf ?slug" using trim_end_matches_parts slug_wf_prefix by metis
  then have "slug_wf (take 63 ?slug)" using slug_wf_prefix [of "take 63 ?slug" "drop 63 ?slug"] by simp
  then have wf: "slug_wf ?t" using trim_end_matches_parts slug_wf_prefix by metis
  obtain n where n: "take 63 ?slug = ?t @ replicate n CHR ''-''" using trim_end_matches_parts by blast
  have "length (?t @ replicate n CHR ''-'') \<le> 63" unfolding n [symmetric] by simp
  then have "length ?t \<le> 63" by simp
  moreover have "check_slug ''org''" by code_simp
  ultimately show ?thesis
    using wf by (cases ?t) (simp_all add: slugify_def Let_def check_slug_def slug_wf_def)
qed

lemma show_nat_slug: "list_all slug_char (show_nat n)"
proof (induction n rule: show_nat.induct)
  case (1 n)
  have d: "slug_char (digit_char k)" if "k < 10" for k
    using that by (auto simp: slug_char_def digit_char_def less_eq_char_def)
  show ?case
  proof (cases "n < 10")
    case True
    then show ?thesis by (subst show_nat.simps) (simp add: d)
  next
    case False
    with 1 show ?thesis by (subst show_nat.simps) (simp add: d)
  qed
qed

lemma check_slug_attempt:
  "check_slug (slug_attempt (slugify name) n) \<longleftrightarrow> n = 1 \<or> length (slugify name) + length (show_nat n) \<le> 62"
proof (cases "slugify name")
  case Nil
  then show ?thesis using slugify_valid [of name] by (simp add: check_slug_def)
next
  case (Cons c cs)
  have "list_all (\<lambda>x. slug_char x \<or> x = CHR ''-'') (show_nat n)"
    using show_nat_slug by (simp add: list_all_iff)
  then show ?thesis
    using slugify_valid [of name] by (auto simp: Cons check_slug_def slug_attempt_def)
qed

section \<open>The retry loop of registration\<close>

definition slug_taken :: "db \<Rightarrow> string \<Rightarrow> bool" where
  "slug_taken d slug = (slug \<in> org_slug ` set (db_organizations d))"

text \<open>The slugs stored satisfy the constraint of their column; identifiers are new; the address
  has no account.\<close>

definition can_register ::
  "('re, 'ver) services \<Rightarrow> request \<Rightarrow> string \<Rightarrow> string \<Rightarrow> db \<Rightarrow> bool" where
  "can_register S rq name email d =
     (check_name name \<and> (\<forall>g \<in> set (db_organizations d). check_slug (org_slug g)) \<and>
      (\<forall>k. rq_uuid rq k \<notin> org_id ` set (db_organizations d) \<and> rq_uuid rq k \<notin> usr_id ` set (db_users d)) \<and>
      sql_lower (sv_case S) (normal_email (sv_case S) email) \<notin>
        (\<lambda>u. sql_lower (sv_case S) (usr_email u)) ` set (db_users d))"

lemma create_organization_attempt:
  assumes "can_register S rq name email d"
  shows "slug_taken d slug \<Longrightarrow>
      create_organization_with_owner (sv_case S) (rq_uuid rq i) (rq_uuid rq j) now name slug email h d =
        Inl (Conflict ''organization'' slug)"
    and "\<not> slug_taken d slug \<Longrightarrow> \<not> check_slug slug \<Longrightarrow>
      create_organization_with_owner (sv_case S) (rq_uuid rq i) (rq_uuid rq j) now name slug email h d =
        Inl (Invalid ''organization'')"
    and "\<not> slug_taken d slug \<Longrightarrow> check_slug slug \<Longrightarrow>
      \<exists>g u d'. create_organization_with_owner (sv_case S) (rq_uuid rq i) (rq_uuid rq j) now name slug email h d =
        Inr ((g, u), d') \<and> org_slug g = slug \<and> org_name g = name \<and> usr_organization_id u = org_id g \<and>
        usr_role u = Owner"
proof -
  have c: "check_name name" "rq_uuid rq k \<notin> org_id ` set (db_organizations d)"
    "rq_uuid rq k \<notin> usr_id ` set (db_users d)"
    "sql_lower (sv_case S) (normal_email (sv_case S) email) \<notin>
        (\<lambda>u. sql_lower (sv_case S) (usr_email u)) ` set (db_users d)"
    "g \<in> set (db_organizations d) \<Longrightarrow> check_slug (org_slug g)" for k g
    using assms by (auto simp: can_register_def)
  show "slug_taken d slug \<Longrightarrow>
      create_organization_with_owner (sv_case S) (rq_uuid rq i) (rq_uuid rq j) now name slug email h d =
        Inl (Conflict ''organization'' slug)"
    using c by (auto simp: slug_taken_def create_organization_with_owner_def Let_def constraints_def)
  show "\<not> slug_taken d slug \<Longrightarrow> \<not> check_slug slug \<Longrightarrow>
      create_organization_with_owner (sv_case S) (rq_uuid rq i) (rq_uuid rq j) now name slug email h d =
        Inl (Invalid ''organization'')"
    by (simp add: create_organization_with_owner_def Let_def constraints_def)
  show "\<not> slug_taken d slug \<Longrightarrow> check_slug slug \<Longrightarrow>
      \<exists>g u d'. create_organization_with_owner (sv_case S) (rq_uuid rq i) (rq_uuid rq j) now name slug email h d =
        Inr ((g, u), d') \<and> org_slug g = slug \<and> org_name g = name \<and> usr_organization_id u = org_id g \<and>
        usr_role u = Owner"
    using c by (simp add: slug_taken_def create_organization_with_owner_def insert_user_def Let_def constraints_def)
qed

lemma try_slugs_find:
  assumes "can_register S rq name email (app_db s)"
  shows "find (\<lambda>n. \<not> slug_taken (app_db s) (slug_attempt base n)) ns = None \<Longrightarrow>
      (\<exists>m. try_slugs S rq base name email h ns s = (Inl (ApiConflict m), s))"
    and "find (\<lambda>n. \<not> slug_taken (app_db s) (slug_attempt base n)) ns = Some n \<Longrightarrow>
      try_slugs S rq base name email h ns s = try_slugs S rq base name email h [n] s \<or>
      (\<exists>m. try_slugs S rq base name email h [n] s = (Inl (ApiConflict m), s))"
  using create_organization_attempt [OF assms]
  by (induction ns) (auto split: if_splits sum.splits prod.splits storage_error.splits)

text \<open>
  C22. Registration finds a free identifier and the loop ends. The identifier derived from any
  name satisfies the constraint of its column. Registration takes the first of the twelve
  candidates that no other organization has and makes the caller the owner of the new
  organization; when every candidate is taken it ends with a conflict. The first candidate that
  is free is refused as malformed only when its numeric suffix makes it too long.
\<close>

theorem registration_takes_first_free_slug:
  assumes "can_register S rq name email (app_db s)"
  defines "base \<equiv> slugify name"
  shows "check_slug base \<and>
    (case find (\<lambda>n. \<not> slug_taken (app_db s) (slug_attempt base n)) [1..<13] of
       None \<Rightarrow> \<exists>m. register_with_free_slug S rq name email h s = (Inl (ApiConflict m), s)
     | Some n \<Rightarrow>
         if n = 1 \<or> length base + length (show_nat n) \<le> 62
         then \<exists>g u s'. register_with_free_slug S rq name email h s = (Inr (g, u), s') \<and>
           org_slug g = slug_attempt base n \<and> usr_organization_id u = org_id g \<and> usr_role u = Owner
         else register_with_free_slug S rq name email h s =
           (Inl (BadRequest ''organization failed a database constraint''), s))"
proof -
  let ?free = "\<lambda>n. \<not> slug_taken (app_db s) (slug_attempt base n)"
  have "[1..<SLUG_ATTEMPTS + 1] = [1..<13]" by (simp add: SLUG_ATTEMPTS_def)
  then have attempts: "register_with_free_slug S rq name email h s = try_slugs S rq base name email h [1..<13] s"
    by (simp only: register_with_free_slug_def base_def)
  show ?thesis
  proof (cases "find ?free [1..<13]")
    case None
    then show ?thesis
      using try_slugs_find(1) [OF assms(1) None] slugify_valid unfolding attempts None option.case
      by (simp add: base_def)
  next
    case (Some n)
    from find_SomeD [OF Some] have free: "\<not> slug_taken (app_db s) (slug_attempt base n)" by blast
    note new = create_organization_attempt(2,3) [OF assms(1) free, of "2 * n" "2 * n + 1" "rq_clock rq n" h]
    have one: "(\<exists>g u s'. try_slugs S rq base name email h [n] s = (Inr (g, u), s') \<and>
        org_slug g = slug_attempt base n \<and> usr_organization_id u = org_id g \<and> usr_role u = Owner) \<and>
      check_slug (slug_attempt base n) \<or>
      try_slugs S rq base name email h [n] s =
        (Inl (BadRequest ''organization failed a database constraint''), s) \<and> \<not> check_slug (slug_attempt base n)"
    proof (cases "check_slug (slug_attempt base n)")
      case True
      then show ?thesis using new(2) by (elim meta_impE exE conjE) (simp, force)
    next
      case False
      then show ?thesis using new(1) by (simp add: from_storage_def)
    qed
    then have run: "register_with_free_slug S rq name email h s = try_slugs S rq base name email h [n] s"
      using try_slugs_find(2) [OF assms(1) Some, of h] unfolding attempts by (auto simp del: try_slugs.simps)
    show ?thesis
      using one slugify_valid [of name] check_slug_attempt [of name n]
      unfolding run Some option.case base_def [symmetric] by (auto simp del: try_slugs.simps)
  qed
qed

section \<open>From registration to an authenticated request\<close>

text \<open>What is documented of password hashing: a hash verifies exactly the password it was made of.\<close>

definition argon2_sound :: "crypto \<Rightarrow> bool" where
  "argon2_sound C =
     (\<forall>p salt h. argon2_hash C p salt = Some h \<longrightarrow>
        phc_parses C h \<and> (\<forall>q. argon2_verify C q h \<longleftrightarrow> q = p))"

lemma try_slugs_created:
  "try_slugs S rq base name email h ns s = (Inr (g, u), s') \<Longrightarrow>
     \<exists>n i j now d. create_organization_with_owner (sv_case S) i j now name (slug_attempt base n) email h (app_db s) =
       Inr ((g, u), d) \<and> s' = s\<lparr>app_db := d\<rparr>"
  by (induction ns) (auto split: sum.splits prod.splits storage_error.splits if_splits, blast)

lemma register_created:
  assumes "register S rq body s = (Inr resp, s')"
  obtains hash i j now slug d where
    "hash_password (sv_crypto S) (rq_random rq 0) (rr_password body) = Inr hash"
    "create_organization_with_owner (sv_case S) i j now (str_trim (rr_organization_name body)) slug
       (normal_email (sv_case S) (rr_email body)) hash (app_db s) =
       Inr ((rg_organization resp, se_user (rg_session resp)), d)"
    "s' = s\<lparr>app_db := d\<rparr>"
proof -
  from assms obtain hash where hash: "hash_password (sv_crypto S) (rq_random rq 0) (rr_password body) = Inr hash"
    and rest: "h_bind (register_with_free_slug S rq (str_trim (rr_organization_name body))
        (normal_email (sv_case S) (rr_email body)) hash) (\<lambda>(organization, user).
      h_bind (issue_session S rq user) (\<lambda>session.
      h_return \<lparr>rg_session = session, rg_organization = organization\<rparr>)) s = (Inr resp, s')"
    by (auto simp: register_def Let_def h_bind_def h_check_def map_err_def split: if_splits sum.splits)
  from rest obtain g u s1 where created: "register_with_free_slug S rq (str_trim (rr_organization_name body))
        (normal_email (sv_case S) (rr_email body)) hash s = (Inr (g, u), s1)"
    and out: "h_bind (issue_session S rq u) (\<lambda>session.
      h_return \<lparr>rg_session = session, rg_organization = g\<rparr>) s1 = (Inr resp, s')"
    by (auto simp: h_bind_def split: prod.splits sum.splits)
  have "s' = s1" "se_user (rg_session resp) = u" "rg_organization resp = g"
    using out by (auto simp: issue_session_def h_bind_def h_check_def h_return_def split: sum.splits)
  then show thesis
    using that [OF hash] try_slugs_created [OF created [unfolded register_with_free_slug_def]] by blast
qed

text \<open>
  C21. A registered owner can log in and is recognised. After a registration, logging in with any
  spelling of the address succeeds with the registered password and fails with every other one,
  without changing the database. The token of a session authenticates the new user as owner of
  the new organization until it expires. This assumes the documented behaviour of Argon2 and of
  JWT signing, and that normalising the address twice is normalising it once.
\<close>

theorem registered_owner_is_recognised:
  assumes "\<And>t. sql_lower (sv_case S) (str_lower (sv_case S) t) = str_lower (sv_case S) t"
    and "normal_email (sv_case S) (normal_email (sv_case S) (rr_email body)) = normal_email (sv_case S) (rr_email body)"
    and "argon2_sound (sv_crypto S)" and "jwt_sound (sv_crypto S) (ti_secret (sv_tokens S))"
    and reg: "register S rq body s = (Inr resp, s')"
  defines "u \<equiv> se_user (rg_session resp)"
  shows "(normal_email (sv_case S) typed = normal_email (sv_case S) (rr_email body) \<longrightarrow>
      login S rq' \<lparr>lr_email = typed, lr_password = pw\<rparr> s' =
        (if pw = rr_password body then issue_session S rq' u s'
         else (Inl (ApiUnauthorized ''invalid email or password''), s'))) \<and>
    (\<forall>session. fst (issue_session S rq' u s') = Inr session \<and> 0 \<le> rq_clock rq' 0 div 1000000 \<and>
       rq_clock rq' 0 div 1000000 + int (unat (ti_ttl (sv_tokens S))) < 2 ^ 63 \<and>
       claimed_scope (se_token session) = None \<and> str_trim (se_token session) = se_token session \<longrightarrow>
       auth_user_from (sv_crypto S) later (sv_tokens S)
         \<lparr>hdr_authorization = Some (''Bearer '' @ se_token session), hdr_forwarded_for = f, hdr_flagforge_key = k\<rparr> =
       (if rq_clock rq' 0 div 1000000 + int (unat (ti_ttl (sv_tokens S))) < later
        then Inl (ApiUnauthorized ''token has expired'')
        else Inr \<lparr>caller_user_id = usr_id u, caller_org = org_id (rg_organization resp),
               caller_email = normal_email (sv_case S) (rr_email body), caller_role = Owner\<rparr>))"
proof -
  let ?T = "sv_case S" and ?C = "sv_crypto S"
  from reg obtain hash i j now slug d where
    hash: "hash_password ?C (rq_random rq 0) (rr_password body) = Inr hash"
    and org: "create_organization_with_owner ?T i j now (str_trim (rr_organization_name body)) slug
       (normal_email ?T (rr_email body)) hash (app_db s) = Inr ((rg_organization resp, u), d)"
    and s': "s' = s\<lparr>app_db := d\<rparr>"
    unfolding u_def by (rule register_created)
  have user: "db_users d = db_users (app_db s) @ [u]" "usr_role u = Owner"
    "usr_organization_id u = org_id (rg_organization resp)" "usr_email u = normal_email ?T (rr_email body)"
    using create_organization_eq [OF org] assms(2) by simp_all
  have pw_hash: "usr_password_hash u = hash"
    and unused: "normal_email ?T (rr_email body) \<notin> (\<lambda>u. sql_lower ?T (usr_email u)) ` set (db_users (app_db s))"
    using org assms(1,2)
    by (auto simp: create_organization_with_owner_def insert_user_def Let_def and_then_Inr normal_email_def)
  have "find_by_email ?T typed d = Some u" if "normal_email ?T typed = normal_email ?T (rr_email body)" for typed
  proof -
    have "find (\<lambda>u. sql_lower ?T (usr_email u) = normal_email ?T (rr_email body)) (us @ [u]) = Some u"
      if "normal_email ?T (rr_email body) \<notin> (\<lambda>u. sql_lower ?T (usr_email u)) ` set us" for us
      using that assms(1) by (induction us) (auto simp: user(4) normal_email_def)
    then show ?thesis using unused that by (simp add: find_by_email_def user(1))
  qed
  moreover have "verify_password ?C pw hash \<longleftrightarrow> pw = rr_password body" for pw
    using hash assms(3)
    by (auto simp: hash_password_def argon2_sound_def verify_password_def Let_def split: if_splits option.splits)
  ultimately have "login S rq' \<lparr>lr_email = typed, lr_password = pw\<rparr> s' =
        (if pw = rr_password body then issue_session S rq' u s'
         else (Inl (ApiUnauthorized ''invalid email or password''), s'))"
    if "normal_email ?T typed = normal_email ?T (rr_email body)"
    using that by (simp add: login_def h_bind_def h_read_def h_check_def Let_def unwrap_or_def s' pw_hash)
  moreover have "issue_token ?C (rq_clock rq' 0 div 1000000) (rq_uuid rq' 0) (sv_tokens S) (usr_id u)
      (org_id (rg_organization resp)) (normal_email ?T (rr_email body)) Owner = Inr (se_token session)"
    if "fst (issue_session S rq' u s') = Inr session" for session
    using that by (auto simp: issue_session_def h_bind_def h_check_def h_return_def user(2-4) split: sum.splits)
  ultimately show ?thesis
    using token_identifies_user [OF assms(4)] by blast
qed

definition demo_json :: audit_json where
  "demo_json = \<lparr>js_project = (\<lambda>_. None), js_environment = (\<lambda>_. None), js_flag = (\<lambda>_. None),
     js_config = (\<lambda>_. None), js_segment = (\<lambda>_. None), js_experiment = (\<lambda>_. None), js_api_key = (\<lambda>_. None)\<rparr>"

text \<open>A signing scheme with a single token, and a hash that keeps the password.\<close>

definition demo_claims :: claims where
  "demo_claims = \<lparr>cl_sub = 100, cl_org = 100, cl_email = ''b@b.c'', cl_role = Owner, cl_iat = 100,
     cl_exp = 160, cl_jti = 100\<rparr>"

definition demo_crypto :: crypto where
  "demo_crypto =
     \<lparr>jwt_encode = (\<lambda>secret c. if c = demo_claims then Some ''tok'' else None),
      jwt_decode = (\<lambda>secret now t. if t = ''tok'' then
         if 160 < now then Inl ExpiredSignature else Inr demo_claims else Inl OtherFailure),
      encode_b64 = (\<lambda>s. Some s), argon2_hash = (\<lambda>p s. Some (CHR ''h'' # p)), phc_parses = (\<lambda>h. h \<noteq> []),
      argon2_verify = (\<lambda>p h. h = CHR ''h'' # p)\<rparr>"

definition demo_services :: "(string, nat) services" where
  "demo_services =
     \<lparr>sv_ext = demo_externals, sv_case = demo_tables, sv_crypto = demo_crypto, sv_json = demo_json,
      sv_tokens = \<lparr>ti_secret = ''s'', ti_ttl = 60\<rparr>, sv_decoy = ''hx'', sv_trunc_hour = (\<lambda>t. Some t)\<rparr>"

definition demo_request :: request where
  "demo_request =
     \<lparr>rq_headers = \<lparr>hdr_authorization = None, hdr_forwarded_for = None, hdr_flagforge_key = None\<rparr>,
      rq_clock = (\<lambda>_. 100000000), rq_instant = 0, rq_uuid = (\<lambda>_. 100), rq_random = (\<lambda>_. ''r'')\<rparr>"

lemma demo_signup_tables:
  "db_organizations demo_signup = [\<lparr>org_id = 1, org_name = ''Acme'', org_slug = ''acme'', org_created_at = 0\<rparr>]"
  "map usr_id (db_users demo_signup) = [5]" "map usr_email (db_users demo_signup) = [''a@b.c'']"
proof -
  have "str_trim ''a@b.c'' = ''a@b.c''" by (rule trim_alphanumeric) (simp_all add: is_ascii_alphanumeric_def)
  then show "db_organizations demo_signup = [\<lparr>org_id = 1, org_name = ''Acme'', org_slug = ''acme'', org_created_at = 0\<rparr>]"
    "map usr_id (db_users demo_signup) = [5]" "map usr_email (db_users demo_signup) = [''a@b.c'']"
    by (simp_all add: demo_signup_def demo_eval normal_email_def demo_tables_def)
qed

lemma demo_strings:
  "slugify ''Acme'' = ''acme''" "show_nat 2 = ''2''" "str_trim ''b@b.c'' = ''b@b.c''" "str_trim ''Acme'' = ''Acme''"
  "looks_like_email ''b@b.c''" "utf8_length ''correct-horse'' = 13" "str_trim ''tok'' = ''tok''" "claimed_scope ''tok'' = None"
proof -
  show "slugify ''Acme'' = ''acme''" by code_simp
  show "show_nat 2 = ''2''" by code_simp
  show "looks_like_email ''b@b.c''" by code_simp
  show "utf8_length ''correct-horse'' = 13" by code_simp
  show "claimed_scope ''tok'' = None" by code_simp
  show "str_trim ''b@b.c'' = ''b@b.c''" "str_trim ''Acme'' = ''Acme''" "str_trim ''tok'' = ''tok''"
    by (rule trim_alphanumeric; simp add: is_ascii_alphanumeric_def)+
qed

lemma demo_can_register: "can_register demo_services demo_request ''Acme'' ''b@b.c'' demo_signup"
proof -
  have "usr_id ` set (db_users demo_signup) = {5}" "usr_email ` set (db_users demo_signup) = {''a@b.c''}"
    using arg_cong [OF demo_signup_tables(2), of set] arg_cong [OF demo_signup_tables(3), of set] by simp_all
  then show ?thesis
    by (simp add: can_register_def demo_signup_tables(1) demo_services_def demo_request_def demo_tables_def
        normal_email_def demo_strings demo_checks)
qed

theorem registration_takes_first_free_slug_witness:
  "slug_taken demo_signup ''acme'' \<and>
   (\<exists>g u s'. register_with_free_slug demo_services demo_request ''Acme'' ''b@b.c'' ''h'' (app_new demo_signup) =
      (Inr (g, u), s') \<and> org_slug g = ''acme-2'' \<and> usr_organization_id u = org_id g)"
proof -
  have reg: "can_register demo_services demo_request ''Acme'' ''b@b.c'' (app_db (app_new demo_signup))"
    by (simp add: app_new_def demo_can_register)
  have "slug_taken demo_signup ''acme''" "\<not> slug_taken demo_signup ''acme-2''"
    by (simp_all add: slug_taken_def demo_signup_tables(1))
  moreover have "[1..<13] = 1 # 2 # [3..<13 :: nat]" by code_simp
  ultimately have "find (\<lambda>n. \<not> slug_taken demo_signup (slug_attempt ''acme'' n)) [1..<13] = Some 2"
    by (simp only: find.simps) (simp add: slug_attempt_def demo_strings)
  with registration_takes_first_free_slug [OF reg, of "''h''"] \<open>slug_taken demo_signup ''acme''\<close>
  show ?thesis by (simp add: demo_strings app_new_def slug_attempt_def) blast
qed

definition demo_registration :: register_request where
  "demo_registration = \<lparr>rr_organization_name = ''Acme'', rr_email = ''b@b.c'', rr_password = ''correct-horse''\<rparr>"

lemma demo_services_parts:
  "sv_case demo_services = demo_tables" "rq_clock demo_request k = 100000000" "rq_uuid demo_request k = 100"
  "hash_password (sv_crypto demo_services) salt ''correct-horse'' = Inr ''hcorrect-horse''"
  "sql_lower demo_tables t = t" "str_lower demo_tables t = t"
  by (simp_all add: demo_services_def demo_request_def demo_crypto_def hash_password_def MIN_PASSWORD_LEN_def
      MAX_PASSWORD_LEN_def demo_strings demo_tables_def Let_def)

lemma demo_organization_created:
  "\<exists>g u s'. register_with_free_slug demo_services demo_request ''Acme'' ''b@b.c'' ''hcorrect-horse'' (app_new db_empty) =
     (Inr (g, u), s') \<and> usr_id u = 100 \<and> usr_organization_id u = 100 \<and> usr_email u = ''b@b.c'' \<and> usr_role u = Owner"
proof -
  have "[1..<SLUG_ATTEMPTS + 1] = 1 # [2..<13]" unfolding SLUG_ATTEMPTS_def by code_simp
  then have run: "register_with_free_slug demo_services demo_request ''Acme'' ''b@b.c'' ''hcorrect-horse'' (app_new db_empty) =
      try_slugs demo_services demo_request ''acme'' ''Acme'' ''b@b.c'' ''hcorrect-horse'' (1 # [2..<13]) (app_new db_empty)"
    by (simp only: register_with_free_slug_def demo_strings)
  have "\<exists>g u d. create_organization_with_owner demo_tables 100 100 100000000 ''Acme'' ''acme'' ''b@b.c''
      ''hcorrect-horse'' db_empty = Inr ((g, u), d) \<and> usr_id u = 100 \<and> usr_organization_id u = 100 \<and>
      usr_email u = ''b@b.c'' \<and> usr_role u = Owner"
    by (simp add: demo_eval normal_email_def demo_services_parts demo_strings)
  then show ?thesis unfolding run by (auto simp: demo_services_parts slug_attempt_def app_new_def)
qed

lemma demo_session:
  assumes "usr_id u = 100" "usr_organization_id u = 100" "usr_email u = ''b@b.c''" "usr_role u = Owner"
  shows "issue_session demo_services demo_request u s =
    (Inr \<lparr>se_token = ''tok'', se_expires_in = 60, se_user = u\<rparr>, s)"
proof -
  have "sint ((word_of_int 100 :: u64) + 60) = 160" using sint_expiry [of 100 60] by simp
  then show ?thesis
    using assms by (simp add: issue_session_def issue_token_def h_bind_def h_check_def h_return_def demo_services_def
        demo_request_def demo_crypto_def demo_claims_def)
qed

lemma demo_registration_runs:
  "\<exists>resp s'. register demo_services demo_request demo_registration (app_new db_empty) = (Inr resp, s')"
proof -
  have "normal_email demo_tables ''b@b.c'' = ''b@b.c''"
    by (simp add: normal_email_def demo_services_parts demo_strings)
  with demo_organization_created show ?thesis
    by (auto simp: register_def demo_registration_def h_bind_def h_check_def h_return_def demo_services_parts
        demo_strings demo_session)
qed

theorem registered_owner_is_recognised_witness:
  "\<exists>resp s'. register demo_services demo_request demo_registration (app_new db_empty) = (Inr resp, s') \<and>
     fst (login demo_services demo_request \<lparr>lr_email = ''b@b.c'', lr_password = ''wrong''\<rparr> s') =
       Inl (ApiUnauthorized ''invalid email or password'') \<and>
     login demo_services demo_request \<lparr>lr_email = ''b@b.c'', lr_password = ''correct-horse''\<rparr> s' =
       issue_session demo_services demo_request (se_user (rg_session resp)) s'"
proof -
  obtain resp s' where run: "register demo_services demo_request demo_registration (app_new db_empty) = (Inr resp, s')"
    using demo_registration_runs by blast
  have "argon2_sound (sv_crypto demo_services)"
    "jwt_sound (sv_crypto demo_services) (ti_secret (sv_tokens demo_services))"
    by (auto simp: argon2_sound_def jwt_sound_def demo_services_def demo_crypto_def demo_claims_def split: if_splits)
  note recognised = registered_owner_is_recognised [OF _ _ this run, of "''b@b.c''" demo_request]
  have email: "normal_email demo_tables ''b@b.c'' = ''b@b.c''"
    by (simp add: normal_email_def demo_services_parts demo_strings)
  show ?thesis
    using recognised [of "''wrong''"] recognised [of "''correct-horse''"] run
    by (simp add: demo_services_parts email demo_registration_def)
qed

end
