(* ===== verification/Api_Projects.thy ===== *)
theory Api_Projects
  imports Api_State
begin

text \<open>
  \<^verbatim>\<open>crates/api/src/routes/projects.rs\<close>, \<^verbatim>\<open>keys.rs\<close> and \<^verbatim>\<open>audit.rs\<close>: projects, environments, SDK
  keys and the audit trail. The salt of an environment and the secret of a key are the random
  texts of the request.
\<close>

section \<open>Projects\<close>

record create_project_body =
  cp_key :: string
  cp_name :: string
  cp_description :: "string option"

definition projects_create ::
  "('re, 'ver) services \<Rightarrow> request \<Rightarrow> auth_user \<Rightarrow> create_project_body \<Rightarrow> project handler" where
  "projects_create S rq caller body =
     h_bind (h_check (require_write caller)) (\<lambda>_.
     h_bind (h_check (valid_key (cp_key body) ''key'')) (\<lambda>_.
     h_bind (h_write (create_project (rq_uuid rq 0) (rq_clock rq 0) (caller_org caller) (cp_key body)
               (str_trim (cp_name body)) (cp_description body))) (\<lambda>project.
     h_bind (h_audit (rq_clock rq 1)
       (changing (js_project (sv_json S))
          (new_audit_entry_new (caller_org caller) (actor caller) ''project.created'' ''project'' (prj_key project))
          None (Some project))) (\<lambda>_.
     h_return project))))"

definition projects_list :: "auth_user \<Rightarrow> project list handler" where
  "projects_list caller = h_read (\<lambda>d. Inr (list_projects (caller_org caller) d))"

definition projects_get :: "auth_user \<Rightarrow> string \<Rightarrow> project handler" where
  "projects_get caller project_key = h_project caller project_key"

definition projects_delete :: "request \<Rightarrow> auth_user \<Rightarrow> string \<Rightarrow> unit handler" where
  "projects_delete rq caller project_key =
     h_bind (h_check (require_admin caller)) (\<lambda>_.
     h_bind (h_exec (delete_project (caller_org caller) project_key)) (\<lambda>_.
     h_audit (rq_clock rq 0)
       (new_audit_entry_new (caller_org caller) (actor caller) ''project.deleted'' ''project'' project_key)))"

record create_environment_body =
  ce_key :: string
  ce_name :: string
  ce_is_production :: bool

definition projects_create_environment ::
  "('re, 'ver) services \<Rightarrow> request \<Rightarrow> auth_user \<Rightarrow> string \<Rightarrow> create_environment_body \<Rightarrow> environment handler" where
  "projects_create_environment S rq caller project_key body =
     h_bind (h_check (require_write caller)) (\<lambda>_.
     h_bind (h_check (valid_key (ce_key body) ''key'')) (\<lambda>_.
     h_bind (h_project caller project_key) (\<lambda>project.
     h_bind (h_write (create_environment (rq_uuid rq 0) (rq_clock rq 0) (prj_id project) (ce_key body)
               (str_trim (ce_name body)) (rq_random rq 0) (ce_is_production body))) (\<lambda>environment.
     h_bind (h_audit (rq_clock rq 1)
       (changing (js_environment (sv_json S))
          (in_environment
             (new_audit_entry_new (caller_org caller) (actor caller) ''environment.created'' ''environment''
                (prj_key project @ ''/'' @ en_key environment)) (en_id environment))
          None (Some environment))) (\<lambda>_.
     h_return environment)))))"

definition projects_list_environments :: "auth_user \<Rightarrow> string \<Rightarrow> environment list handler" where
  "projects_list_environments caller project_key =
     h_bind (h_project caller project_key) (\<lambda>project.
     h_read (\<lambda>d. Inr (list_environments (prj_id project) d)))"

definition projects_delete_environment :: "request \<Rightarrow> auth_user \<Rightarrow> string \<Rightarrow> string \<Rightarrow> unit handler" where
  "projects_delete_environment rq caller project_key environment_key =
     h_bind (h_check (require_admin caller)) (\<lambda>_.
     h_bind (h_project caller project_key) (\<lambda>project.
     h_bind (h_environment project environment_key) (\<lambda>environment.
     h_bind (h_exec (delete_environment (prj_id project) environment_key)) (\<lambda>_.
     h_bind (h_cache_refresh (rq_clock rq 0) (en_id environment)) (\<lambda>_.
     h_audit (rq_clock rq 1)
       (new_audit_entry_new (caller_org caller) (actor caller) ''environment.deleted'' ''environment''
          (project_key @ ''/'' @ environment_key)))))))"

section \<open>SDK keys\<close>

record create_key_body =
  ck_name :: string
  ck_scope :: key_scope

record created_key =
  crk_key :: api_key
  crk_secret :: string

definition keys_create ::
  "('re, 'ver) services \<Rightarrow> request \<Rightarrow> auth_user \<Rightarrow> string \<Rightarrow> string \<Rightarrow> create_key_body \<Rightarrow> created_key handler" where
  "keys_create S rq caller project_key environment_key body =
     h_bind (h_check (require_admin caller)) (\<lambda>_.
     h_bind (h_project caller project_key) (\<lambda>project.
     h_bind (h_environment project environment_key) (\<lambda>environment.
     let generated = generate (sv_ext S) (rq_random rq 0) (ck_scope body) in
     h_bind (h_write (create_api_key (rq_uuid rq 0) (rq_clock rq 0) (en_id environment)
               (str_trim (ck_name body)) (gk_hash generated) (gk_prefix generated) (ck_scope body))) (\<lambda>key.
     h_bind (h_audit (rq_clock rq 1)
       (changing (js_api_key (sv_json S))
          (in_environment
             (new_audit_entry_new (caller_org caller) (actor caller) ''api_key.created'' ''api_key''
                (uuid_to_string (sv_ext S) (ak_id key))) (en_id environment))
          None (Some key))) (\<lambda>_.
     h_return \<lparr>crk_key = key, crk_secret = gk_secret generated\<rparr>)))))"

definition keys_list :: "auth_user \<Rightarrow> string \<Rightarrow> string \<Rightarrow> api_key list handler" where
  "keys_list caller project_key environment_key =
     h_bind (h_check (require_admin caller)) (\<lambda>_.
     h_bind (h_project caller project_key) (\<lambda>project.
     h_bind (h_environment project environment_key) (\<lambda>environment.
     h_read (\<lambda>d. Inr (list_api_keys (en_id environment) d)))))"

definition keys_revoke ::
  "('re, 'ver) services \<Rightarrow> request \<Rightarrow> auth_user \<Rightarrow> string \<Rightarrow> string \<Rightarrow> uuid \<Rightarrow> unit handler" where
  "keys_revoke S rq caller project_key environment_key key_id =
     h_bind (h_check (require_admin caller)) (\<lambda>_.
     h_bind (h_project caller project_key) (\<lambda>project.
     h_bind (h_environment project environment_key) (\<lambda>environment.
     h_bind (h_exec (revoke_api_key (rq_clock rq 0) (en_id environment) key_id)) (\<lambda>_.
     h_audit (rq_clock rq 1)
       (in_environment
          (new_audit_entry_new (caller_org caller) (actor caller) ''api_key.revoked'' ''api_key''
             (uuid_to_string (sv_ext S) key_id)) (en_id environment))))))"

section \<open>The audit trail\<close>

definition DEFAULT_PAGE_SIZE :: int where
  "DEFAULT_PAGE_SIZE = 50"

record audit_query =
  aq_resource_type :: "string option"
  aq_resource_id :: "string option"
  aq_before_id :: "int option"
  aq_limit :: "int option"

record audit_page =
  ap_entries :: "audit_entry list"
  ap_next_cursor :: "int option"

definition audit_routes_list :: "auth_user \<Rightarrow> audit_query \<Rightarrow> audit_page handler" where
  "audit_routes_list caller query =
     h_bind (h_check (require_admin caller)) (\<lambda>_.
     let limit = unwrap_or (aq_limit query) DEFAULT_PAGE_SIZE in
     h_bind (h_read (\<lambda>d. Inr (audit_list (caller_org caller) (aq_resource_type query) (aq_resource_id query)
               (aq_before_id query) limit d))) (\<lambda>entries.
     h_return
       \<lparr>ap_entries = entries,
        ap_next_cursor =
          (if clamp_limit limit \<le> length entries
           then (if entries = [] then None else Some (au_id (last entries))) else None)\<rparr>))"

lemmas projects_defs [model_defs] =
  projects_create_def projects_list_def projects_get_def projects_delete_def projects_create_environment_def
  projects_list_environments_def projects_delete_environment_def keys_create_def keys_list_def
  keys_revoke_def DEFAULT_PAGE_SIZE_def audit_routes_list_def

end
