(* ===== verification/Api_Flags.thy ===== *)
theory Api_Flags
  imports Api_State
begin

text \<open>
  \<^verbatim>\<open>crates/api/src/routes/flags.rs\<close> and \<^verbatim>\<open>segments.rs\<close>: flags, their configuration per
  environment, and segments. Nothing that the engine could not evaluate is written.
\<close>

section \<open>Validation\<close>

definition validate_evaluable ::
  "('re, 'ver) externals \<Rightarrow> string \<Rightarrow> variant list \<Rightarrow> string \<Rightarrow> distribution \<Rightarrow> rule list \<Rightarrow> api_error + flag" where
  "validate_evaluable X key variants off_variant fallthrough rules =
     (let candidate = \<lparr>flag_key = key, flag_variants = variants, flag_enabled = True,
                       flag_off_variant = off_variant, flag_fallthrough = fallthrough,
                       flag_rules = rules, flag_version = 0\<rparr>
      in and_then (map_err Unprocessable (validate X candidate)) (\<lambda>_. Inr candidate))"

fun annotate :: "api_error \<Rightarrow> string \<Rightarrow> api_error" where
  "annotate (Unprocessable issues) environment_key =
     Unprocessable (map (\<lambda>i. i\<lparr>issue_path := ''environments.'' @ environment_key @ ''.'' @ issue_path i\<rparr>) issues)"
| "annotate other environment_key = other"

section \<open>Flags\<close>

record create_flag_body =
  cf_key :: string
  cf_name :: string
  cf_description :: "string option"
  cf_variants :: "variant list option"
  cf_off_variant :: "string option"
  cf_fallthrough :: "distribution option"

definition flags_create ::
  "('re, 'ver) services \<Rightarrow> request \<Rightarrow> auth_user \<Rightarrow> string \<Rightarrow> create_flag_body \<Rightarrow> flag_row handler" where
  "flags_create S rq caller project_key body =
     h_bind (h_check (require_write caller)) (\<lambda>_.
     h_bind (h_check (valid_key (cf_key body) ''key'')) (\<lambda>_.
     h_bind (h_project caller project_key) (\<lambda>project.
     let template = flag_boolean (cf_key body);
         variants = unwrap_or (cf_variants body) (flag_variants template);
         off_variant = unwrap_or (cf_off_variant body) (flag_off_variant template);
         fallthrough = unwrap_or (cf_fallthrough body) (flag_fallthrough template) in
     h_bind (h_check (validate_evaluable (sv_ext S) (cf_key body) variants off_variant fallthrough [])) (\<lambda>_.
     h_bind (h_write (create_flag (rq_uuid rq 0) (rq_clock rq 0) (prj_id project) (cf_key body)
               (str_trim (cf_name body)) (cf_description body) variants off_variant fallthrough)) (\<lambda>flag.
     h_bind (h_audit (rq_clock rq 1)
       (changing (js_flag (sv_json S))
          (new_audit_entry_new (caller_org caller) (actor caller) ''flag.created'' ''flag''
             (project_key @ ''/'' @ fl_key flag))
          None (Some flag))) (\<lambda>_.
     h_return flag))))))"

definition flags_list :: "auth_user \<Rightarrow> string \<Rightarrow> bool \<Rightarrow> flag_row list handler" where
  "flags_list caller project_key include_archived =
     h_bind (h_project caller project_key) (\<lambda>project.
     h_read (\<lambda>d. Inr (list_flags (prj_id project) include_archived d)))"

record flag_with_usage =
  fwu_flag :: flag_row
  fwu_measured_by :: "string list"

definition flags_get :: "auth_user \<Rightarrow> string \<Rightarrow> string \<Rightarrow> flag_with_usage handler" where
  "flags_get caller project_key fkey =
     h_bind (h_project caller project_key) (\<lambda>project.
     h_bind (h_read (find_flag (prj_id project) fkey)) (\<lambda>flag.
     h_bind (h_read (\<lambda>d. Inr (experiments_referencing_flag (fl_id flag) d))) (\<lambda>measured_by.
     h_return \<lparr>fwu_flag = flag, fwu_measured_by = measured_by\<rparr>)))"

record update_flag_body =
  uf_name :: "string option"
  uf_description :: "string option option"
  uf_variants :: "variant list option"
  uf_archived :: "bool option"

text \<open>The loop of the update: every environment's configuration against the new variants.\<close>

fun revalidate ::
  "('re, 'ver) externals \<Rightarrow> flag_row \<Rightarrow> variant list \<Rightarrow> environment list \<Rightarrow> unit handler" where
  "revalidate X existing new_variants [] = h_return ()"
| "revalidate X existing new_variants (environment # environments) =
     h_bind (h_read (find_config (fl_id existing) (en_id environment))) (\<lambda>config.
     h_bind (h_check (map_err (\<lambda>err. annotate err (en_key environment))
               (validate_evaluable X (fl_key existing) new_variants (fc_off_variant config)
                  (fc_fallthrough config) (fc_rules config)))) (\<lambda>_.
     revalidate X existing new_variants environments))"

definition flags_update ::
  "('re, 'ver) services \<Rightarrow> request \<Rightarrow> auth_user \<Rightarrow> string \<Rightarrow> string \<Rightarrow> update_flag_body \<Rightarrow> flag_row handler" where
  "flags_update S rq caller project_key fkey body =
     h_bind (h_check (require_write caller)) (\<lambda>_.
     h_bind (h_project caller project_key) (\<lambda>project.
     h_bind (h_read (find_flag (prj_id project) fkey)) (\<lambda>existing.
     h_bind (case uf_variants body of
               None \<Rightarrow> h_return ()
             | Some new_variants \<Rightarrow>
                 h_bind (h_read (\<lambda>d. Inr (list_environments (prj_id project) d)))
                   (revalidate (sv_ext S) existing new_variants)) (\<lambda>_.
     h_bind (h_write (update_flag (sv_ext S) (rq_clock rq 0) (fl_id existing)
               (map_option str_trim (uf_name body)) (uf_description body) (uf_variants body)
               (uf_archived body))) (\<lambda>updated.
     h_bind (h_audit (rq_clock rq 1)
       (changing (js_flag (sv_json S))
          (new_audit_entry_new (caller_org caller) (actor caller) ''flag.updated'' ''flag''
             (project_key @ ''/'' @ fkey))
          (Some existing) (Some updated))) (\<lambda>_.
     h_return updated))))))"

definition flags_delete :: "request \<Rightarrow> auth_user \<Rightarrow> string \<Rightarrow> string \<Rightarrow> unit handler" where
  "flags_delete rq caller project_key fkey =
     h_bind (h_check (require_admin caller)) (\<lambda>_.
     h_bind (h_project caller project_key) (\<lambda>project.
     h_bind (h_exec (delete_flag (prj_id project) fkey)) (\<lambda>_.
     h_audit (rq_clock rq 0)
       (new_audit_entry_new (caller_org caller) (actor caller) ''flag.deleted'' ''flag''
          (project_key @ ''/'' @ fkey)))))"

section \<open>Configurations\<close>

definition flags_get_config :: "auth_user \<Rightarrow> string \<Rightarrow> string \<Rightarrow> string \<Rightarrow> flag_config handler" where
  "flags_get_config caller project_key environment_key fkey =
     h_bind (h_project caller project_key) (\<lambda>project.
     h_bind (h_environment project environment_key) (\<lambda>environment.
     h_bind (h_read (find_flag (prj_id project) fkey)) (\<lambda>flag.
     h_read (find_config (fl_id flag) (en_id environment)))))"

definition flags_list_configured ::
  "auth_user \<Rightarrow> string \<Rightarrow> string \<Rightarrow> bool \<Rightarrow> (flag_row \<times> flag_config) list handler" where
  "flags_list_configured caller project_key environment_key include_archived =
     h_bind (h_project caller project_key) (\<lambda>project.
     h_bind (h_environment project environment_key) (\<lambda>environment.
     h_read (\<lambda>d. Inr (list_configured (prj_id project) (en_id environment) include_archived d))))"

record update_config_body =
  uc_enabled :: bool
  uc_off_variant :: string
  uc_fallthrough :: distribution
  uc_rules :: "rule list"
  uc_expected_version :: "int option"

definition flags_update_config ::
  "('re, 'ver) services \<Rightarrow> request \<Rightarrow> auth_user \<Rightarrow> string \<Rightarrow> string \<Rightarrow> string \<Rightarrow> update_config_body \<Rightarrow>
     flag_config handler" where
  "flags_update_config S rq caller project_key environment_key fkey body =
     h_bind (h_check (require_write caller)) (\<lambda>_.
     h_bind (h_project caller project_key) (\<lambda>project.
     h_bind (h_environment project environment_key) (\<lambda>environment.
     h_bind (h_read (find_flag (prj_id project) fkey)) (\<lambda>flag.
     h_bind (h_check (validate_evaluable (sv_ext S) (fl_key flag) (fl_variants flag) (uc_off_variant body)
               (uc_fallthrough body) (uc_rules body))) (\<lambda>candidate.
     h_bind (h_read (\<lambda>d. Inr (segment_keys (en_id environment) d))) (\<lambda>known.
     h_bind (h_check (map_err Unprocessable (validate_references candidate (set known)))) (\<lambda>_.
     h_bind (h_read (\<lambda>d. Inr (case find_config (fl_id flag) (en_id environment) d of
               Inl _ \<Rightarrow> None | Inr c \<Rightarrow> Some c))) (\<lambda>previous.
     h_bind (h_write (upsert_config (sv_ext S) (rq_clock rq 0) (fl_id flag) (en_id environment)
               (uc_enabled body) (uc_off_variant body) (uc_fallthrough body) (uc_rules body)
               (uc_expected_version body))) (\<lambda>config.
     h_bind (h_cache_refresh (rq_clock rq 1) (en_id environment)) (\<lambda>_.
     h_bind (h_audit (rq_clock rq 2)
       (changing (js_config (sv_json S))
          (in_environment
             (new_audit_entry_new (caller_org caller) (actor caller) ''flag.configured'' ''flag''
                (project_key @ ''/'' @ environment_key @ ''/'' @ fkey)) (en_id environment))
          previous (Some config))) (\<lambda>_.
     h_return config)))))))))))"

section \<open>Segments\<close>

record create_segment_body =
  cs_key :: string
  cs_name :: string
  cs_description :: "string option"

record segment_with_usage =
  swu_segment :: segment_row
  swu_referenced_by :: "string list"

definition segments_list :: "auth_user \<Rightarrow> string \<Rightarrow> string \<Rightarrow> segment_row list handler" where
  "segments_list caller project_key environment_key =
     h_bind (h_project caller project_key) (\<lambda>project.
     h_bind (h_environment project environment_key) (\<lambda>environment.
     h_read (\<lambda>d. Inr (list_segments (en_id environment) d))))"

definition segments_create ::
  "('re, 'ver) services \<Rightarrow> request \<Rightarrow> auth_user \<Rightarrow> string \<Rightarrow> string \<Rightarrow> create_segment_body \<Rightarrow> segment_row handler" where
  "segments_create S rq caller project_key environment_key body =
     h_bind (h_check (require_write caller)) (\<lambda>_.
     h_bind (h_check (valid_key (cs_key body) ''key'')) (\<lambda>_.
     h_bind (h_project caller project_key) (\<lambda>project.
     h_bind (h_environment project environment_key) (\<lambda>environment.
     h_bind (h_write (create_segment (rq_uuid rq 0) (rq_clock rq 0) (en_id environment) (cs_key body)
               (cs_name body) (cs_description body))) (\<lambda>segment.
     h_bind (h_cache_refresh (rq_clock rq 1) (en_id environment)) (\<lambda>_.
     h_bind (h_audit (rq_clock rq 2)
       (changing (js_segment (sv_json S))
          (in_environment
             (new_audit_entry_new (caller_org caller) (actor caller) ''segment.created'' ''segment''
                (project_key @ ''/'' @ environment_key @ ''/'' @ cs_key body)) (en_id environment))
          None (Some segment))) (\<lambda>_.
     h_return segment)))))))"

definition segments_get :: "auth_user \<Rightarrow> string \<Rightarrow> string \<Rightarrow> string \<Rightarrow> segment_with_usage handler" where
  "segments_get caller project_key environment_key skey =
     h_bind (h_project caller project_key) (\<lambda>project.
     h_bind (h_environment project environment_key) (\<lambda>environment.
     h_bind (h_read (find_segment (en_id environment) skey)) (\<lambda>segment.
     h_bind (h_read (\<lambda>d. Inr (referencing_flags (en_id environment) skey d))) (\<lambda>referenced_by.
     h_return \<lparr>swu_segment = segment, swu_referenced_by = referenced_by\<rparr>))))"

record update_segment_body =
  us_changes :: segment_changes
  us_expected_version :: "int option"

definition validate_decidable ::
  "('re, 'ver) externals \<Rightarrow> segment_row \<Rightarrow> update_segment_body \<Rightarrow> api_error + unit" where
  "validate_decidable X previous patch =
     (let candidate = \<lparr>seg_key = sg_key previous, seg_description = None,
                       seg_included = unwrap_or (sc_included (us_changes patch)) (sg_included previous),
                       seg_excluded = unwrap_or (sc_excluded (us_changes patch)) (sg_excluded previous),
                       seg_rules = unwrap_or (sc_rules (us_changes patch)) (sg_rules previous),
                       seg_version = sg_version previous\<rparr>
      in map_err Unprocessable (validate_segment X candidate))"

definition segments_update ::
  "('re, 'ver) services \<Rightarrow> request \<Rightarrow> auth_user \<Rightarrow> string \<Rightarrow> string \<Rightarrow> string \<Rightarrow> update_segment_body \<Rightarrow>
     segment_row handler" where
  "segments_update S rq caller project_key environment_key skey body =
     h_bind (h_check (require_write caller)) (\<lambda>_.
     h_bind (h_project caller project_key) (\<lambda>project.
     h_bind (h_environment project environment_key) (\<lambda>environment.
     h_bind (h_read (find_segment (en_id environment) skey)) (\<lambda>previous.
     h_bind (h_check (validate_decidable (sv_ext S) previous body)) (\<lambda>_.
     h_bind (h_write (update_segment (rq_clock rq 0) (en_id environment) skey (us_changes body)
               (us_expected_version body))) (\<lambda>segment.
     h_bind (h_cache_refresh (rq_clock rq 1) (en_id environment)) (\<lambda>_.
     h_bind (h_audit (rq_clock rq 2)
       (changing (js_segment (sv_json S))
          (in_environment
             (new_audit_entry_new (caller_org caller) (actor caller) ''segment.updated'' ''segment''
                (project_key @ ''/'' @ environment_key @ ''/'' @ skey)) (en_id environment))
          (Some previous) (Some segment))) (\<lambda>_.
     h_return segment))))))))"

definition segments_delete ::
  "('re, 'ver) services \<Rightarrow> request \<Rightarrow> auth_user \<Rightarrow> string \<Rightarrow> string \<Rightarrow> string \<Rightarrow> unit handler" where
  "segments_delete S rq caller project_key environment_key skey =
     h_bind (h_check (require_write caller)) (\<lambda>_.
     h_bind (h_project caller project_key) (\<lambda>project.
     h_bind (h_environment project environment_key) (\<lambda>environment.
     h_bind (h_read (find_segment (en_id environment) skey)) (\<lambda>previous.
     h_bind (h_exec (delete_segment (en_id environment) skey)) (\<lambda>_.
     h_bind (h_cache_refresh (rq_clock rq 0) (en_id environment)) (\<lambda>_.
     h_audit (rq_clock rq 1)
       (changing (js_segment (sv_json S))
          (in_environment
             (new_audit_entry_new (caller_org caller) (actor caller) ''segment.deleted'' ''segment''
                (project_key @ ''/'' @ environment_key @ ''/'' @ skey)) (en_id environment))
          (Some previous) None)))))))"

lemmas flags_defs [model_defs] =
  validate_evaluable_def flags_create_def flags_list_def flags_get_def flags_update_def flags_delete_def
  flags_get_config_def flags_list_configured_def flags_update_config_def segments_list_def
  segments_create_def segments_get_def validate_decidable_def segments_update_def segments_delete_def

end
