(* ===== verification/Api_Experiments.thy ===== *)
theory Api_Experiments
  imports Api_State "HOL-Library.Multiset"
begin

text \<open>
  \<^verbatim>\<open>crates/api/src/routes/experiments.rs\<close>: the lifecycle of experiments and their results, with
  one entry per arm in the order of the flag's variants.
\<close>

section \<open>Ordering the arms\<close>

text \<open>\<^verbatim>\<open>Vec::swap_remove\<close>: the last element takes the place of the removed one.\<close>

definition swap_remove :: "nat \<Rightarrow> 'a list \<Rightarrow> 'a list" where
  "swap_remove i xs = (if Suc i = length xs then butlast xs else (butlast xs)[i := last xs])"

fun position :: "('a \<Rightarrow> bool) \<Rightarrow> 'a list \<Rightarrow> nat option" where
  "position P [] = None"
| "position P (x # xs) = (if P x then Some 0 else map_option Suc (position P xs))"

text \<open>The loop over the flag's variants, with the entries found so far and the ones left.\<close>

fun take_in_order ::
  "('a \<Rightarrow> string) \<Rightarrow> (string \<Rightarrow> 'a option) \<Rightarrow> variant list \<Rightarrow> 'a list \<Rightarrow> 'a list \<times> 'a list" where
  "take_in_order key absent [] xs = ([], xs)"
| "take_in_order key absent (v # vs) xs =
     (case position (\<lambda>x. key x = variant_key v) xs of
        Some i \<Rightarrow>
          (let (ordered, rest) = take_in_order key absent vs (swap_remove i xs) in ((xs ! i) # ordered, rest))
      | None \<Rightarrow>
          (let (ordered, rest) = take_in_order key absent vs xs
           in ((case absent (variant_key v) of None \<Rightarrow> [] | Some x \<Rightarrow> [x]) @ ordered, rest)))"

definition in_flag_order :: "experiment_view \<Rightarrow> variant_counts list \<Rightarrow> variant_counts list" where
  "in_flag_order x counts =
     (let (ordered, rest) =
        take_in_order vc_variant (\<lambda>v. Some \<lparr>vc_variant = v, vc_exposures = 0, vc_conversions = 0\<rparr>)
          (exp_variants x) counts
      in ordered @ sort_key vc_variant rest)"

definition series_in_flag_order :: "experiment_view \<Rightarrow> variant_series list \<Rightarrow> variant_series list" where
  "series_in_flag_order x series =
     (let (ordered, rest) = take_in_order vs_variant (\<lambda>_. None) (exp_variants x) series
      in ordered @ sort_key vs_variant rest)"

section \<open>Handlers\<close>

record create_experiment_body =
  cx_key :: string
  cx_name :: string
  cx_description :: "string option"
  cx_flag_key :: string
  cx_metric_key :: string
  cx_control_variant :: string

record update_experiment_body =
  ux_name :: "string option"
  ux_description :: "string option option"

text \<open>The window of the series: seven days, in microseconds.\<close>

definition SERIES_WINDOW :: int where
  "SERIES_WINDOW = 7 * 24 * 60 * 60 * 1000000"

record experiment_results =
  er_experiment :: experiment_view
  er_results :: "variant_result list"
  er_series :: "variant_series list"

definition experiments_list :: "auth_user \<Rightarrow> string \<Rightarrow> string \<Rightarrow> experiment_view list handler" where
  "experiments_list caller project_key environment_key =
     h_bind (h_project caller project_key) (\<lambda>project.
     h_bind (h_environment project environment_key) (\<lambda>environment.
     h_read (\<lambda>d. Inr (list_experiments (en_id environment) d))))"

definition experiments_create ::
  "('re, 'ver) services \<Rightarrow> request \<Rightarrow> auth_user \<Rightarrow> string \<Rightarrow> string \<Rightarrow> create_experiment_body \<Rightarrow>
     experiment_view handler" where
  "experiments_create S rq caller project_key environment_key body =
     h_bind (h_check (require_write caller)) (\<lambda>_.
     h_bind (h_check (valid_key (cx_key body) ''key'')) (\<lambda>_.
     h_bind (h_check (valid_key (cx_metric_key body) ''metric_key'')) (\<lambda>_.
     h_bind (h_project caller project_key) (\<lambda>project.
     h_bind (h_environment project environment_key) (\<lambda>environment.
     h_bind (h_read (find_flag (prj_id project) (cx_flag_key body))) (\<lambda>flag.
     h_bind (h_check (if fl_archived flag then
         Inl (BadRequest (''flag '' @ quoted (cx_flag_key body) @
           '' is archived; an experiment would measure traffic it no longer serves''))
       else if \<not> list_ex (\<lambda>v. variant_key v = cx_control_variant body) (fl_variants flag) then
         Inl (BadRequest (quoted (cx_control_variant body) @ '' is not a variant of '' @
           quoted (cx_flag_key body) @ '' (it has: '' @ join '', '' (map variant_key (fl_variants flag)) @ '')''))
       else Inr ())) (\<lambda>_.
     h_bind (h_attempt (create_experiment (rq_uuid rq 0) (rq_clock rq 0) (en_id environment) (fl_id flag)
               (cx_key body) (cx_name body) (cx_description body) (cx_metric_key body)
               (cx_control_variant body))) (\<lambda>experiment.
     h_bind (h_audit (rq_clock rq 1)
       (changing (js_experiment (sv_json S))
          (in_environment
             (new_audit_entry_new (caller_org caller) (actor caller) ''experiment.created'' ''experiment''
                (project_key @ ''/'' @ environment_key @ ''/'' @ cx_key body)) (en_id environment))
          None (Some experiment))) (\<lambda>_.
     h_return experiment)))))))))"

definition experiments_get :: "auth_user \<Rightarrow> string \<Rightarrow> string \<Rightarrow> string \<Rightarrow> experiment_view handler" where
  "experiments_get caller project_key environment_key xkey =
     h_bind (h_project caller project_key) (\<lambda>project.
     h_bind (h_environment project environment_key) (\<lambda>environment.
     h_read (find_experiment (en_id environment) xkey)))"

definition experiments_update ::
  "('re, 'ver) services \<Rightarrow> request \<Rightarrow> auth_user \<Rightarrow> string \<Rightarrow> string \<Rightarrow> string \<Rightarrow> update_experiment_body \<Rightarrow>
     experiment_view handler" where
  "experiments_update S rq caller project_key environment_key xkey body =
     h_bind (h_check (require_write caller)) (\<lambda>_.
     h_bind (h_project caller project_key) (\<lambda>project.
     h_bind (h_environment project environment_key) (\<lambda>environment.
     h_bind (h_read (find_experiment (en_id environment) xkey)) (\<lambda>previous.
     h_bind (h_attempt (update_experiment (rq_clock rq 0) (en_id environment) xkey (ux_name body)
               (ux_description body))) (\<lambda>experiment.
     h_bind (h_audit (rq_clock rq 1)
       (changing (js_experiment (sv_json S))
          (in_environment
             (new_audit_entry_new (caller_org caller) (actor caller) ''experiment.updated'' ''experiment''
                (project_key @ ''/'' @ environment_key @ ''/'' @ xkey)) (en_id environment))
          (Some previous) (Some experiment))) (\<lambda>_.
     h_return experiment))))))"

definition experiments_transition ::
  "('re, 'ver) services \<Rightarrow> request \<Rightarrow> auth_user \<Rightarrow> string \<Rightarrow> string \<Rightarrow> string \<Rightarrow> experiment_state \<Rightarrow>
     experiment_view handler" where
  "experiments_transition S rq caller project_key environment_key xkey target =
     h_bind (h_check (require_write caller)) (\<lambda>_.
     h_bind (h_project caller project_key) (\<lambda>project.
     h_bind (h_environment project environment_key) (\<lambda>environment.
     h_bind (h_attempt (if target = Running then start_experiment (rq_clock rq 0) (en_id environment) xkey
               else stop_experiment (rq_clock rq 0) (en_id environment) xkey)) (\<lambda>experiment.
     h_bind (h_cache_refresh (rq_clock rq 1) (en_id environment)) (\<lambda>_.
     h_bind (h_audit (rq_clock rq 2)
       (changing (js_experiment (sv_json S))
          (in_environment
             (new_audit_entry_new (caller_org caller) (actor caller)
                (if target = Running then ''experiment.started'' else ''experiment.stopped'') ''experiment''
                (project_key @ ''/'' @ environment_key @ ''/'' @ xkey)) (en_id environment))
          None (Some experiment))) (\<lambda>_.
     h_return experiment))))))"

definition experiments_start ::
  "('re, 'ver) services \<Rightarrow> request \<Rightarrow> auth_user \<Rightarrow> string \<Rightarrow> string \<Rightarrow> string \<Rightarrow> experiment_view handler" where
  "experiments_start S rq caller project_key environment_key xkey =
     experiments_transition S rq caller project_key environment_key xkey Running"

definition experiments_stop ::
  "('re, 'ver) services \<Rightarrow> request \<Rightarrow> auth_user \<Rightarrow> string \<Rightarrow> string \<Rightarrow> string \<Rightarrow> experiment_view handler" where
  "experiments_stop S rq caller project_key environment_key xkey =
     experiments_transition S rq caller project_key environment_key xkey Stopped"

definition experiments_delete ::
  "('re, 'ver) services \<Rightarrow> request \<Rightarrow> auth_user \<Rightarrow> string \<Rightarrow> string \<Rightarrow> string \<Rightarrow> unit handler" where
  "experiments_delete S rq caller project_key environment_key xkey =
     h_bind (h_check (require_write caller)) (\<lambda>_.
     h_bind (h_project caller project_key) (\<lambda>project.
     h_bind (h_environment project environment_key) (\<lambda>environment.
     h_bind (h_read (find_experiment (en_id environment) xkey)) (\<lambda>previous.
     h_bind (h_exec (delete_experiment (en_id environment) xkey)) (\<lambda>_.
     h_audit (rq_clock rq 0)
       (changing (js_experiment (sv_json S))
          (in_environment
             (new_audit_entry_new (caller_org caller) (actor caller) ''experiment.deleted'' ''experiment''
                (project_key @ ''/'' @ environment_key @ ''/'' @ xkey)) (en_id environment))
          (Some previous) None))))))"

text \<open>A panic in the statistics would end the request with a bare 500.\<close>

definition experiments_results ::
  "request \<Rightarrow> auth_user \<Rightarrow> string \<Rightarrow> string \<Rightarrow> string \<Rightarrow> experiment_results handler" where
  "experiments_results rq caller project_key environment_key xkey =
     h_bind (h_project caller project_key) (\<lambda>project.
     h_bind (h_environment project environment_key) (\<lambda>environment.
     h_bind (h_read (find_experiment (en_id environment) xkey)) (\<lambda>x.
     h_bind (h_read (experiment_counts (ex_id (exp_row x)))) (\<lambda>counts.
     let since = rq_clock rq 0 - SERIES_WINDOW in
     h_bind (h_read (\<lambda>d. Inr (hourly_counts (ex_id (exp_row x)) since d))) (\<lambda>series.
     h_bind (h_check (case results (ex_control_variant (exp_row x)) (in_flag_order x counts) of
               None \<Rightarrow> Inl (Internal ''panic'') | Some judged \<Rightarrow> Inr judged)) (\<lambda>judged.
     h_return \<lparr>er_experiment = x, er_results = judged, er_series = series_in_flag_order x series\<rparr>))))))"

lemmas experiments_defs [model_defs] =
  swap_remove_def in_flag_order_def series_in_flag_order_def SERIES_WINDOW_def experiments_list_def
  experiments_create_def experiments_get_def experiments_update_def experiments_transition_def
  experiments_start_def experiments_stop_def experiments_delete_def experiments_results_def

section \<open>Every arm appears once\<close>

lemma position_Some:
  "position P xs = Some i \<Longrightarrow> i < length xs \<and> P (xs ! i)"
  by (induction xs arbitrary: i) (auto split: if_splits)

lemma position_None: "position P xs = None \<longleftrightarrow> (\<forall>x \<in> set xs. \<not> P x)"
  by (induction xs) auto

lemma mset_swap_remove:
  assumes "i < length xs"
  shows "add_mset (xs ! i) (mset (swap_remove i xs)) = mset xs"
proof -
  obtain ys y where xs: "xs = ys @ [y]" using assms by (cases xs rule: rev_cases) auto
  show ?thesis
  proof (cases "i = length ys")
    case False
    then have "i < length ys" using assms xs by simp
    then show ?thesis by (simp add: xs swap_remove_def nth_append mset_update)
  qed (simp add: xs swap_remove_def)
qed

definition without :: "('a \<Rightarrow> string) \<Rightarrow> string set \<Rightarrow> 'a list \<Rightarrow> 'a multiset" where
  "without key ks xs = filter_mset (\<lambda>x. key x \<notin> ks) (mset xs)"

lemma take_in_order_spec:
  assumes "distinct (map key xs)" and "distinct (map variant_key vs)"
    and "take_in_order key absent vs xs = (ordered, rest)"
  shows "ordered = concat (map (\<lambda>v. case find (\<lambda>x. key x = variant_key v) xs of
        Some x \<Rightarrow> [x] | None \<Rightarrow> (case absent (variant_key v) of None \<Rightarrow> [] | Some x \<Rightarrow> [x])) vs) \<and>
    mset rest = without key (variant_key ` set vs) xs"
  using assms
proof (induction vs arbitrary: xs ordered rest)
  case Nil
  then show ?case by (simp add: without_def)
next
  case (Cons v vs)
  show ?case
  proof (cases "position (\<lambda>x. key x = variant_key v) xs")
    case None
    then have none: "\<forall>x \<in> set xs. key x \<noteq> variant_key v" by (simp add: position_None)
    then have "find (\<lambda>x. key x = variant_key v) xs = None" by (simp add: find_None_iff)
    moreover have "without key (variant_key ` set (v # vs)) xs = without key (variant_key ` set vs) xs"
      unfolding without_def using none by (intro filter_mset_cong) auto
    ultimately show ?thesis
      using Cons.IH [OF Cons.prems(1)] Cons.prems(2,3) None by (auto split: prod.splits)
  next
    case (Some i)
    define ys where "ys = swap_remove i xs"
    have i: "i < length xs" "key (xs ! i) = variant_key v" using position_Some [OF Some] by simp_all
    then have m: "mset xs = add_mset (xs ! i) (mset ys)" by (simp add: ys_def mset_swap_remove)
    have "mset (map key xs) = mset (map key ((xs ! i) # ys))" using m by simp
    then have d: "distinct (map key ((xs ! i) # ys))" using Cons.prems(1) mset_eq_imp_distinct_iff by blast
    then have dys: "distinct (map key ys)" and new: "variant_key v \<notin> key ` set ys" using i(2) by auto
    have here: "find (\<lambda>x. key x = variant_key v) xs = Some (xs ! i)"
      using find_unique [OF Cons.prems(1) nth_mem [OF i(1)]] i(2) by simp
    have there: "find (\<lambda>x. key x = variant_key w) ys = find (\<lambda>x. key x = variant_key w) xs"
      if "w \<in> set vs" for w
    proof -
      have w: "variant_key w \<noteq> variant_key v" using Cons.prems(2) that by (metis distinct.simps(2) image_eqI list.simps(9) set_map)
      have find_iff: "find (\<lambda>x. key x = k) zs = Some x \<longleftrightarrow> x \<in> set zs \<and> key x = k" if "distinct (map key zs)" for zs k x
        using that find_unique [OF that, of x] by (auto dest: find_SomeD)
      have xs: "set xs = insert (xs ! i) (set ys)" using arg_cong [OF m, of set_mset] by simp
      have "find (\<lambda>x. key x = variant_key w) ys = Some x \<longleftrightarrow> find (\<lambda>x. key x = variant_key w) xs = Some x" for x
        unfolding find_iff [OF dys] find_iff [OF Cons.prems(1)] xs using w i(2) by auto
      then show ?thesis by (metis not_None_eq)
    qed
    obtain rec rest' where rec: "take_in_order key absent vs ys = (rec, rest')" by fastforce
    have out: "ordered = (xs ! i) # rec" "rest = rest'"
      using Cons.prems(3) Some rec by (simp_all add: ys_def)
    have "without key (variant_key ` set (v # vs)) xs = without key (variant_key ` set vs) ys"
    proof -
      have "\<forall>x \<in> set ys. key x \<noteq> variant_key v" using new by (metis image_eqI)
      then show ?thesis unfolding without_def m using i(2) by (auto intro!: filter_mset_cong)
    qed
    then show ?thesis
      using Cons.IH [OF dys _ rec] Cons.prems(2) there by (simp add: out here cong: map_cong)
  qed
qed

lemma sort_rest:
  assumes "distinct (map key xs)" and "mset rest = without key ks xs"
  shows "sort_key key rest = sort_key key (filter (\<lambda>x. key x \<notin> ks) xs)"
proof -
  have m: "mset rest = mset (filter (\<lambda>x. key x \<notin> ks) xs)" using assms(2) by (simp add: without_def)
  then have "set rest = set (filter (\<lambda>x. key x \<notin> ks) xs)" by (metis set_mset_mset)
  then have "inj_on key (set rest)" using assms(1) by (auto simp: distinct_map inj_on_def)
  then show ?thesis using m by (intro sort_key_inj_key_eq) simp_all
qed

text \<open>
  Results list every arm once: the flag's variants in their order, each with its counters
  or with zeros when it has none, followed by the counters of variants the flag no longer
  defines, sorted by variant. Nothing is lost to the in-place removal the code uses.
\<close>

theorem in_flag_order_lists_every_arm:
  assumes "distinct (map vc_variant counts)" and "distinct (map variant_key (exp_variants x))"
  shows "in_flag_order x counts =
    map (\<lambda>v. case find (\<lambda>c. vc_variant c = variant_key v) counts of
          Some c \<Rightarrow> c | None \<Rightarrow> \<lparr>vc_variant = variant_key v, vc_exposures = 0, vc_conversions = 0\<rparr>)
      (exp_variants x) @
    sort_key vc_variant (filter (\<lambda>c. vc_variant c \<notin> variant_key ` set (exp_variants x)) counts)"
proof -
  obtain ordered rest where run:
    "take_in_order vc_variant (\<lambda>v. Some \<lparr>vc_variant = v, vc_exposures = 0, vc_conversions = 0\<rparr>)
       (exp_variants x) counts = (ordered, rest)" by fastforce
  note spec = take_in_order_spec [OF assms run]
  have "concat (map (\<lambda>v. case f v of Some c \<Rightarrow> [c] | None \<Rightarrow> [g v]) vs) =
      map (\<lambda>v. case f v of Some c \<Rightarrow> c | None \<Rightarrow> g v) vs" for f g and vs :: "variant list"
    by (induction vs) (auto split: option.splits)
  then show ?thesis
    using spec by (simp add: in_flag_order_def run sort_rest [OF assms(1)] cong: option.case_cong)
qed

theorem in_flag_order_lists_every_arm_witness:
  "\<exists>x. map vc_variant (in_flag_order x [\<lparr>vc_variant = ''legacy'', vc_exposures = 7, vc_conversions = 0\<rparr>,
       \<lparr>vc_variant = ''on'', vc_exposures = 3, vc_conversions = 1\<rparr>]) = [''on'', ''off'', ''legacy'']"
proof -
  let ?cs = "[\<lparr>vc_variant = ''legacy'', vc_exposures = 7 :: u64, vc_conversions = 0 :: u64\<rparr>,
       \<lparr>vc_variant = ''on'', vc_exposures = 3, vc_conversions = 1\<rparr>]"
  obtain x :: experiment_view where x: "exp_variants x = flag_variants (flag_boolean ''f'')"
    by (metis experiment_view.select_convs(3))
  have "distinct (map vc_variant ?cs)" "distinct (map variant_key (exp_variants x))"
    by (simp_all add: x flag_boolean_def)
  from in_flag_order_lists_every_arm [OF this] show ?thesis
    by (intro exI [of _ x]) (simp add: x flag_boolean_def)
qed

end
