(* ===== verification/Api_Evaluate.thy ===== *)
theory Api_Evaluate
  imports Api_State
begin

text \<open>
  \<^verbatim>\<open>crates/api/src/routes/evaluate.rs\<close> and \<^verbatim>\<open>events.rs\<close>: the routes an SDK calls, with the extractor
  that authenticates it. The task that writes down the usage of a key is run where it is
  spawned; its only effect is the time of the last use.
\<close>

section \<open>Decisions\<close>

definition MAX_REQUESTED_FLAGS :: nat where
  "MAX_REQUESTED_FLAGS = 1000"

definition MAX_CONTEXT_ATTRIBUTES :: nat where
  "MAX_CONTEXT_ATTRIBUTES = 100"

definition check_context :: "evaluation_context \<Rightarrow> api_error + unit" where
  "check_context ctx =
     (if ctx_key ctx = []
      then Inl (BadRequest ''context.key is required; it is what percentage rollouts bucket on'')
      else if MAX_CONTEXT_ATTRIBUTES < length (ctx_attributes ctx)
      then Inl (BadRequest (''a context may carry at most '' @ show_nat MAX_CONTEXT_ATTRIBUTES @ '' attributes''))
      else Inr ())"

text \<open>The label each decision is counted under, and the flags whose decision is logged as degraded.\<close>

fun reason_label :: "reason \<Rightarrow> string" where
  "reason_label Off = ''off''"
| "reason_label (TargetMatch _ _) = ''target_match''"
| "reason_label Fallthrough = ''fallthrough''"
| "reason_label FlagNotFound = ''flag_not_found''"
| "reason_label (Error _) = ''error''"

record evaluation_metrics =
  em_evaluations_total :: "string list"
  em_degraded :: "string list"

definition record_metrics :: "evaluation list \<Rightarrow> evaluation_metrics" where
  "record_metrics evaluations =
     \<lparr>em_evaluations_total = map (reason_label \<circ> ev_reason) evaluations,
      em_degraded = map ev_flag_key (filter (\<lambda>e. \<not> is_healthy (ev_reason e)) evaluations)\<rparr>"

record evaluate_request =
  eq_context :: evaluation_context
  eq_flags :: "string list option"

record evaluate_response =
  es_environment :: string
  es_version :: int
  es_evaluations :: "evaluation list"

definition routes_evaluate_all ::
  "('re, 'ver) services \<Rightarrow> request \<Rightarrow> key_identity \<Rightarrow> evaluate_request \<Rightarrow>
     (evaluate_response \<times> evaluation_metrics) handler" where
  "routes_evaluate_all S rq identity body =
     h_bind (h_check (check_context (eq_context body))) (\<lambda>_.
     h_bind (h_check (case eq_flags body of
         None \<Rightarrow> Inr ()
       | Some requested \<Rightarrow>
           if MAX_REQUESTED_FLAGS < length requested
           then Inl (BadRequest (''at most '' @ show_nat MAX_REQUESTED_FLAGS @ '' flags can be requested at once''))
           else Inr ())) (\<lambda>_.
     h_bind (h_cache_get (rq_clock rq 0) (ki_environment_id identity)) (\<lambda>snap.
     let evaluations =
       (case eq_flags body of
          None \<Rightarrow> snapshot_evaluate_all (sv_ext S) snap (eq_context body)
        | Some requested \<Rightarrow>
            map (\<lambda>key. snapshot_evaluate (sv_ext S) snap key (eq_context body) variant_null) requested) in
     h_return
       (\<lparr>es_environment = snap_environment_key snap, es_version = snap_version snap, es_evaluations = evaluations\<rparr>,
        record_metrics evaluations))))"

record evaluate_one_request =
  eo_context :: evaluation_context
  eo_default :: "variant_value option"

definition routes_evaluate_one ::
  "('re, 'ver) services \<Rightarrow> request \<Rightarrow> key_identity \<Rightarrow> string \<Rightarrow> evaluate_one_request \<Rightarrow>
     (evaluation \<times> evaluation_metrics) handler" where
  "routes_evaluate_one S rq identity fkey body =
     h_bind (h_check (check_context (eo_context body))) (\<lambda>_.
     h_bind (h_cache_get (rq_clock rq 0) (ki_environment_id identity)) (\<lambda>snap.
     let fallback = unwrap_or (eo_default body) variant_null;
         evaluation = snapshot_evaluate (sv_ext S) snap fkey (eo_context body) fallback in
     h_return (evaluation, record_metrics [evaluation])))"

section \<open>The configuration an SDK downloads\<close>

record snapshot_response =
  sr_environment_id :: uuid
  sr_environment_key :: string
  sr_salt :: string
  sr_flags :: "(string, flag) btree"
  sr_segments :: segment_set
  sr_experiments :: "experiment_spec list"
  sr_version :: int
  sr_generated_at :: int

definition routes_snapshot :: "request \<Rightarrow> key_identity \<Rightarrow> snapshot_response handler" where
  "routes_snapshot rq identity =
     h_bind (h_check (if ki_scope identity = Client
       then Inl (Forbidden ''client-scoped keys can evaluate but cannot download targeting rules'')
       else Inr ())) (\<lambda>_.
     h_bind (h_cache_get (rq_clock rq 0) (ki_environment_id identity)) (\<lambda>snap.
     h_return
       \<lparr>sr_environment_id = snap_environment_id snap, sr_environment_key = snap_environment_key snap,
        sr_salt = snap_salt snap, sr_flags = snap_flags snap, sr_segments = snap_segments snap,
        sr_experiments = snap_experiments snap, sr_version = snap_version snap,
        sr_generated_at = snap_generated_at snap\<rparr>))"

section \<open>Events\<close>

definition MAX_EVENTS :: nat where
  "MAX_EVENTS = 1000"

record event_delta =
  ed_experiment_key :: string
  ed_variant :: string
  ed_kind :: counter_kind
  ed_count :: u32
  ed_at :: "int option"

record events_response =
  evr_accepted :: nat
  evr_received :: nat

text \<open>The loop that turns events into counter deltas and stops at the first bad variant.\<close>

fun deltas_of :: "int \<Rightarrow> event_delta list \<Rightarrow> api_error + counter_delta list" where
  "deltas_of now [] = Inr []"
| "deltas_of now (event # events) =
     (if ed_variant event = [] \<or> 128 < length (ed_variant event)
      then Inl (BadRequest ''variant must be between 1 and 128 characters'')
      else and_then (deltas_of now events) (\<lambda>deltas.
        Inr (\<lparr>cd_experiment_key = ed_experiment_key event, cd_variant = ed_variant event,
              cd_kind = ed_kind event, cd_at = unwrap_or (ed_at event) now, cd_count = ed_count event\<rparr> # deltas)))"

definition ingest ::
  "('re, 'ver) services \<Rightarrow> request \<Rightarrow> key_identity \<Rightarrow> event_delta list \<Rightarrow> events_response handler" where
  "ingest S rq identity events =
     h_bind (h_check (if MAX_EVENTS < length events
       then Inl (BadRequest (''at most '' @ show_nat MAX_EVENTS @
              '' events per batch; aggregate client-side and flush more often''))
       else Inr ())) (\<lambda>_.
     h_bind (h_check (deltas_of (rq_clock rq 0) events)) (\<lambda>deltas.
     h_bind (h_write (ingest_counters (sv_trunc_hour S) (ki_environment_id identity) deltas)) (\<lambda>accepted.
     h_return \<lparr>evr_accepted = accepted, evr_received = length events\<rparr>)))"

section \<open>Authenticating an SDK\<close>

definition h_sdk_identity :: "('re, 'ver) services \<Rightarrow> request \<Rightarrow> key_identity handler" where
  "h_sdk_identity S rq s =
     (case sdk_identity_from (sv_ext S) (rq_instant rq) (rq_headers rq) (app_db s) (app_usage s) of
        (Inl e, usage) \<Rightarrow> (Inl e, s\<lparr>app_usage := usage\<rparr>)
      | (Inr (identity, record_use), usage) \<Rightarrow>
          (Inr identity,
           s\<lparr>app_usage := usage,
             app_db := (if record_use then touch_api_key (rq_clock rq 0) (ki_api_key_id identity) (app_db s)
                        else app_db s)\<rparr>))"

lemmas evaluate_routes_defs [model_defs] =
  MAX_REQUESTED_FLAGS_def MAX_CONTEXT_ATTRIBUTES_def check_context_def record_metrics_def
  routes_evaluate_all_def routes_evaluate_one_def routes_snapshot_def MAX_EVENTS_def ingest_def
  h_sdk_identity_def

lemma holds_sdk_identity [wp]:
  "holds (h_sdk_identity S rq) Q E s \<longleftrightarrow>
     (\<forall>e usage. sdk_identity_from (sv_ext S) (rq_instant rq) (rq_headers rq) (app_db s) (app_usage s) = (Inl e, usage) \<longrightarrow>
        E e (s\<lparr>app_usage := usage\<rparr>)) \<and>
     (\<forall>identity rec usage. sdk_identity_from (sv_ext S) (rq_instant rq) (rq_headers rq) (app_db s) (app_usage s) =
          (Inr (identity, rec), usage) \<longrightarrow>
        Q identity (s\<lparr>app_usage := usage, app_db := (if rec then touch_api_key (rq_clock rq 0) (ki_api_key_id identity) (app_db s)
                        else app_db s)\<rparr>))"
  by (auto simp: holds_def h_sdk_identity_def split: prod.splits sum.splits)

section \<open>Lemmas\<close>

lemma cache_get_cached:
  "cached c eid = Some snap \<Longrightarrow> cache_get r eid c = (Inr snap, c)"
  by (auto simp: cached_def cache_get_def slot_def split: option.splits)

lemma cache_get_caches:
  "cache_get r eid c = (Inr snap, c') \<Longrightarrow> cached c' eid = Some snap"
  by (auto simp: cache_get_cases split: option.splits sum.splits)

text \<open>A batch is turned into deltas, one for each event, exactly when its variants have a legal length.\<close>

lemma deltas_of_Inr:
  "deltas_of now events = Inr deltas \<longleftrightarrow>
     (\<forall>e \<in> set events. ed_variant e \<noteq> [] \<and> length (ed_variant e) \<le> 128) \<and>
     deltas = map (\<lambda>e. \<lparr>cd_experiment_key = ed_experiment_key e, cd_variant = ed_variant e, cd_kind = ed_kind e,
       cd_at = unwrap_or (ed_at e) now, cd_count = ed_count e\<rparr>) events"
  by (induction events arbitrary: deltas) (auto simp: and_then_Inr)

end
