(* ===== verification/Api_Router.thy ===== *)
theory Api_Router
  imports Api_Accounts Api_Projects Api_Flags Api_Experiments Api_Evaluate
begin

text \<open>
  \<^verbatim>\<open>crates/api/src/routes/mod.rs\<close>: which handler answers which route, behind which middleware. A
  route is a value with its path parameters, its query and its decoded body; the result of a
  request is the status of its response.
\<close>

section \<open>Health\<close>

record health =
  he_status :: string
  he_version :: string

definition live :: "string \<Rightarrow> health" where
  "live version = \<lparr>he_status = ''ok'', he_version = version\<rparr>"

record readiness =
  rd_status :: string
  rd_database :: string
  rd_cached_environments :: nat

definition ready :: "bool \<Rightarrow> app \<Rightarrow> nat \<times> readiness" where
  "ready database_ok s =
     (if database_ok then 200 else 503,
      \<lparr>rd_status = (if database_ok then ''ready'' else ''degraded''),
       rd_database = (if database_ok then ''up'' else ''down''),
       rd_cached_environments = cache_len (app_cache s)\<rparr>)"

section \<open>Routes\<close>

datatype management_route =
    Me
  | ListProjects
  | CreateProject create_project_body
  | GetProject string
  | DeleteProject string
  | ListEnvironments string
  | CreateEnvironment string create_environment_body
  | DeleteEnvironment string string
  | ListFlags string bool
  | CreateFlag string create_flag_body
  | GetFlag string string
  | UpdateFlag string string update_flag_body
  | DeleteFlag string string
  | ListConfigured string string bool
  | GetConfig string string string
  | UpdateConfig string string string update_config_body
  | ListSegments string string
  | CreateSegment string string create_segment_body
  | GetSegment string string string
  | UpdateSegment string string string update_segment_body
  | DeleteSegment string string string
  | ListExperiments string string
  | CreateExperiment string string create_experiment_body
  | GetExperiment string string string
  | UpdateExperiment string string string update_experiment_body
  | DeleteExperiment string string string
  | StartExperiment string string string
  | StopExperiment string string string
  | ResultsOfExperiment string string string
  | ListKeys string string
  | CreateKey string string create_key_body
  | RevokeKey string string uuid
  | ListAudit audit_query

datatype sdk_route =
    EvaluateAll evaluate_request
  | EvaluateOne string evaluate_one_request
  | DownloadSnapshot
  | SendEvents "event_delta list"

datatype public_route = Register register_request | Login login_request

text \<open>The operational routes carry what they depend on outside the model: the answer of the
  database to a ping, and the token that protects the metrics.\<close>

datatype operational_route = Live | Ready bool | Metrics "string option"

datatype route = Operational operational_route | Public public_route | Management management_route | Sdk sdk_route

section \<open>Dispatch\<close>

definition respond :: "nat \<Rightarrow> 'a handler \<Rightarrow> nat handler" where
  "respond code m = h_bind m (\<lambda>_. h_return code)"

fun management ::
  "('re, 'ver) services \<Rightarrow> request \<Rightarrow> auth_user \<Rightarrow> management_route \<Rightarrow> nat handler" where
  "management S rq u Me = respond 200 (me u)"
| "management S rq u ListProjects = respond 200 (projects_list u)"
| "management S rq u (CreateProject b) = respond 201 (projects_create S rq u b)"
| "management S rq u (GetProject p) = respond 200 (projects_get u p)"
| "management S rq u (DeleteProject p) = respond 204 (projects_delete rq u p)"
| "management S rq u (ListEnvironments p) = respond 200 (projects_list_environments u p)"
| "management S rq u (CreateEnvironment p b) = respond 201 (projects_create_environment S rq u p b)"
| "management S rq u (DeleteEnvironment p e) = respond 204 (projects_delete_environment rq u p e)"
| "management S rq u (ListFlags p a) = respond 200 (flags_list u p a)"
| "management S rq u (CreateFlag p b) = respond 201 (flags_create S rq u p b)"
| "management S rq u (GetFlag p f) = respond 200 (flags_get u p f)"
| "management S rq u (UpdateFlag p f b) = respond 200 (flags_update S rq u p f b)"
| "management S rq u (DeleteFlag p f) = respond 204 (flags_delete rq u p f)"
| "management S rq u (ListConfigured p e a) = respond 200 (flags_list_configured u p e a)"
| "management S rq u (GetConfig p e f) = respond 200 (flags_get_config u p e f)"
| "management S rq u (UpdateConfig p e f b) = respond 200 (flags_update_config S rq u p e f b)"
| "management S rq u (ListSegments p e) = respond 200 (segments_list u p e)"
| "management S rq u (CreateSegment p e b) = respond 201 (segments_create S rq u p e b)"
| "management S rq u (GetSegment p e k) = respond 200 (segments_get u p e k)"
| "management S rq u (UpdateSegment p e k b) = respond 200 (segments_update S rq u p e k b)"
| "management S rq u (DeleteSegment p e k) = respond 204 (segments_delete S rq u p e k)"
| "management S rq u (ListExperiments p e) = respond 200 (experiments_list u p e)"
| "management S rq u (CreateExperiment p e b) = respond 201 (experiments_create S rq u p e b)"
| "management S rq u (GetExperiment p e k) = respond 200 (experiments_get u p e k)"
| "management S rq u (UpdateExperiment p e k b) = respond 200 (experiments_update S rq u p e k b)"
| "management S rq u (DeleteExperiment p e k) = respond 204 (experiments_delete S rq u p e k)"
| "management S rq u (StartExperiment p e k) = respond 200 (experiments_start S rq u p e k)"
| "management S rq u (StopExperiment p e k) = respond 200 (experiments_stop S rq u p e k)"
| "management S rq u (ResultsOfExperiment p e k) = respond 200 (experiments_results rq u p e k)"
| "management S rq u (ListKeys p e) = respond 200 (keys_list u p e)"
| "management S rq u (CreateKey p e b) = respond 201 (keys_create S rq u p e b)"
| "management S rq u (RevokeKey p e k) = respond 204 (keys_revoke S rq u p e k)"
| "management S rq u (ListAudit q) = respond 200 (audit_routes_list u q)"

fun sdk :: "('re, 'ver) services \<Rightarrow> request \<Rightarrow> key_identity \<Rightarrow> sdk_route \<Rightarrow> nat handler" where
  "sdk S rq i (EvaluateAll b) = respond 200 (routes_evaluate_all S rq i b)"
| "sdk S rq i (EvaluateOne f b) = respond 200 (routes_evaluate_one S rq i f b)"
| "sdk S rq i DownloadSnapshot = respond 200 (routes_snapshot rq i)"
| "sdk S rq i (SendEvents es) = respond 202 (ingest S rq i es)"

fun public :: "('re, 'ver) services \<Rightarrow> request \<Rightarrow> public_route \<Rightarrow> nat handler" where
  "public S rq (Register b) = respond 201 (register S rq b)"
| "public S rq (Login b) = respond 200 (login S rq b)"

fun operational :: "request \<Rightarrow> operational_route \<Rightarrow> app \<Rightarrow> nat" where
  "operational rq Live s = 200"
| "operational rq (Ready database_ok) s = fst (ready database_ok s)"
| "operational rq (Metrics token) s =
     (if metrics_allowed token (rq_headers rq) then 200
      else er_status (into_response (ApiUnauthorized ''a metrics token is required'')))"

text \<open>The routes behind the rate limiter.\<close>

fun limited :: "('re, 'ver) services \<Rightarrow> request \<Rightarrow> route \<Rightarrow> nat handler" where
  "limited S rq (Operational r) = (\<lambda>s. (Inr (operational rq r s), s))"
| "limited S rq (Public r) = public S rq r"
| "limited S rq (Management r) =
     h_bind (h_check (auth_user_from (sv_crypto S) (rq_clock rq 0 div 1000000) (sv_tokens S) (rq_headers rq)))
       (\<lambda>caller. management S rq caller r)"
| "limited S rq (Sdk r) = h_bind (h_sdk_identity S rq) (\<lambda>identity. sdk S rq identity r)"

text \<open>
  Operational routes are outside the rate limiter. Any other request passes it before its
  handler; an error becomes the status of its response.
\<close>

definition router ::
  "('re, 'ver) services \<Rightarrow> request \<Rightarrow> real \<Rightarrow> route \<Rightarrow> rate_limiter \<times> app \<Rightarrow> nat \<times> rate_limiter \<times> app" where
  "router S rq now r ls =
     (case (r, ls) of
        (Operational o', l, s) \<Rightarrow> (operational rq o' s, l, s)
      | (_, l, s) \<Rightarrow>
          (case enforce (sv_ext S) (rq_headers rq) now l of
             (Inl retry_after, l') \<Rightarrow> (er_status (into_response (RateLimited (of_nat retry_after))), l', s)
           | (Inr _, l') \<Rightarrow>
               (case limited S rq r s of
                  (Inl e, s') \<Rightarrow> (er_status (into_response e), l', s')
                | (Inr code, s') \<Rightarrow> (code, l', s'))))"

end
