(* ===== verification/Api_Logic.thy ===== *)
theory Api_Logic
  imports Api_Router
begin

text \<open>
  The interface between the management routes and storage. The locale fixes a caller and a
  relation on databases and assumes of each storage operation, in the situations in which a
  route calls it, that it stays within the relation. Every management request then makes at most
  one such write, and if it succeeds, follows it by an audit entry in the caller's name.
\<close>

section \<open>Audit entries\<close>

lemma audit_entry_fields [simp]:
  "na_organization_id (new_audit_entry_new g a act ty i) = g"
  "na_organization_id (in_environment e eid) = na_organization_id e"
  "na_organization_id (changing js e b c) = na_organization_id e"
  "na_actor_user_id (new_audit_entry_new g a act ty i) = fst a"
  "na_actor_user_id (in_environment e eid) = na_actor_user_id e"
  "na_actor_user_id (changing js e b c) = na_actor_user_id e"
  "na_actor_email (new_audit_entry_new g a act ty i) = snd a"
  "na_actor_email (in_environment e eid) = na_actor_email e"
  "na_actor_email (changing js e b c) = na_actor_email e"
  by (simp_all add: new_audit_entry_new_def in_environment_def changing_def)

section \<open>The interface\<close>

text \<open>The flag a route checks: the submitted configuration, enabled, under the flag's key.\<close>

abbreviation candidate :: "string \<Rightarrow> variant list \<Rightarrow> string \<Rightarrow> distribution \<Rightarrow> rule list \<Rightarrow> flag" where
  "candidate key vs off ft rs \<equiv> \<lparr>flag_key = key, flag_variants = vs, flag_enabled = True, flag_off_variant = off,
     flag_fallthrough = ft, flag_rules = rs, flag_version = 0\<rparr>"

lemma validate_evaluable_Inr:
  "validate_evaluable X key vs off ft rs = Inr c \<longleftrightarrow>
     validate X (candidate key vs off ft rs) = Inr () \<and> c = candidate key vs off ft rs"
  by (auto simp: validate_evaluable_def Let_def and_then_Inr)

lemma require_Inr [simp]:
  "require_write u = Inr x \<longleftrightarrow> can_write (caller_role u)"
  "require_admin u = Inr x \<longleftrightarrow> can_administer (caller_role u)"
  by (simp_all add: require_write_def require_admin_def)

definition revalidated :: "('re, 'ver) externals \<Rightarrow> flag_row \<Rightarrow> environment list \<Rightarrow> variant list \<Rightarrow> db \<Rightarrow> bool" where
  "revalidated X f es vs d =
     (\<forall>e \<in> set es. \<exists>c. find_config (fl_id f) (en_id e) d = Inr c \<and>
        validate X (candidate (fl_key f) vs (fc_off_variant c) (fc_fallthrough c) (fc_rules c)) = Inr ())"

lemma holds_revalidate:
  "(\<And>err. E err s) \<Longrightarrow> (revalidated X f es vs (app_db s) \<Longrightarrow> Q () s) \<Longrightarrow> holds (revalidate X f vs es) Q E s"
  by (induction es) (auto simp: wp validate_evaluable_Inr revalidated_def)

text \<open>Which routes change configuration, and which of those only an owner or an admin may take.\<close>

fun changes :: "management_route \<Rightarrow> bool" where
  "changes Me = False"
| "changes ListProjects = False"
| "changes (GetProject _) = False"
| "changes (ListEnvironments _) = False"
| "changes (ListFlags _ _) = False"
| "changes (GetFlag _ _) = False"
| "changes (ListConfigured _ _ _) = False"
| "changes (GetConfig _ _ _) = False"
| "changes (ListSegments _ _) = False"
| "changes (GetSegment _ _ _) = False"
| "changes (ListExperiments _ _) = False"
| "changes (GetExperiment _ _ _) = False"
| "changes (ResultsOfExperiment _ _ _) = False"
| "changes (ListKeys _ _) = False"
| "changes (ListAudit _) = False"
| "changes _ = True"

fun administers :: "management_route \<Rightarrow> bool" where
  "administers (DeleteProject _) = True"
| "administers (DeleteEnvironment _ _) = True"
| "administers (DeleteFlag _ _) = True"
| "administers (ListKeys _ _) = True"
| "administers (CreateKey _ _ _) = True"
| "administers (RevokeKey _ _ _) = True"
| "administers (ListAudit _) = True"
| "administers _ = False"

definition audited_by :: "auth_user \<Rightarrow> db \<Rightarrow> db \<Rightarrow> bool" where
  "audited_by u d d' =
     (\<exists>now entry n. na_organization_id entry = caller_org u \<and> na_actor_user_id entry = Some (caller_user_id u) \<and>
        na_actor_email entry = caller_email u \<and> audit_record now entry d = Inr (n, d'))"

definition outcome :: "auth_user \<Rightarrow> (db \<Rightarrow> db \<Rightarrow> bool) \<Rightarrow> bool \<Rightarrow> 'a handler \<Rightarrow> bool" where
  "outcome u R ch m =
     (\<forall>s. holds m (\<lambda>_ s'. if ch then \<exists>d. R (app_db s) d \<and> audited_by u d (app_db s') else app_db s' = app_db s)
            (\<lambda>_ s'. if ch then R (app_db s) (app_db s') else app_db s' = app_db s) s)"

lemma outcome_holds:
  "(\<And>s. holds m (\<lambda>_ s'. if ch then \<exists>d. R (app_db s) d \<and> audited_by u d (app_db s') else app_db s' = app_db s)
      (\<lambda>_ s'. if ch then R (app_db s) (app_db s') else app_db s' = app_db s) s) \<Longrightarrow> outcome u R ch m"
  by (simp add: outcome_def)

lemma outcome_respond: "outcome u R ch m \<Longrightarrow> outcome u R ch (respond code m)"
  unfolding outcome_def respond_def holds_bind holds_return .

locale management_writes =
  fixes S :: "('re, 'ver) services" and u :: auth_user and R :: "db \<Rightarrow> db \<Rightarrow> bool"
  assumes refl: "R d d"
    and create_project: "can_write (caller_role u) \<Longrightarrow> create_project i now (caller_org u) key name desc d = Inr (p, d') \<Longrightarrow> R d d'"
    and delete_project: "can_administer (caller_role u) \<Longrightarrow> delete_project (caller_org u) key d = Inr d' \<Longrightarrow> R d d'"
    and create_environment: "can_write (caller_role u) \<Longrightarrow> find_project (caller_org u) pk d = Inr p \<Longrightarrow>
      create_environment i now (prj_id p) key name salt production d = Inr (e, d') \<Longrightarrow> R d d'"
    and delete_environment: "can_administer (caller_role u) \<Longrightarrow> find_project (caller_org u) pk d = Inr p \<Longrightarrow>
      delete_environment (prj_id p) ek d = Inr d' \<Longrightarrow> R d d'"
    and create_api_key: "can_administer (caller_role u) \<Longrightarrow> find_project (caller_org u) pk d = Inr p \<Longrightarrow>
      find_environment (prj_id p) ek d = Inr e \<Longrightarrow>
      create_api_key i now (en_id e) name hash display scope d = Inr (k, d') \<Longrightarrow> R d d'"
    and revoke_api_key: "can_administer (caller_role u) \<Longrightarrow> find_project (caller_org u) pk d = Inr p \<Longrightarrow>
      find_environment (prj_id p) ek d = Inr e \<Longrightarrow> revoke_api_key now (en_id e) kid d = Inr d' \<Longrightarrow> R d d'"
    and create_flag: "can_write (caller_role u) \<Longrightarrow> find_project (caller_org u) pk d = Inr p \<Longrightarrow>
      validate (sv_ext S) (candidate key vs off ft []) = Inr () \<Longrightarrow>
      create_flag i now (prj_id p) key name desc vs off ft d = Inr (f, d') \<Longrightarrow> R d d'"
    and update_flag: "can_write (caller_role u) \<Longrightarrow> find_project (caller_org u) pk d = Inr p \<Longrightarrow>
      find_flag (prj_id p) fk d = Inr f \<Longrightarrow> (\<forall>vs. variants = Some vs \<longrightarrow> revalidated (sv_ext S) f (list_environments (prj_id p) d) vs d) \<Longrightarrow>
      update_flag (sv_ext S) now (fl_id f) name' desc' variants arch d = Inr (f', d') \<Longrightarrow> R d d'"
    and delete_flag: "can_administer (caller_role u) \<Longrightarrow> find_project (caller_org u) pk d = Inr p \<Longrightarrow>
      delete_flag (prj_id p) fk d = Inr d' \<Longrightarrow> R d d'"
    and upsert_config: "can_write (caller_role u) \<Longrightarrow> find_project (caller_org u) pk d = Inr p \<Longrightarrow>
      find_environment (prj_id p) ek d = Inr e \<Longrightarrow> find_flag (prj_id p) fk d = Inr f \<Longrightarrow>
      validate (sv_ext S) (candidate (fl_key f) (fl_variants f) off ft rs) = Inr () \<Longrightarrow>
      validate_references (candidate (fl_key f) (fl_variants f) off ft rs) (set (segment_keys (en_id e) d)) = Inr () \<Longrightarrow>
      upsert_config (sv_ext S) now (fl_id f) (en_id e) en off ft rs expected d = Inr (c, d') \<Longrightarrow> R d d'"
    and create_segment: "can_write (caller_role u) \<Longrightarrow> find_project (caller_org u) pk d = Inr p \<Longrightarrow>
      find_environment (prj_id p) ek d = Inr e \<Longrightarrow>
      create_segment i now (en_id e) key name desc d = Inr (sg, d') \<Longrightarrow> R d d'"
    and update_segment: "can_write (caller_role u) \<Longrightarrow> find_project (caller_org u) pk d = Inr p \<Longrightarrow>
      find_environment (prj_id p) ek d = Inr e \<Longrightarrow> find_segment (en_id e) sk d = Inr sg \<Longrightarrow>
      validate_decidable (sv_ext S) sg b = Inr () \<Longrightarrow>
      update_segment now (en_id e) sk (us_changes b) (us_expected_version b) d = Inr (sg', d') \<Longrightarrow> R d d'"
    and delete_segment: "can_write (caller_role u) \<Longrightarrow> find_project (caller_org u) pk d = Inr p \<Longrightarrow>
      find_environment (prj_id p) ek d = Inr e \<Longrightarrow> delete_segment (en_id e) sk d = Inr d' \<Longrightarrow> R d d'"
    and create_experiment: "can_write (caller_role u) \<Longrightarrow> find_project (caller_org u) pk d = Inr p \<Longrightarrow>
      find_environment (prj_id p) ek d = Inr e \<Longrightarrow> find_flag (prj_id p) fk d = Inr f \<Longrightarrow>
      create_experiment i now (en_id e) (fl_id f) key name desc metric control d = (x, d') \<Longrightarrow> R d d'"
    and update_experiment: "can_write (caller_role u) \<Longrightarrow> find_project (caller_org u) pk d = Inr p \<Longrightarrow>
      find_environment (prj_id p) ek d = Inr e \<Longrightarrow> update_experiment now (en_id e) xk name' desc' d = (x, d') \<Longrightarrow> R d d'"
    and start_experiment: "can_write (caller_role u) \<Longrightarrow> find_project (caller_org u) pk d = Inr p \<Longrightarrow>
      find_environment (prj_id p) ek d = Inr e \<Longrightarrow> start_experiment now (en_id e) xk d = (x, d') \<Longrightarrow> R d d'"
    and stop_experiment: "can_write (caller_role u) \<Longrightarrow> find_project (caller_org u) pk d = Inr p \<Longrightarrow>
      find_environment (prj_id p) ek d = Inr e \<Longrightarrow> stop_experiment now (en_id e) xk d = (x, d') \<Longrightarrow> R d d'"
    and delete_experiment: "can_write (caller_role u) \<Longrightarrow> find_project (caller_org u) pk d = Inr p \<Longrightarrow>
      find_environment (prj_id p) ek d = Inr e \<Longrightarrow> delete_experiment (en_id e) xk d = Inr d' \<Longrightarrow> R d d'"
begin

text \<open>A write and its audit entry.\<close>

lemma audited:
  "audit_record now entry d' = Inr (n, d'') \<Longrightarrow> na_organization_id entry = caller_org u \<Longrightarrow>
     na_actor_user_id entry = Some (caller_user_id u) \<Longrightarrow> na_actor_email entry = caller_email u \<Longrightarrow> R d d' \<Longrightarrow>
     \<exists>d'. R d d' \<and> audited_by u d' d''"
  by (auto simp: audited_by_def)

lemmas inside = refl audited
lemmas handlers = wp validate_evaluable_Inr actor_def

lemma project_routes:
  "outcome u R True (projects_create S rq u pb)" "outcome u R False (projects_list u)" "outcome u R False (projects_get u p)"
  "outcome u R True (projects_delete rq u p)" "outcome u R True (projects_create_environment S rq u p eb)"
  "outcome u R False (projects_list_environments u p)" "outcome u R True (projects_delete_environment rq u p e)"
  by (rule outcome_holds, auto simp: handlers projects_defs intro: inside create_project delete_project create_environment
      delete_environment)+

lemma key_routes:
  "outcome u R True (keys_create S rq u p e kb)" "outcome u R False (keys_list u p e)" "outcome u R True (keys_revoke S rq u p e k)"
  "outcome u R False (audit_routes_list u q)"
  by (rule outcome_holds, auto simp: handlers projects_defs Let_def intro: inside create_api_key revoke_api_key)+

lemma flag_routes:
  "outcome u R True (flags_create S rq u p fb)" "outcome u R False (flags_list u p a)" "outcome u R False (flags_get u p f)"
  "outcome u R True (flags_delete rq u p f)"
  by (rule outcome_holds, auto simp: handlers flags_create_def flags_list_def flags_get_def flags_delete_def Let_def
      intro: inside create_flag delete_flag)+

lemma update_flag_cases:
  "can_write (caller_role u) \<Longrightarrow> find_project (caller_org u) pk d = Inr p \<Longrightarrow> find_flag (prj_id p) fk d = Inr f \<Longrightarrow>
     revalidated (sv_ext S) f (list_environments (prj_id p) d) vs d \<Longrightarrow>
     update_flag (sv_ext S) now (fl_id f) name' desc' (Some vs) arch d = Inr (f', d') \<Longrightarrow> R d d'"
  "can_write (caller_role u) \<Longrightarrow> find_project (caller_org u) pk d = Inr p \<Longrightarrow> find_flag (prj_id p) fk d = Inr f \<Longrightarrow>
     update_flag (sv_ext S) now (fl_id f) name' desc' None arch d = Inr (f', d') \<Longrightarrow> R d d'"
  by (rule update_flag; simp)+

lemma flags_update: "outcome u R True (flags_update S rq u p f ub)"
  by (rule outcome_holds)
     (auto simp: handlers flags_update_def refl split: option.split intro!: holds_revalidate,
      (auto intro: inside update_flag_cases)+)

lemma config_routes:
  "outcome u R False (flags_get_config u p e f)" "outcome u R False (flags_list_configured u p e a)"
  "outcome u R True (flags_update_config S rq u p e f b)"
  by (rule outcome_holds, auto simp: handlers flags_get_config_def flags_list_configured_def flags_update_config_def
      intro: inside upsert_config)+

lemma segment_routes:
  "outcome u R True (segments_create S rq u p e sb)" "outcome u R False (segments_list u p e)" "outcome u R False (segments_get u p e k)"
  "outcome u R True (segments_update S rq u p e k ub)" "outcome u R True (segments_delete S rq u p e k)"
  by (rule outcome_holds, auto simp: handlers segments_create_def segments_list_def segments_get_def segments_update_def
      segments_delete_def intro: inside create_segment update_segment delete_segment)+

lemma experiment_routes:
  "outcome u R True (experiments_create S rq u p e xb)" "outcome u R False (experiments_list u p e)" "outcome u R False (experiments_get u p e k)"
  "outcome u R True (experiments_update S rq u p e k yb)" "outcome u R True (experiments_start S rq u p e k)"
  "outcome u R True (experiments_stop S rq u p e k)" "outcome u R True (experiments_delete S rq u p e k)"
  "outcome u R False (experiments_results rq u p e k)"
  by (rule outcome_holds, auto simp: handlers experiments_defs Let_def
      intro: inside create_experiment update_experiment start_experiment stop_experiment delete_experiment)+

lemma me_route: "outcome u R False (me u)"
  by (rule outcome_holds) (simp add: handlers me_def)

lemmas routes = project_routes key_routes flag_routes flags_update config_routes segment_routes experiment_routes me_route

lemma management_outcome: "outcome u R (changes r) (management S rq u r)"
  by (cases r) (simp_all add: outcome_respond routes)

end

end
