(* ===== verification/Api_System.thy ===== *)
theory Api_System
  imports Api_Logic
begin

text \<open>
  The whole server: what holds of every sequence of requests. The interface of the management
  routes is interpreted on the steps of storage.
\<close>

section \<open>Requests are steps of storage\<close>

lemma update_segment_step: "update_segment now eid k ch ex d = Inr (sg, d') \<Longrightarrow> db_step X T d d'"
  by (auto simp: update_segment_def and_then_Inr split: option.splits if_splits intro: step_write_segment)

interpretation stored: management_writes S u "\<lambda>d d'. d' = d \<or> db_step (sv_ext S) T d d'" for S u T
  by unfold_locales (auto intro: db_step.intros update_segment_step)

lemma management_cases:
  assumes "management S rq u r s = (res, s')"
  shows "(\<exists>code. res = Inr code \<and> changes r \<and>
       (\<exists>d. (d = app_db s \<or> db_step (sv_ext S) T (app_db s) d) \<and> audited_by u d (app_db s'))) \<or>
    (\<exists>code. res = Inr code \<and> \<not> changes r \<and> app_db s' = app_db s) \<or>
    (\<exists>e. res = Inl e \<and> (app_db s' = app_db s \<or> changes r \<and> db_step (sv_ext S) T (app_db s) (app_db s')))"
  using stored.management_outcome [of u S T r rq, unfolded outcome_def, rule_format, of s] assms
  by (cases res) (auto simp: holds_def split: if_splits)

definition on_path :: "('re, 'ver) services \<Rightarrow> case_tables \<Rightarrow> 'a handler \<Rightarrow> bool" where
  "on_path S T m = (\<forall>s. (db_step (sv_ext S) T)\<^sup>*\<^sup>* (app_db s) (app_db (snd (m s))))"

lemma on_path_holds:
  "(\<And>s. holds m (\<lambda>_ s'. (db_step (sv_ext S) T)\<^sup>*\<^sup>* (app_db s) (app_db s'))
      (\<lambda>_ s'. (db_step (sv_ext S) T)\<^sup>*\<^sup>* (app_db s) (app_db s')) s) \<Longrightarrow> on_path S T m"
  by (simp add: on_path_def holds_snd [where P = "\<lambda>s'. (db_step (sv_ext S) T)\<^sup>*\<^sup>* _ (app_db s')"])

lemma on_path_bind: "on_path S T m \<Longrightarrow> (\<And>x. on_path S T (f x)) \<Longrightarrow> on_path S T (h_bind m f)"
  unfolding on_path_def h_bind_def
  by (auto split: prod.splits sum.splits) (metis rtranclp_trans snd_conv)+

lemma on_path_check: "on_path S T (h_check r)"
  by (rule on_path_holds) (simp add: wp)

lemma on_path_respond: "on_path S T m \<Longrightarrow> on_path S T (respond code m)"
  unfolding respond_def by (rule on_path_bind) (simp_all add: on_path_def h_return_def)

lemma on_path_management: "on_path S T (management S rq u r)"
  unfolding on_path_def
proof
  fix s
  obtain res s' where run: "management S rq u r s = (res, s')" by (cases "management S rq u r s")
  have "db_step (sv_ext S) T d d'" if "audited_by u d d'" for d d'
    using that by (auto simp: audited_by_def intro: step_audit_record)
  then show "(db_step (sv_ext S) T)\<^sup>*\<^sup>* (app_db s) (app_db (snd (management S rq u r s)))"
    using management_cases [OF run, of T] by (auto simp: run intro: converse_rtranclp_into_rtranclp
      rtranclp_trans [OF r_into_rtranclp r_into_rtranclp])
qed

lemma on_path_sdk: "on_path S T (sdk S rq i r)"
proof (cases r)
  case (SendEvents es)
  have "on_path S T (ingest S rq i es)"
    by (rule on_path_holds) (auto simp: wp ingest_def intro: step_ingest)
  then show ?thesis by (simp add: SendEvents on_path_respond)
qed (auto simp: routes_evaluate_all_def routes_evaluate_one_def routes_snapshot_def wp Let_def
    respond_def intro!: on_path_holds)

lemma on_path_sdk_identity: "on_path S T (h_sdk_identity S rq)"
  by (rule on_path_holds) (auto simp: wp intro: step_touch_api_key)

lemma on_path_try_slugs: "on_path S (sv_case S) (try_slugs S rq base name email h ns)"
proof (induction ns)
  case (Cons n ns)
  then show ?case
    by (auto simp: on_path_def split: sum.splits storage_error.splits prod.splits intro: step_create_organization)
qed (simp add: on_path_def)

lemma on_path_public: "on_path S (sv_case S) (public S rq r)"
proof (cases r)
  case (Register b)
  have "on_path S (sv_case S) (issue_session S rq u)" for u
    by (rule on_path_holds) (simp add: wp issue_session_def)
  then show ?thesis
    by (auto simp: Register register_def Let_def register_with_free_slug_def on_path_def [of S _ "h_return _"] h_return_def
        intro!: on_path_respond on_path_bind on_path_check on_path_try_slugs split: prod.split)
next
  case (Login b)
  have "on_path S (sv_case S) (login S rq b)"
    by (rule on_path_holds) (auto simp: wp login_def issue_session_def Let_def split: option.splits bool.splits)
  then show ?thesis by (simp add: Login on_path_respond)
qed

lemma on_path_limited: "on_path S (sv_case S) (limited S rq r)"
  by (cases r)
     (auto intro!: on_path_bind on_path_check on_path_management on_path_sdk on_path_sdk_identity on_path_public
       simp: on_path_def [of S "sv_case S" "\<lambda>s. (Inr (operational rq _ s), s)"])

section \<open>The cache stays well formed\<close>

definition cache_safe :: "'a handler \<Rightarrow> bool" where
  "cache_safe m = (\<forall>s. cache_wf (app_cache s) \<longrightarrow> cache_wf (app_cache (snd (m s))))"

lemma cache_safe_bind: "cache_safe m \<Longrightarrow> (\<And>x. cache_safe (f x)) \<Longrightarrow> cache_safe (h_bind m f)"
  unfolding cache_safe_def h_bind_def by (fastforce split: prod.splits sum.splits)

lemma cache_safe_basic:
  "cache_safe (h_return x)" "cache_safe (h_check r)" "cache_safe (h_read q)" "cache_safe (h_write w)"
  "cache_safe (h_exec e)" "cache_safe (h_attempt a)" "cache_safe (h_cache_get now eid)"
  "cache_safe (h_cache_refresh now eid)" "cache_safe (h_sdk_identity S rq)"
  by (auto simp: cache_safe_def handler_defs h_sdk_identity_def cache_wf_refresh cache_wf_get split_beta Let_def
      split: sum.splits prod.splits)

lemma cache_safe_audit: "cache_safe (h_audit now entry)"
  unfolding h_audit_def by (intro cache_safe_bind cache_safe_basic)

lemma cache_safe_lookup: "cache_safe (h_project u p)" "cache_safe (h_environment pr e)"
  unfolding h_project_def h_environment_def by (intro cache_safe_basic)+

lemma cache_safe_respond: "cache_safe m \<Longrightarrow> cache_safe (respond code m)"
  unfolding respond_def by (intro cache_safe_bind cache_safe_basic)

lemmas cache_safe_intros = cache_safe_bind cache_safe_basic cache_safe_audit cache_safe_lookup cache_safe_respond

lemma cache_safe_revalidate: "cache_safe (revalidate X f vs es)"
  by (induction es) (auto intro!: cache_safe_intros)

lemma cache_safe_management: "cache_safe (management S rq u r)"
  by (cases r)
     (auto simp: projects_defs flags_defs experiments_defs me_def Let_def split: option.split
       intro!: cache_safe_intros cache_safe_revalidate)

lemma cache_safe_sdk: "cache_safe (sdk S rq i r)"
  by (cases r)
     (auto simp: evaluate_routes_defs Let_def intro!: cache_safe_intros)

lemma cache_safe_try_slugs: "cache_safe (try_slugs S rq base name email h ns)"
  by (induction ns) (auto simp: cache_safe_def split: sum.splits storage_error.splits prod.splits)

lemma cache_safe_public: "cache_safe (public S rq r)"
  by (cases r)
     (auto simp: register_def register_with_free_slug_def login_def issue_session_def Let_def
       split: option.split prod.split bool.split intro!: cache_safe_intros cache_safe_try_slugs)

lemma cache_safe_limited: "cache_safe (limited S rq r)"
  by (cases r)
     (auto intro!: cache_safe_intros cache_safe_management cache_safe_sdk cache_safe_public,
      simp add: cache_safe_def)

section \<open>Sequences of requests\<close>

fun serve_all ::
  "('re, 'ver) services \<Rightarrow> (request \<times> real \<times> route) list \<Rightarrow> rate_limiter \<times> app \<Rightarrow> nat list \<times> rate_limiter \<times> app" where
  "serve_all S [] w = ([], w)"
| "serve_all S ((rq, now, r) # rs) w =
     (let (code, w') = router S rq now r w; (codes, w'') = serve_all S rs w' in (code # codes, w''))"

definition documented_statuses :: "nat set" where
  "documented_statuses = {200, 201, 202, 204, 400, 401, 403, 404, 409, 422, 429, 500, 503}"

lemma status_documented: "er_status (into_response e) \<in> documented_statuses"
  by (cases e) (simp_all add: into_response_def documented_statuses_def)

lemma respond_code: "respond code m s = (Inr c, s') \<Longrightarrow> c = code"
  by (auto simp: respond_def h_bind_def h_return_def split: prod.splits sum.splits)

lemma limited_code: "limited S rq r s = (Inr code, s') \<Longrightarrow> code \<in> documented_statuses"
proof (cases r)
  case (Operational x)
  assume "limited S rq r s = (Inr code, s')"
  then show ?thesis
    by (cases x) (auto simp: Operational ready_def documented_statuses_def into_response_def Let_def split: if_splits)
next
  case (Public x)
  assume "limited S rq r s = (Inr code, s')"
  then show ?thesis by (cases x) (auto simp: Public documented_statuses_def dest!: respond_code)
next
  case (Management x)
  assume "limited S rq r s = (Inr code, s')"
  then obtain u where "management S rq u x s = (Inr code, s')"
    by (auto simp: Management h_bind_def h_check_def split: sum.splits)
  then show ?thesis by (cases x) (auto simp: documented_statuses_def dest!: respond_code)
next
  case (Sdk x)
  assume "limited S rq r s = (Inr code, s')"
  then obtain i s1 where "sdk S rq i x s1 = (Inr code, s')"
    by (auto simp: Sdk h_bind_def split: prod.splits sum.splits)
  then show ?thesis by (cases x) (auto simp: documented_statuses_def dest!: respond_code)
qed

lemma router_step:
  assumes "router S rq now r (l, s) = (code, l', s')"
  shows "(db_step (sv_ext S) (sv_case S))\<^sup>*\<^sup>* (app_db s) (app_db s')" and "cache_wf (app_cache s) \<Longrightarrow> cache_wf (app_cache s')"
    and "code \<in> documented_statuses"
proof -
  have "s' = s \<or> s' = snd (limited S rq r s)"
    using assms by (auto simp: router_def split: route.splits prod.splits sum.splits)
  then show "(db_step (sv_ext S) (sv_case S))\<^sup>*\<^sup>* (app_db s) (app_db s')"
    and "cache_wf (app_cache s) \<Longrightarrow> cache_wf (app_cache s')"
    using on_path_limited [of S rq r] cache_safe_limited [of S rq r] by (auto simp: on_path_def cache_safe_def)
  have "operational rq x s \<in> documented_statuses" for x
    using limited_code [of S rq "Operational x" s] by simp
  then show "code \<in> documented_statuses"
    using assms limited_code [of S rq r s] status_documented
    by (auto simp: router_def split: route.splits prod.splits sum.splits)
qed


section \<open>Roles\<close>

definition allowed :: "role \<Rightarrow> management_route \<Rightarrow> bool" where
  "allowed ro r = ((changes r \<longrightarrow> can_write ro) \<and> (administers r \<longrightarrow> can_administer ro))"

lemma from_storage_not_forbidden [simp]: "from_storage e \<noteq> Forbidden m"
  by (cases e) (simp_all add: from_storage_def)

definition never_forbidden :: "'a handler \<Rightarrow> bool" where
  "never_forbidden m = (\<forall>s x. fst (m s) \<noteq> Inl (Forbidden x))"

lemma never_forbidden_bind:
  assumes "never_forbidden m" and "\<And>x. never_forbidden (f x)"
  shows "never_forbidden (h_bind m f)"
  unfolding never_forbidden_def
proof (intro allI)
  fix s x
  obtain r s' where run: "m s = (r, s')" by (cases "m s")
  have "fst (m s) \<noteq> Inl (Forbidden x)" "fst (f y s') \<noteq> Inl (Forbidden x)" for y
    using assms by (simp_all add: never_forbidden_def)
  then show "fst (h_bind m f s) \<noteq> Inl (Forbidden x)"
    by (cases r) (simp_all add: h_bind_def run)
qed

lemma never_forbidden_basic:
  "never_forbidden (h_return x)" "never_forbidden (h_read q)" "never_forbidden (h_write w)"
  "never_forbidden (h_exec e)" "never_forbidden (h_attempt a)" "never_forbidden (h_cache_refresh now eid)"
  "never_forbidden (h_project u p)" "never_forbidden (h_environment pr ek)"
  by (auto simp: never_forbidden_def handler_defs map_err_def split_beta Let_def split: sum.splits prod.splits)

lemma never_forbidden_audit: "never_forbidden (h_audit now entry)"
  unfolding h_audit_def by (intro never_forbidden_bind never_forbidden_basic)

lemma never_forbidden_check: "(\<And>m. r \<noteq> Inl (Forbidden m)) \<Longrightarrow> never_forbidden (h_check r)"
  by (simp add: never_forbidden_def h_check_def)

lemma never_forbidden_checks:
  "never_forbidden (h_check (Inr x))" "never_forbidden (h_check (Inl (BadRequest m)))" "never_forbidden (h_check (Inl (Internal m)))"
  "never_forbidden (h_check (valid_key k f))" "never_forbidden (h_check (validate_evaluable X k vs off ft rs))"
  "never_forbidden (h_check (map_err (\<lambda>err. annotate err k) (validate_evaluable X key vs off ft rs)))"
  "never_forbidden (h_check (validate_decidable X sg b))" "never_forbidden (h_check (map_err Unprocessable y))"
  by (rule never_forbidden_check; auto simp: valid_key_def validate_evaluable_def validate_decidable_def Let_def
      map_err_def and_then_def split: sum.splits)+

lemma never_forbidden_respond: "never_forbidden m \<Longrightarrow> never_forbidden (respond code m)"
  unfolding respond_def by (intro never_forbidden_bind never_forbidden_basic)

lemmas never_forbidden_intros =
  never_forbidden_bind never_forbidden_basic never_forbidden_audit never_forbidden_checks never_forbidden_respond

lemma never_forbidden_revalidate: "never_forbidden (revalidate X f vs es)"
  by (induction es) (auto intro!: never_forbidden_intros)

lemmas flag_handlers =
  flags_create_def flags_list_def flags_get_def flags_update_def flags_delete_def flags_get_config_def
  flags_list_configured_def flags_update_config_def segments_list_def segments_create_def segments_get_def
  segments_update_def segments_delete_def

lemma require_allowed:
  "can_write (caller_role u) \<Longrightarrow> require_write u = Inr ()"
  "can_administer (caller_role u) \<Longrightarrow> require_admin u = Inr ()"
  by (simp_all add: require_write_def require_admin_def)

lemma management_not_forbidden: "allowed (caller_role u) r \<Longrightarrow> never_forbidden (management S rq u r)"
  by (cases r)
     (auto simp: allowed_def require_allowed projects_defs flag_handlers experiments_defs me_def Let_def
       split: option.split
       intro!: never_forbidden_intros never_forbidden_revalidate)

lemma management_forbidden:
  "\<not> allowed (caller_role u) r \<Longrightarrow> \<exists>m. management S rq u r s = (Inl (Forbidden m), s)"
  by (cases r)
     (auto simp: allowed_def require_write_def require_admin_def can_write_def can_administer_def projects_defs
       flags_defs experiments_defs respond_def h_bind_def h_check_def)

text \<open>
  C7. A role permits exactly its routes. A request is refused as forbidden if and only if it
  changes configuration and the caller is a viewer, or it deletes a project, an environment or a
  flag, handles SDK keys or reads the audit trail and the caller is neither owner nor admin; a
  refusal comes before anything is read or written.
\<close>

theorem roles_permit_their_routes:
  "if allowed (caller_role u) r then \<forall>m. fst (management S rq u r s) \<noteq> Inl (Forbidden m)
   else \<exists>m. management S rq u r s = (Inl (Forbidden m), s)"
  using management_not_forbidden [of u r S rq] management_forbidden [of u r S rq s]
  by (simp add: never_forbidden_def)

section \<open>The audit trail\<close>

text \<open>The entries without their reference to an environment, which a deletion clears.\<close>

definition audit_trail :: "db \<Rightarrow> audit_entry list" where
  "audit_trail d = map (\<lambda>a. a\<lparr>au_environment_id := None\<rparr>) (db_audit d)"

lemma side_frame_trail: "side_frame d d' \<Longrightarrow> audit_trail d' = audit_trail d"
  by (simp add: side_frame_def audit_trail_def)

lemma cascade_environments_trail: "audit_trail (cascade_environments gone d) = audit_trail d"
  by (auto simp: cascade_environments_def audit_trail_def Let_def)

lemma trail_kept:
  "delete_project g key d = Inr d' \<Longrightarrow> audit_trail d' = audit_trail d"
  "delete_environment prj key d = Inr d' \<Longrightarrow> audit_trail d' = audit_trail d"
  "create_api_key i now eid name hash display scope d = Inr (k, d') \<Longrightarrow> audit_trail d' = audit_trail d"
  "revoke_api_key now eid i d = Inr d' \<Longrightarrow> audit_trail d' = audit_trail d"
  "update_segment now eid key ch expected d = Inr (s, d') \<Longrightarrow> audit_trail d' = audit_trail d"
  "delete_experiment eid key d = Inr d' \<Longrightarrow> audit_trail d' = audit_trail d"
proof goal_cases
  case 1
  then obtain gone gone' d2 ps where "cascade_flags gone (cascade_environments gone' d) = Inr d2" and d': "d' = d2\<lparr>db_projects := ps\<rparr>"
    by (auto simp: delete_project_def Let_def and_then_Inr split: if_splits)
  then have "audit_trail d2 = audit_trail d"
    by (simp add: side_frame_trail [OF cascade_flags_frame] cascade_environments_trail)
  moreover have "audit_trail d' = audit_trail d2" by (simp add: audit_trail_def d')
  ultimately show ?case by simp
next
  case 2
  then show ?case by (auto simp: delete_environment_def Let_def cascade_environments_trail split: if_splits)
next
  case 3
  then show ?case using create_api_key_eq by (fastforce simp: audit_trail_def)
next
  case 4
  then show ?case by (auto simp: revoke_api_key_def audit_trail_def split: if_splits)
next
  case 5
  then show ?case
    by (auto simp: update_segment_def and_then_Inr split: option.splits if_splits intro: side_frame_trail frames(10))
next
  case 6
  then show ?case using delete_experiment_eq by (fastforce simp: audit_trail_def)
qed

interpretation trail: management_writes S u "\<lambda>d d'. audit_trail d' = audit_trail d" for S u
  by unfold_locales (auto intro: trail_kept side_frame_trail frames)

lemma audited_trail:
  "audited_by u d d' \<Longrightarrow> \<exists>e. audit_trail d' = audit_trail d @ [e] \<and> au_organization_id e = caller_org u \<and>
     au_actor_user_id e = Some (caller_user_id u) \<and> au_actor_email e = caller_email u"
  by (auto simp: audited_by_def audit_record_def Let_def and_then_Inr audit_trail_def)


end
