(* ===== verification/Api_Evaluable.thy ===== *)
theory Api_Evaluable
  imports Api_System
begin

text \<open>
  Nothing is stored that the engine could not evaluate: every configuration validates together
  with its flag, its rules name segments of their own environment, and every segment
  validates. The management routes keep this, through the interface of their writes.
\<close>

section \<open>The invariant\<close>

definition sound :: "('re, 'ver) externals \<Rightarrow> flag_row \<Rightarrow> string \<Rightarrow> distribution \<Rightarrow> rule list \<Rightarrow> bool" where
  "sound X f off ft rs = (validate X (candidate (fl_key f) (fl_variants f) off ft rs) = Inr ())"

definition configs_sound :: "('re, 'ver) externals \<Rightarrow> db \<Rightarrow> bool" where
  "configs_sound X d =
     (\<forall>c \<in> set (db_configs d). \<forall>f \<in> set (db_flags d). fc_flag_id c = fl_id f \<longrightarrow>
        sound X f (fc_off_variant c) (fc_fallthrough c) (fc_rules c))"

definition segments_sound :: "('re, 'ver) externals \<Rightarrow> db \<Rightarrow> bool" where
  "segments_sound X d = (\<forall>s \<in> set (db_segments d). validate_segment X (segment_definition s) = Inr ())"

definition served_inv :: "('re, 'ver) externals \<Rightarrow> db \<Rightarrow> bool" where
  "served_inv X d =
     (db_inv d \<and> configs_local d \<and> segment_refs_resolve d \<and> configs_sound X d \<and> segments_sound X d)"

text \<open>
  A first environment seeds a flag from its variants alone, which were validated only if the
  flag was never changed before.
\<close>

definition seedable :: "('re, 'ver) externals \<Rightarrow> db \<Rightarrow> bool" where
  "seedable X d =
     (\<forall>f \<in> set (db_flags d). reference_config (fl_id f) d = None \<longrightarrow>
        (\<forall>v. default_variant (fl_variants f) = Some v \<longrightarrow> sound X f v (Fixed v) []))"

lemma served_invD:
  "served_inv X d \<Longrightarrow> db_inv d" "served_inv X d \<Longrightarrow> configs_local d" "served_inv X d \<Longrightarrow> segment_refs_resolve d"
  "served_inv X d \<Longrightarrow> configs_sound X d" "served_inv X d \<Longrightarrow> segments_sound X d"
  by (simp_all add: served_inv_def)

lemma sound_without_rules: "sound X f off ft rs \<Longrightarrow> sound X f off ft []"
  by (auto simp: sound_def validate_def Let_def split: if_splits)

lemma served_subset:
  assumes "served_inv X d" and "db_inv d'" and "set (db_flags d') \<subseteq> set (db_flags d)"
    and "set (db_configs d') \<subseteq> set (db_configs d)" and "set (db_environments d') \<subseteq> set (db_environments d)"
    and "set (db_segments d') \<subseteq> set (db_segments d)"
    and kept: "\<And>c s. c \<in> set (db_configs d') \<Longrightarrow> s \<in> set (db_segments d) \<Longrightarrow> sg_environment_id s = fc_environment_id c \<Longrightarrow>
      s \<in> set (db_segments d')"
  shows "served_inv X d'"
proof -
  have "configs_local d'" using served_invD(2) [OF assms(1)] assms(3-5) unfolding configs_local_def by blast
  moreover have "segment_refs_resolve d'"
    using served_invD(3) [OF assms(1)] assms(4) kept unfolding segment_refs_resolve_def by blast
  moreover have "configs_sound X d'" using served_invD(4) [OF assms(1)] assms(3,4) unfolding configs_sound_def by blast
  moreover have "segments_sound X d'" using served_invD(5) [OF assms(1)] assms(6) unfolding segments_sound_def by blast
  ultimately show ?thesis using assms(2) by (simp add: served_inv_def)
qed

lemma served_same:
  "served_inv X d \<Longrightarrow> db_inv d' \<Longrightarrow> db_flags d' = db_flags d \<Longrightarrow> db_configs d' = db_configs d \<Longrightarrow>
     db_environments d' = db_environments d \<Longrightarrow> db_segments d' = db_segments d \<Longrightarrow> served_inv X d'"
  by (rule served_subset) simp_all

section \<open>Deletions\<close>

lemma cascade_environments_served:
  assumes "served_inv X d"
  shows "served_inv X (cascade_environments gone d)"
  by (rule served_subset [OF assms cascade_environments_inv [OF served_invD(1) [OF assms]]])
     (auto simp: cascade_environments_tables)

lemma cascade_flags_served:
  assumes "served_inv X d" and "cascade_flags gone d = Inr d'"
  shows "served_inv X d'"
  using cascade_flags_eq(1) [OF assms(2)]
  by (intro served_subset [OF assms(1) cascade_flags_inv [OF served_invD(1) [OF assms(1)] assms(2)]]) auto

lemma delete_project_served:
  assumes "served_inv X d" and "delete_project g key d = Inr d'"
  shows "served_inv X d'"
proof -
  obtain gone gone' d2 ps where d2: "cascade_flags gone (cascade_environments gone' d) = Inr d2"
    and d': "d' = d2\<lparr>db_projects := ps\<rparr>"
    using assms(2) by (auto simp: delete_project_def Let_def and_then_Inr split: if_splits)
  have "served_inv X d2" by (rule cascade_flags_served [OF cascade_environments_served [OF assms(1)] d2])
  then show ?thesis
    by (rule served_same [OF _ delete_project_inv [OF served_invD(1) [OF assms(1)] assms(2)]]) (simp_all add: d')
qed

lemma delete_environment_served:
  "served_inv X d \<Longrightarrow> delete_environment prj key d = Inr d' \<Longrightarrow> served_inv X d'"
  by (auto simp: delete_environment_def Let_def intro: cascade_environments_served split: if_splits)

lemma delete_flag_served:
  "served_inv X d \<Longrightarrow> delete_flag prj key d = Inr d' \<Longrightarrow> served_inv X d'"
  by (auto simp: delete_flag_def Let_def and_then_Inr intro: cascade_flags_served split: if_splits)

lemma delete_segment_served:
  assumes "served_inv X d" and "delete_segment eid key d = Inr d'"
  shows "served_inv X d'"
proof -
  note inv = served_invD [OF assms(1)] and e = delete_segment_eq [OF assms(2), THEN conjunct2]
  have "configs_local d'" using inv(2) by (simp add: e configs_local_def)
  moreover have "configs_sound X d'" using inv(4) by (simp add: e configs_sound_def)
  moreover have "segments_sound X d'" using inv(5) by (simp add: e segments_sound_def)
  ultimately show ?thesis
    using delete_segment_inv [OF inv(1) assms(2)] delete_segment_refs [OF inv(1,3) assms(2)]
    by (simp add: served_inv_def)
qed

section \<open>Segments\<close>

lemma create_segment_served:
  assumes "served_inv X d" and "create_segment i now eid key name desc d = Inr (s, d')"
  shows "served_inv X d'"
proof -
  note inv = served_invD [OF assms(1)] and e = create_segment_eq [OF assms(2)]
  have "validate_segment X (segment_definition s) = Inr ()"
    using assms(2) by (auto simp: create_segment_def Let_def and_then_Inr validate_segment_def segment_definition_def)
  then have "segments_sound X d'" using inv(5) by (auto simp: e(1) segments_sound_def)
  moreover have "configs_local d'" using inv(2) by (simp add: e(1) configs_local_def)
  moreover have "configs_sound X d'" using inv(4) by (simp add: e(1) configs_sound_def)
  moreover have "segment_refs_resolve d'" using inv(3) by (auto simp: e(1) segment_refs_resolve_def)
  ultimately show ?thesis using create_segment_inv [OF inv(1) assms(2)] by (simp add: served_inv_def)
qed

lemma validate_segment_fields:
  "seg_key s = seg_key t \<Longrightarrow> seg_included s = seg_included t \<Longrightarrow> seg_excluded s = seg_excluded t \<Longrightarrow>
     seg_rules s = seg_rules t \<Longrightarrow> validate_segment X s = validate_segment X t"
  by (simp add: validate_segment_def)

lemma update_segment_served:
  assumes "served_inv X d" and "update_segment now eid key (us_changes b) (us_expected_version b) d = Inr (s', d')"
    and prev: "find_segment eid key d = Inr previous" "validate_decidable X previous b = Inr ()"
  shows "served_inv X d'"
proof -
  note inv = served_invD [OF assms(1)]
  obtain current where w: "write_segment now eid key (us_changes b) (us_expected_version b) current d = Inr (s', d')"
    using update_segment_write [OF assms(2)] by blast
  obtain s where s: "s \<in> set (db_segments d)" "sg_environment_id s = eid" "sg_key s = key"
    and s': "s' = updated_segment now (us_changes b) s"
    and d': "d' = notify [eid] (d\<lparr>db_segments := map (\<lambda>t. if sg_environment_id t = eid \<and> sg_key t = key
           then s' else t) (db_segments d)\<rparr>)"
    using write_segment_eq [OF w db_invD(1) [OF inv(1)]] by blast
  have "find (\<lambda>t. sg_environment_id t = eid \<and> sg_key t = key) (db_segments d) = Some s"
    using db_invD(1) [OF inv(1)] s
    by (intro find_unique_when [of "\<lambda>t. (sg_environment_id t, sg_key t)"]) (auto simp: keys_unique_def)
  then have "previous = s" using prev(1) by (simp add: find_segment_def)
  let ?candidate = "\<lparr>seg_key = sg_key s, seg_description = None,
      seg_included = unwrap_or (sc_included (us_changes b)) (sg_included s),
      seg_excluded = unwrap_or (sc_excluded (us_changes b)) (sg_excluded s),
      seg_rules = unwrap_or (sc_rules (us_changes b)) (sg_rules s), seg_version = sg_version s\<rparr>"
  have "validate_segment X ?candidate = Inr ()"
    using prev(2) \<open>previous = s\<close> by (simp add: validate_decidable_def Let_def)
  moreover have "validate_segment X (segment_definition s') = validate_segment X ?candidate"
    by (rule validate_segment_fields) (simp_all add: s' updated_segment_def segment_definition_def)
  ultimately have "validate_segment X (segment_definition s') = Inr ()" by simp
  then have "segments_sound X d'" using inv(5) by (auto simp: d' segments_sound_def)
  moreover have "configs_local d'" using inv(2) by (simp add: d' configs_local_def)
  moreover have "configs_sound X d'" using inv(4) by (simp add: d' configs_sound_def)
  moreover have "segment_refs_resolve d'"
    unfolding segment_refs_resolve_def
  proof (intro ballI)
    fix c r k
    assume c: "c \<in> set (db_configs d')" "r \<in> set (fc_rules c)" "k \<in> set (rule_references r)"
    have "c \<in> set (db_configs d)" using c(1) by (simp add: d')
    then obtain t where t: "t \<in> set (db_segments d)" "sg_environment_id t = fc_environment_id c" "sg_key t = k"
      using inv(3) c(2,3) unfolding segment_refs_resolve_def by blast
    let ?t = "if sg_environment_id t = eid \<and> sg_key t = key then s' else t"
    have "sg_environment_id ?t = sg_environment_id t" "sg_key ?t = sg_key t"
      using s by (simp_all add: s' updated_segment_def)
    moreover have "?t \<in> set (db_segments d')" using t(1) by (simp add: d')
    ultimately show "\<exists>s \<in> set (db_segments d'). sg_environment_id s = fc_environment_id c \<and> sg_key s = k"
      using t(2,3) by (intro bexI [of _ ?t]) simp_all
  qed
  ultimately show ?thesis using update_segment_inv [OF inv(1) assms(2)] by (simp add: served_inv_def)
qed

section \<open>Flags and configurations\<close>

lemma upsert_config_eq:
  assumes "upsert_config X now fid eid en off ft rules expected d = Inr (c, d')"
  shows "set (db_configs d') \<subseteq> insert c (set (db_configs d))" and "c \<in> set (db_configs d')"
    and "fc_flag_id c = fid" and "fc_environment_id c = eid"
    and "fc_enabled c = en" and "fc_off_variant c = off" and "fc_fallthrough c = ft" and "fc_rules c = rules"
    and "db_flags d' = db_flags d" and "db_environments d' = db_environments d" and "db_segments d' = db_segments d"
proof -
  let ?here = "\<lambda>c. fc_flag_id c = fid \<and> fc_environment_id c = eid"
  have "(set (db_configs d') \<subseteq> insert c (set (db_configs d)) \<and> c \<in> set (db_configs d')) \<and>
     fc_flag_id c = fid \<and> fc_environment_id c = eid \<and>
     fc_enabled c = en \<and> fc_off_variant c = off \<and> fc_fallthrough c = ft \<and> fc_rules c = rules \<and>
     db_flags d' = db_flags d \<and> db_environments d' = db_environments d \<and> db_segments d' = db_segments d"
  proof (cases "find ?here (db_configs d)")
    case None
    then show ?thesis using assms by (auto simp: upsert_config_def Let_def and_then_Inr)
  next
    case (Some b)
    then have "b \<in> set (db_configs d)" "?here b" by (auto simp: find_Some_iff)
    with Some show ?thesis using assms by (auto simp: upsert_config_def Let_def split: if_splits)
  qed
  then show "set (db_configs d') \<subseteq> insert c (set (db_configs d))" "c \<in> set (db_configs d')"
    "fc_flag_id c = fid" "fc_environment_id c = eid"
    "fc_enabled c = en" "fc_off_variant c = off" "fc_fallthrough c = ft" "fc_rules c = rules"
    "db_flags d' = db_flags d" "db_environments d' = db_environments d" "db_segments d' = db_segments d"
    by blast+
qed

lemma validate_references_resolve:
  assumes "validate_references (candidate key vs off ft rs) (set (segment_keys eid d)) = Inr ()"
    and "r \<in> set rs" and "k \<in> set (rule_references r)"
  shows "\<exists>s \<in> set (db_segments d). sg_environment_id s = eid \<and> sg_key s = k"
proof -
  have "k \<in> set (segment_keys eid d)"
    using assms
    by (cases "rule_segments r")
       (force simp: validate_references_def check_references_Nil list_all_iff rule_references_def is_some_and_def)+
  then show ?thesis by (auto simp: segment_keys_def)
qed

lemma upsert_config_served:
  assumes "served_inv X d" and "upsert_config X now (fl_id f) (en_id e) en off ft rs expected d = Inr (c, d')"
    and f: "find_flag prj fk d = Inr f" and e: "find_environment prj ek d = Inr e"
    and valid: "validate X (candidate (fl_key f) (fl_variants f) off ft rs) = Inr ()"
    and refs: "validate_references (candidate (fl_key f) (fl_variants f) off ft rs) (set (segment_keys (en_id e) d)) = Inr ()"
  shows "served_inv X d'"
proof -
  note inv = served_invD [OF assms(1)] and u = upsert_config_eq [OF assms(2)]
    and keys = db_invD(1) [OF served_invD(1) [OF assms(1)], unfolded keys_unique_def]
  have mem: "f \<in> set (db_flags d)" "fl_project_id f = prj" "e \<in> set (db_environments d)" "en_project_id e = prj"
    using f e by (auto simp: find_flag_def find_environment_def dest: find_SomeD)
  have only_f: "g = f" if "g \<in> set (db_flags d)" "fl_id g = fl_id f" for g
    using unique_by [OF _ that(1) mem(1), of fl_id] keys that(2) by simp
  have only_e: "g = e" if "g \<in> set (db_environments d)" "en_id g = en_id e" for g
    using unique_by [OF _ that(1) mem(3), of en_id] keys that(2) by simp
  have "configs_local d'"
    unfolding configs_local_def u(9,10)
  proof (intro ballI impI)
    fix b g n
    assume b: "b \<in> set (db_configs d')" "g \<in> set (db_flags d)" "n \<in> set (db_environments d)"
      "fc_flag_id b = fl_id g \<and> fc_environment_id b = en_id n"
    show "fl_project_id g = en_project_id n"
    proof (cases "b = c")
      case True
      then have "g = f" "n = e" using b u(3,4) only_f only_e by simp_all
      then show ?thesis using mem by simp
    next
      case False
      then show ?thesis using b u(1) inv(2) unfolding configs_local_def by blast
    qed
  qed
  moreover have "segment_refs_resolve d'"
    unfolding segment_refs_resolve_def u(11)
  proof (intro ballI)
    fix b r k
    assume b: "b \<in> set (db_configs d')" "r \<in> set (fc_rules b)" "k \<in> set (rule_references r)"
    show "\<exists>s \<in> set (db_segments d). sg_environment_id s = fc_environment_id b \<and> sg_key s = k"
    proof (cases "b = c")
      case True
      then show ?thesis using validate_references_resolve [OF refs _ b(3)] b(2) u(4,8) by simp
    next
      case False
      then show ?thesis using b u(1) inv(3) unfolding segment_refs_resolve_def by blast
    qed
  qed
  moreover have "configs_sound X d'"
    unfolding configs_sound_def u(9)
  proof (intro ballI impI)
    fix b g
    assume b: "b \<in> set (db_configs d')" "g \<in> set (db_flags d)" "fc_flag_id b = fl_id g"
    show "sound X g (fc_off_variant b) (fc_fallthrough b) (fc_rules b)"
    proof (cases "b = c")
      case True
      then have "g = f" using b u(3) only_f by simp
      then show ?thesis using True valid by (simp add: sound_def u(6-8))
    next
      case False
      then show ?thesis using b u(1) inv(4) unfolding configs_sound_def by blast
    qed
  qed
  moreover have "segments_sound X d'" using inv(5) by (simp add: segments_sound_def u(11))
  ultimately show ?thesis using upsert_config_inv [OF inv(1) assms(2)] by (simp add: served_inv_def)
qed

lemma create_flag_served:
  assumes "served_inv X d" and "create_flag i now prj key name desc vs off ft d = Inr (f, d')"
    and valid: "validate X (candidate key vs off ft []) = Inr ()"
  shows "served_inv X d'"
proof -
  note inv = served_invD [OF assms(1)] and keys = db_invD(1) [OF served_invD(1) [OF assms(1)], unfolded keys_unique_def]
  define new where "new = map (\<lambda>e. \<lparr>fc_flag_id = i, fc_environment_id = e, fc_enabled = False,
      fc_off_variant = off, fc_fallthrough = ft, fc_rules = [], fc_version = 1, fc_updated_at = now\<rparr>)
      (map en_id (environments_of prj d))"
  have f: "i \<notin> fl_id ` set (db_flags d)" "fl_id f = i" "fl_project_id f = prj" "fl_key f = key" "fl_variants f = vs"
    and tables: "db_flags d' = db_flags d @ [f]" "db_configs d' = db_configs d @ new"
      "db_environments d' = db_environments d" "db_segments d' = db_segments d"
    using assms(2) by (auto simp: create_flag_def Let_def and_then_Inr new_def)
  have new: "\<forall>c \<in> set new. fc_flag_id c = i \<and> fc_off_variant c = off \<and> fc_fallthrough c = ft \<and> fc_rules c = [] \<and>
      fc_environment_id c \<in> en_id ` set (environments_of prj d)"
    by (auto simp: new_def)
  have old: "fc_flag_id c \<noteq> i" if "c \<in> set (db_configs d)" for c
    using references_holdD(3) [OF db_invD(2) [OF inv(1)]] that f(1) by auto
  have "configs_local d'"
    unfolding configs_local_def tables(3)
  proof (intro ballI impI)
    fix c g e
    assume c: "c \<in> set (db_configs d')" "g \<in> set (db_flags d')" "e \<in> set (db_environments d)"
      "fc_flag_id c = fl_id g \<and> fc_environment_id c = en_id e"
    show "fl_project_id g = en_project_id e"
    proof (cases "c \<in> set (db_configs d)")
      case True
      then have "g \<in> set (db_flags d)" using c(2,4) old [OF True] f(2) by (auto simp: tables)
      with True c(3,4) inv(2) show ?thesis unfolding configs_local_def by blast
    next
      case False
      then have "c \<in> set new" using c(1) by (simp add: tables)
      then obtain n where n: "n \<in> set (db_environments d)" "en_project_id n = prj" "en_id n = en_id e" "fl_id g = i"
        using new c(4) by (force simp: environments_of_def)
      then have "n = e" using keys c(3) by (intro unique_by [of en_id "db_environments d"]) simp_all
      moreover have "g = f" using c(2) n(4) f(1) by (auto simp: tables)
      ultimately show ?thesis using n(2) f(3) by simp
    qed
  qed
  moreover have "segment_refs_resolve d'"
    using inv(3) new by (auto simp: segment_refs_resolve_def tables)
  moreover have "configs_sound X d'"
    unfolding configs_sound_def
  proof (intro ballI impI)
    fix c g
    assume c: "c \<in> set (db_configs d')" "g \<in> set (db_flags d')" "fc_flag_id c = fl_id g"
    show "sound X g (fc_off_variant c) (fc_fallthrough c) (fc_rules c)"
    proof (cases "c \<in> set (db_configs d)")
      case True
      then have "g \<in> set (db_flags d)" using c(2,3) old [OF True] f(2) by (auto simp: tables)
      with True c(3) inv(4) show ?thesis unfolding configs_sound_def by blast
    next
      case False
      then have c': "c \<in> set new" using c(1) by (simp add: tables)
      then have "g = f" using new c(2,3) f(1) by (auto simp: tables)
      then show ?thesis using c' new valid by (simp add: sound_def f(4,5))
    qed
  qed
  moreover have "segments_sound X d'" using inv(5) by (simp add: segments_sound_def tables)
  ultimately show ?thesis using create_flag_inv [OF inv(1) assms(2)] by (simp add: served_inv_def)
qed

lemma update_flag_eq:
  assumes "update_flag X now i name' desc' vs' arch d = Inr (f', d')"
  obtains f where "f \<in> set (db_flags d)" "fl_id f = i" "f' = updated_flag now name' desc' vs' arch f"
    "db_flags d' = map (\<lambda>g. if fl_id g = i then f' else g) (db_flags d)" "db_configs d' = db_configs d"
    "db_environments d' = db_environments d" "db_segments d' = db_segments d"
  using assms by (auto simp: update_flag_def Let_def and_then_Inr split: option.splits dest!: find_SomeD)

lemma update_flag_served:
  assumes "served_inv X d" and "update_flag X now (fl_id f) name' desc' vs' arch d = Inr (f', d')"
    and f: "find_flag prj fk d = Inr f"
    and valid: "\<forall>vs. vs' = Some vs \<longrightarrow> revalidated X f (list_environments prj d) vs d"
  shows "served_inv X d'"
proof -
  note inv = served_invD [OF assms(1)] and keys = db_invD(1) [OF served_invD(1) [OF assms(1)]]
  have mem: "f \<in> set (db_flags d)" "fl_project_id f = prj" using f by (auto simp: find_flag_def dest: find_SomeD)
  obtain h where "h \<in> set (db_flags d)" "fl_id h = fl_id f" and h': "f' = updated_flag now name' desc' vs' arch h"
    and flags: "db_flags d' = map (\<lambda>g. if fl_id g = fl_id f then f' else g) (db_flags d)"
    and tables: "db_configs d' = db_configs d" "db_environments d' = db_environments d" "db_segments d' = db_segments d"
    using update_flag_eq [OF assms(2)] by blast
  then have "h = f" using unique_by [of fl_id "db_flags d" h f] mem(1) keys by (simp add: keys_unique_def)
  then have f': "fl_id f' = fl_id f" "fl_key f' = fl_key f" "fl_project_id f' = prj" "fl_variants f' = unwrap_or vs' (fl_variants f)"
    using mem(2) by (simp_all add: h' updated_flag_def)
  have same: "\<exists>h \<in> set (db_flags d). fl_id h = fl_id g \<and> fl_project_id h = fl_project_id g \<and> (g = h \<or> g = f' \<and> h = f)"
    if "g \<in> set (db_flags d')" for g
    using that mem f' by (auto simp: flags split: if_splits)
  have "configs_local d'"
    unfolding configs_local_def tables
  proof (intro ballI impI)
    fix c g e
    assume "c \<in> set (db_configs d)" "g \<in> set (db_flags d')" "e \<in> set (db_environments d)"
      "fc_flag_id c = fl_id g \<and> fc_environment_id c = en_id e"
    then show "fl_project_id g = en_project_id e" using same [of g] inv(2) unfolding configs_local_def by metis
  qed
  moreover have "configs_sound X d'"
    unfolding configs_sound_def tables
  proof (intro ballI impI)
    fix c g
    assume c: "c \<in> set (db_configs d)" "g \<in> set (db_flags d')" "fc_flag_id c = fl_id g"
    obtain h where h: "h \<in> set (db_flags d)" "fl_id h = fl_id g" "g = h \<or> g = f' \<and> h = f"
      using same [OF c(2)] by blast
    have old: "sound X h (fc_off_variant c) (fc_fallthrough c) (fc_rules c)"
      using inv(4) c(1,3) h(1,2) unfolding configs_sound_def by simp
    show "sound X g (fc_off_variant c) (fc_fallthrough c) (fc_rules c)"
    proof (cases "g = h \<or> vs' = None")
      case True
      then show ?thesis using old h(3) f' by (auto simp: sound_def unwrap_or_def)
    next
      case False
      then obtain vs where vs: "vs' = Some vs" "g = f'" "h = f" using h(3) by auto
      obtain e where e: "e \<in> set (db_environments d)" "fc_environment_id c = en_id e"
        using references_holdD(4) [OF db_invD(2) [OF inv(1)]] c(1) by (metis (no_types, lifting) image_iff subsetD)
      then have "en_project_id e = prj"
        using inv(2) mem c(1,3) h(2) vs(3) unfolding configs_local_def by (metis (no_types, lifting))
      then have "e \<in> set (list_environments prj d)" using e(1) by (simp add: list_environments_def environments_of_def)
      then obtain b where b: "find_config (fl_id f) (en_id e) d = Inr b"
        and ok: "validate X (candidate (fl_key f) vs (fc_off_variant b) (fc_fallthrough b) (fc_rules b)) = Inr ()"
        using valid vs(1) unfolding revalidated_def by blast
      have "b = c"
        using b c(1,3) e(2) h(2) vs(3) by (intro find_config_unique [OF keys]) (auto simp: find_config_def dest: find_SomeD)
      then show ?thesis using ok f' vs(1,2) by (simp add: sound_def unwrap_or_def)
    qed
  qed
  moreover have "segment_refs_resolve d'" "segments_sound X d'"
    using inv(3,5) by (simp_all add: segment_refs_resolve_def segments_sound_def tables)
  ultimately show ?thesis using update_flag_inv [OF inv(1) assms(2)] by (simp add: served_inv_def)
qed

lemma reference_config_Some:
  "reference_config fid d = Some c \<Longrightarrow> c \<in> set (db_configs d) \<and> fc_flag_id c = fid"
proof -
  let ?ps = "sort_key (\<lambda>(e, c). (en_created_at e, en_id e))
    (filter (\<lambda>(e, c). fc_flag_id c = fid \<and> fc_environment_id c = en_id e) (List.product (db_environments d) (db_configs d)))"
  assume "reference_config fid d = Some c"
  then obtain e ps where "?ps = (e, c) # ps" by (auto simp: reference_config_def split: list.splits)
  then have "(e, c) \<in> set ?ps" by simp
  then show ?thesis by auto
qed

lemma sort_head_None: "(case sort_key f xs of [] \<Rightarrow> None | (e, c) # _ \<Rightarrow> Some c) = None \<longleftrightarrow> xs = []"
proof -
  have "sort_key f xs = [] \<longleftrightarrow> xs = []" by (metis length_0_conv length_sort)
  then show ?thesis by (cases "sort_key f xs") (simp, auto)
qed

lemma reference_config_None:
  "reference_config fid d = None \<longleftrightarrow>
     (\<forall>e \<in> set (db_environments d). \<forall>c \<in> set (db_configs d). \<not> (fc_flag_id c = fid \<and> fc_environment_id c = en_id e))"
  unfolding reference_config_def sort_head_None filter_empty_conv by auto

lemma seeded_sound:
  assumes "configs_sound X d" and "seedable X d" and f: "f \<in> set (db_flags d)"
    and c: "seeded_config i now (d\<lparr>db_environments := db_environments d @ [e]\<rparr>) f = Some c"
  shows "sound X f (fc_off_variant c) (fc_fallthrough c) []"
proof (cases "reference_config (fl_id f) (d\<lparr>db_environments := db_environments d @ [e]\<rparr>)")
  case None
  then have "reference_config (fl_id f) d = None" unfolding reference_config_None by simp
  then have default: "\<forall>v. default_variant (fl_variants f) = Some v \<longrightarrow> sound X f v (Fixed v) []"
    using assms(2) f unfolding seedable_def by blast
  obtain v where "default_variant (fl_variants f) = Some v" "fc_off_variant c = v" "fc_fallthrough c = Fixed v"
    using c unfolding seeded_config_def None by (auto simp: Let_def)
  with default show ?thesis by simp
next
  case (Some b)
  have b: "b \<in> set (db_configs d)" "fc_flag_id b = fl_id f" using reference_config_Some [OF Some] by simp_all
  have "sound X f (fc_off_variant b) (fc_fallthrough b) (fc_rules b)"
    using assms(1) b f unfolding configs_sound_def by blast
  then have "sound X f (fc_off_variant b) (fc_fallthrough b) []" by (rule sound_without_rules)
  moreover have "fc_off_variant c = fc_off_variant b" "fc_fallthrough c = fc_fallthrough b"
    using c unfolding seeded_config_def Some by (auto simp: Let_def)
  ultimately show ?thesis by simp
qed

lemma create_environment_served:
  assumes "served_inv X d" and "seedable X d" and "create_environment i now prj key name salt isp d = Inr (e, d')"
  shows "served_inv X d'"
proof -
  note inv = served_invD [OF assms(1)] and keys = db_invD(1) [OF served_invD(1) [OF assms(1)], unfolded keys_unique_def]
  let ?d = "d\<lparr>db_environments := db_environments d @ [e]\<rparr>"
  obtain new where seed: "those (map (seeded_config i now ?d) (filter (\<lambda>f. fl_project_id f = prj) (db_flags d))) = Some new"
    and e: "i \<notin> en_id ` set (db_environments d)" "en_id e = i" "en_project_id e = prj"
    and tables: "db_flags d' = db_flags d" "db_configs d' = db_configs d @ new"
      "db_environments d' = db_environments d @ [e]" "db_segments d' = db_segments d"
    using assms(3) by (auto simp: create_environment_def Let_def and_then_Inr split: option.splits)
  note seed_fields = seeded_config_keys
  have seeded: "\<exists>f \<in> set (db_flags d). fl_project_id f = prj \<and> seeded_config i now ?d f = Some c" if "c \<in> set new" for c
    using those_map_set [OF seed] that by auto
  have fields: "fc_environment_id c = i \<and> fc_rules c = []" if "c \<in> set new" for c
    using seeded [OF that] by (auto simp: seeded_config_def Let_def split: option.splits)
  have old: "fc_environment_id c \<noteq> i" if "c \<in> set (db_configs d)" for c
    using references_holdD(4) [OF db_invD(2) [OF inv(1)]] that e(1) by auto
  note fresh = seeded_sound [OF inv(4) assms(2)]
  have "configs_local d'"
    unfolding configs_local_def
  proof (intro ballI impI)
    fix c g n
    assume c: "c \<in> set (db_configs d')" "g \<in> set (db_flags d')" "n \<in> set (db_environments d')"
      "fc_flag_id c = fl_id g \<and> fc_environment_id c = en_id n"
    show "fl_project_id g = en_project_id n"
    proof (cases "c \<in> set (db_configs d)")
      case True
      then have "n \<in> set (db_environments d)" using c(3,4) old e(2) by (auto simp: tables)
      with True c(2,4) inv(2) show ?thesis unfolding configs_local_def tables by blast
    next
      case False
      then have new: "c \<in> set new" using c(1) by (simp add: tables)
      then obtain f where f: "f \<in> set (db_flags d)" "fl_project_id f = prj" "fc_flag_id c = fl_id f"
        using seeded seeded_config_keys by fastforce
      then have "g = f" using c(2,4) keys by (intro unique_by [of fl_id "db_flags d"]) (simp_all add: tables)
      moreover have "n = e" using c(3,4) fields [OF new] e(1,2) by (auto simp: tables)
      ultimately show ?thesis using f(2) e(3) by simp
    qed
  qed
  moreover have "segment_refs_resolve d'"
    using inv(3) fields by (auto simp: segment_refs_resolve_def tables)
  moreover have "configs_sound X d'"
    unfolding configs_sound_def
  proof (intro ballI impI)
    fix c g
    assume c: "c \<in> set (db_configs d')" "g \<in> set (db_flags d')" "fc_flag_id c = fl_id g"
    show "sound X g (fc_off_variant c) (fc_fallthrough c) (fc_rules c)"
    proof (cases "c \<in> set (db_configs d)")
      case True
      then show ?thesis using c(2,3) inv(4) unfolding configs_sound_def tables by blast
    next
      case False
      then have new: "c \<in> set new" using c(1) by (simp add: tables)
      then obtain f where f: "f \<in> set (db_flags d)" "seeded_config i now ?d f = Some c" using seeded by blast
      then have "fl_id g = fl_id f" using seeded_config_keys [OF f(2)] c(3) by simp
      then have "g = f" using c(2) f(1) keys by (intro unique_by [of fl_id "db_flags d"]) (simp_all add: tables)
      then show ?thesis using fresh [OF f] fields [OF new] by simp
    qed
  qed
  moreover have "segments_sound X d'" using inv(5) by (simp add: segments_sound_def tables)
  ultimately show ?thesis using create_environment_inv [OF inv(1) assms(3)] by (simp add: served_inv_def)
qed

section \<open>Every request keeps the invariant\<close>

lemma served_unrelated:
  assumes "served_inv X d" and "db_step Y T d d'" and "db_flags d' = db_flags d" and "db_configs d' = db_configs d"
    and "db_environments d' = db_environments d" and "db_segments d' = db_segments d"
  shows "served_inv X d'"
  using served_same [OF assms(1) db_step_inv [OF assms(2) served_invD(1) [OF assms(1)]] assms(3-6)] .

definition served_tables :: "db \<Rightarrow> db \<Rightarrow> bool" where
  "served_tables d d' = (db_flags d' = db_flags d \<and> db_configs d' = db_configs d \<and>
     db_environments d' = db_environments d \<and> db_segments d' = db_segments d)"

lemma update_experiments_tables: "served_tables d (update_experiments now cond f d)"
  by (simp add: served_tables_def update_experiments_def)

lemma served_tables_refl: "served_tables d d"
  by (simp add: served_tables_def)

lemma transition_tables: "transition now eid key src tgt d = (x, d') \<Longrightarrow> served_tables d d'"
  by (auto simp: transition_def Let_def update_experiments_tables served_tables_refl split: if_splits)

lemma other_tables:
  "create_project i now g key name desc d = Inr (p, d') \<Longrightarrow> served_tables d d'"
  "create_api_key i now eid name hash display scope d = Inr (k, d') \<Longrightarrow> served_tables d d'"
  "revoke_api_key now eid kid d = Inr d' \<Longrightarrow> served_tables d d'"
  "create_experiment i now eid fid key name desc metric control d = (x, d') \<Longrightarrow> served_tables d d'"
  "update_experiment now eid key name' desc' d = (x, d') \<Longrightarrow> served_tables d d'"
  "start_experiment now eid key d = (x, d') \<Longrightarrow> served_tables d d'"
  "stop_experiment now eid key d = (x, d') \<Longrightarrow> served_tables d d'"
  "delete_experiment eid key d = Inr d' \<Longrightarrow> served_tables d d'"
  "audit_record now entry d = Inr (n, d') \<Longrightarrow> served_tables d d'"
  "create_organization_with_owner T i j now name slug email h d = Inr (r, d') \<Longrightarrow> served_tables d d'"
  "ingest_counters trunc eid deltas d = Inr (m, d') \<Longrightarrow> served_tables d d'"
  "served_tables d (touch_api_key now kid d)"
proof goal_cases
  case 1 then show ?case by (auto simp: served_tables_def create_project_def Let_def and_then_Inr)
next
  case 2 from create_api_key_eq [OF 2] show ?case by (simp add: served_tables_def)
next
  case 3 then show ?case by (auto simp: served_tables_def revoke_api_key_def split: if_splits)
next
  case 4 then show ?case by (auto simp: served_tables_def dest!: create_experiment_eq)
next
  case 5
  then show ?case
    by (auto simp: update_experiment_def Let_def update_experiments_tables served_tables_refl split: if_splits)
next
  case 6 then show ?case unfolding start_experiment_def by (rule transition_tables)
next
  case 7 then show ?case unfolding stop_experiment_def by (rule transition_tables)
next
  case 8 then show ?case using delete_experiment_eq by (fastforce simp: served_tables_def)
next
  case 9 from audit_record_eq [OF 9] show ?case by (auto simp: served_tables_def)
next
  case 10 then show ?case by (cases r) (auto simp: served_tables_def dest!: create_organization_eq)
next
  case 11 then show ?case by (elim ingest_Inr) (simp add: served_tables_def)
next
  case 12 show ?case by (simp add: served_tables_def touch_api_key_def)
qed

lemma served_other:
  "served_inv X d \<Longrightarrow> db_step Y T d d' \<Longrightarrow> served_tables d d' \<Longrightarrow> served_inv X d'"
  unfolding served_tables_def by (blast intro: served_unrelated)

text \<open>The interface, for the invariant: a write that starts from it keeps it.\<close>

definition serves_on :: "('re, 'ver) externals \<Rightarrow> db \<Rightarrow> db \<Rightarrow> bool" where
  "serves_on X d d' = (served_inv X d \<and> seedable X d \<longrightarrow> served_inv X d')"

lemma serves_onI: "(served_inv X d \<Longrightarrow> seedable X d \<Longrightarrow> served_inv X d') \<Longrightarrow> serves_on X d d'"
  by (simp add: serves_on_def)

lemma serves_other: "db_step Y T d d' \<Longrightarrow> served_tables d d' \<Longrightarrow> serves_on X d d'"
  unfolding serves_on_def using served_other by blast

lemma serves_writes:
  "delete_project g key d = Inr d' \<Longrightarrow> serves_on X d d'"
  "delete_environment prj key d = Inr d' \<Longrightarrow> serves_on X d d'"
  "delete_flag prj key d = Inr d' \<Longrightarrow> serves_on X d d'"
  "delete_segment eid key d = Inr d' \<Longrightarrow> serves_on X d d'"
  "create_segment i now eid key name desc d = Inr (s, d') \<Longrightarrow> serves_on X d d'"
  "create_environment i now prj key name salt isp d = Inr (e, d') \<Longrightarrow> serves_on X d d'"
  by (rule serves_onI, rule delete_project_served delete_environment_served delete_flag_served delete_segment_served
      create_segment_served create_environment_served; assumption)+

lemma serves_checked_writes:
  "create_flag i now prj key name desc vs off ft d = Inr (f, d') \<Longrightarrow> validate X (candidate key vs off ft []) = Inr () \<Longrightarrow>
     serves_on X d d'"
  "update_segment now eid key (us_changes b) (us_expected_version b) d = Inr (s', d') \<Longrightarrow>
     find_segment eid key d = Inr previous \<Longrightarrow> validate_decidable X previous b = Inr () \<Longrightarrow> serves_on X d d'"
  "update_flag X now (fl_id f) name' desc' vs' arch d = Inr (f', d') \<Longrightarrow> find_flag prj fk d = Inr f \<Longrightarrow>
     \<forall>vs. vs' = Some vs \<longrightarrow> revalidated X f (list_environments prj d) vs d \<Longrightarrow> serves_on X d d'"
  "upsert_config X now (fl_id f) (en_id e) en off ft rs expected d = Inr (c, d') \<Longrightarrow> find_flag prj fk d = Inr f \<Longrightarrow>
     find_environment prj ek d = Inr e \<Longrightarrow> validate X (candidate (fl_key f) (fl_variants f) off ft rs) = Inr () \<Longrightarrow>
     validate_references (candidate (fl_key f) (fl_variants f) off ft rs) (set (segment_keys (en_id e) d)) = Inr () \<Longrightarrow>
     serves_on X d d'"
  by (rule serves_onI, rule create_flag_served update_segment_served update_flag_served upsert_config_served;
      assumption)+

interpretation served: management_writes S u "serves_on (sv_ext S)" for S u
proof (unfold_locales, goal_cases)
  case 1 show ?case by (simp add: serves_on_def)
qed (erule serves_writes serves_checked_writes, (assumption+)? |
     rule serves_other, erule db_step.intros, erule other_tables)+

end
