(* ===== verification/Sdk_Events.thy ===== *)
theory Sdk_Events
  imports Core_Snapshot "HOL-Library.AList" "HOL-Library.Multiset"
begin

text \<open>
  \<^verbatim>\<open>crates/sdk/src/events.rs\<close> and \<^verbatim>\<open>error.rs\<close>, with the flush of \<^verbatim>\<open>client.rs\<close>: the
  in-process counters of experiment events, the bounded map that holds them between two
  flushes, and the flush that ships them in batches. A flush runs concurrently with
  recordings and with other flushes, so beside the function the code executes there is a step
  relation over the moments at which another thread can act, with the invariant that no count
  is lost except by the two documented ways, the cell cap and the saturation of a batch entry.
\<close>

section \<open>Errors\<close>

datatype sdk_error =
    InvalidUrl string
  | Unauthorized string
  | Transport string
  | Api nat string
  | Malformed string

fun is_transient :: "sdk_error \<Rightarrow> bool" where
  "is_transient (Transport _) = True"
| "is_transient (Api status _) = (500 \<le> status \<or> status = 429)"
| "is_transient (InvalidUrl _) = False"
| "is_transient (Unauthorized _) = False"
| "is_transient (Malformed _) = False"

section \<open>The recorder\<close>

definition MAX_CELLS :: nat where
  "MAX_CELLS = 4096"

datatype event_kind = Exposure | Conversion

record cell =
  cell_experiment_key :: string
  cell_variant :: string
  cell_kind :: event_kind

record event_payload =
  ep_experiment_key :: string
  ep_variant :: string
  ep_kind :: event_kind
  ep_count :: u32

text \<open>
  The hash map is an association list without repeated keys; nothing depends on its order,
  since a drained map is handed to the network in an order the caller of the model chooses.
\<close>

record recorder =
  rec_counts :: "(cell \<times> u64) list"
  rec_dropped :: u64

definition recorder_default :: recorder where
  "recorder_default = \<lparr>rec_counts = [], rec_dropped = 0\<rparr>"

text \<open>The three-way decision shared by recording one event and by restoring a count.\<close>

definition add_count :: "cell \<Rightarrow> u64 \<Rightarrow> recorder \<Rightarrow> recorder" where
  "add_count cell n st =
     (case map_of (rec_counts st) cell of
        Some existing \<Rightarrow> st\<lparr>rec_counts := AList.update cell (existing + n) (rec_counts st)\<rparr>
      | None \<Rightarrow>
          if MAX_CELLS \<le> length (rec_counts st) then st\<lparr>rec_dropped := rec_dropped st + n\<rparr>
          else st\<lparr>rec_counts := AList.update cell n (rec_counts st)\<rparr>)"

definition recorder_record :: "string \<Rightarrow> string \<Rightarrow> event_kind \<Rightarrow> recorder \<Rightarrow> recorder" where
  "recorder_record experiment_key variant kind st =
     add_count \<lparr>cell_experiment_key = experiment_key, cell_variant = variant, cell_kind = kind\<rparr> 1 st"

definition recorder_drain :: "recorder \<Rightarrow> ((cell \<times> u64) list \<times> u64) \<times> recorder" where
  "recorder_drain st = ((rec_counts st, rec_dropped st), recorder_default)"

definition recorder_restore :: "(cell \<times> u64) list \<Rightarrow> recorder \<Rightarrow> recorder" where
  "recorder_restore counts st = fold (\<lambda>(cell, n). add_count cell n) counts st"

section \<open>The flush\<close>

definition MAX_EVENTS_PER_BATCH :: nat where
  "MAX_EVENTS_PER_BATCH = 1000"

text \<open>
  What the network gives back for one request: a failure of the transport, or a status with
  the body, whose text may itself fail to arrive.
\<close>

datatype http_result = SendFailed string | Response nat "string + string"

text \<open>Indexing a JSON value by a name: the member of an object, null for anything else.\<close>

fun json_index :: "json \<Rightarrow> string \<Rightarrow> json" where
  "json_index (JObject members) name =
     (case map_of (rev members) name of None \<Rightarrow> JNull | Some v \<Rightarrow> v)"
| "json_index _ name = JNull"

fun json_as_str :: "json \<Rightarrow> string option" where
  "json_as_str (JString s) = Some s"
| "json_as_str _ = None"

text \<open>The parser of the JSON crate is a parameter.\<close>

definition detail :: "(string \<Rightarrow> json option) \<Rightarrow> string \<Rightarrow> string" where
  "detail json_from_str body =
     (case Option.bind (json_from_str body) (\<lambda>problem. json_as_str (json_index problem ''title'')) of
        Some title \<Rightarrow> title
      | None \<Rightarrow> utf8_take 200 body)"

definition text_or_default :: "string + string \<Rightarrow> string" where
  "text_or_default t = (case t of Inl _ \<Rightarrow> [] | Inr s \<Rightarrow> s)"

definition post_events :: "(string \<Rightarrow> json option) \<Rightarrow> http_result \<Rightarrow> sdk_error + unit" where
  "post_events json_from_str result =
     (case result of
        SendFailed e \<Rightarrow> Inl (Transport e)
      | Response status body \<Rightarrow>
          if status = 401 \<or> status = 403
          then Inl (Unauthorized (detail json_from_str (text_or_default body)))
          else if \<not> (200 \<le> status \<and> status < 300)
          then Inl (Api status (detail json_from_str (text_or_default body)))
          else Inr ())"

text \<open>\<^verbatim>\<open>u32::try_from(count).unwrap_or(u32::MAX)\<close>.\<close>

definition saturate_u32 :: "u64 \<Rightarrow> u32" where
  "saturate_u32 n = (if unat n < 2 ^ 32 then ucast n else 2 ^ 32 - 1)"

definition payload :: "cell \<times> u64 \<Rightarrow> event_payload" where
  "payload cn =
     \<lparr>ep_experiment_key = cell_experiment_key (fst cn), ep_variant = cell_variant (fst cn),
      ep_kind = cell_kind (fst cn), ep_count = saturate_u32 (snd cn)\<rparr>"

text \<open>
  The loop over the chunks: \<open>cells\<close> is what is left from \<^verbatim>\<open>start\<close> on, \<open>net\<close> answers the
  successive requests. The result lists the batches that were posted.
\<close>

function flush_chunks ::
  "(string \<Rightarrow> json option) \<Rightarrow> http_result list \<Rightarrow> (cell \<times> u64) list \<Rightarrow> recorder \<Rightarrow>
     (sdk_error + unit) \<times> event_payload list list \<times> recorder" where
  "flush_chunks jp net cells st =
     (if cells = [] then (Inr (), [], st)
      else
        let events = map payload (take MAX_EVENTS_PER_BATCH cells);
            result = (case net of [] \<Rightarrow> SendFailed ''unreachable'' | r # _ \<Rightarrow> r)
        in case post_events jp result of
             Inl error \<Rightarrow> (Inl error, [events], recorder_restore cells st)
           | Inr _ \<Rightarrow>
               (let (r, batches, st') = flush_chunks jp (tl net) (drop MAX_EVENTS_PER_BATCH cells) st
                in (r, events # batches, st')))"
  by pat_completeness auto
termination
  by (relation "measure (\<lambda>(jp, net, cells, st). length cells)")
     (auto simp: MAX_EVENTS_PER_BATCH_def)

declare flush_chunks.simps [simp del]

text \<open>\<open>order\<close> is the iteration order of the hash map.\<close>

definition flush_events ::
  "(string \<Rightarrow> json option) \<Rightarrow> ((cell \<times> u64) list \<Rightarrow> (cell \<times> u64) list) \<Rightarrow> http_result list \<Rightarrow>
     recorder \<Rightarrow> (sdk_error + unit) \<times> event_payload list list \<times> recorder" where
  "flush_events jp order net st =
     (let ((counts, dropped), st') = recorder_drain st
      in if counts = [] then (Inr (), [], st') else flush_chunks jp net (order counts) st')"

lemmas events_defs [model_defs] =
  MAX_CELLS_def recorder_default_def add_count_def recorder_record_def recorder_drain_def
  recorder_restore_def MAX_EVENTS_PER_BATCH_def detail_def text_or_default_def post_events_def
  saturate_u32_def payload_def flush_events_def

section \<open>Interleavings\<close>

text \<open>
  The SDK as its threads see it: the shared recorder, the flushes under way (what each has
  still to send), and, as history, how many events were recorded, delivered (as counted by
  the server), reported dropped by the cap, and cut off by the 32-bit field.
\<close>

record sdk_world =
  w_recorder :: recorder
  w_flushes :: "(cell \<times> u64) list list"
  w_recorded :: nat
  w_delivered :: nat
  w_reported :: nat
  w_saturated :: nat

definition cells_sum :: "(cell \<times> u64) list \<Rightarrow> nat" where
  "cells_sum cs = sum_list (map (unat \<circ> snd) cs)"

definition batch_sum :: "event_payload list \<Rightarrow> nat" where
  "batch_sum es = sum_list (map (unat \<circ> ep_count) es)"

definition world_start :: sdk_world where
  "world_start =
     \<lparr>w_recorder = recorder_default, w_flushes = [], w_recorded = 0, w_delivered = 0,
      w_reported = 0, w_saturated = 0\<rparr>"

inductive sdk_step :: "sdk_world \<Rightarrow> sdk_world \<Rightarrow> bool" where
  step_record:
    "sdk_step w (w\<lparr>w_recorder := recorder_record k v kind (w_recorder w),
                   w_recorded := Suc (w_recorded w)\<rparr>)"
| step_drain:
    "recorder_drain (w_recorder w) = ((counts, dropped), st') \<Longrightarrow> mset cells = mset counts \<Longrightarrow>
     sdk_step w (w\<lparr>w_recorder := st', w_flushes := cells # w_flushes w,
                   w_reported := w_reported w + unat dropped\<rparr>)"
| step_sent:
    "w_flushes w = before @ cells # after \<Longrightarrow>
     chunk = take MAX_EVENTS_PER_BATCH cells \<Longrightarrow> events = map payload chunk \<Longrightarrow>
     sdk_step w (w\<lparr>w_flushes := before @ drop MAX_EVENTS_PER_BATCH cells # after,
                   w_delivered := w_delivered w + batch_sum events,
                   w_saturated := w_saturated w + (cells_sum chunk - batch_sum events)\<rparr>)"
| step_failed:
    "w_flushes w = before @ cells # after \<Longrightarrow>
     sdk_step w (w\<lparr>w_recorder := recorder_restore cells (w_recorder w),
                   w_flushes := before @ after\<rparr>)"

definition sdk_reachable :: "sdk_world \<Rightarrow> bool" where
  "sdk_reachable w = sdk_step\<^sup>*\<^sup>* world_start w"

inductive_cases sdk_stepE: "sdk_step w w'"

section \<open>Lemmas\<close>

definition rec_wf :: "recorder \<Rightarrow> bool" where
  "rec_wf st = (distinct (map fst (rec_counts st)) \<and> length (rec_counts st) \<le> MAX_CELLS)"

definition rec_total :: "recorder \<Rightarrow> nat" where
  "rec_total st = cells_sum (rec_counts st) + unat (rec_dropped st)"

lemma cells_sum_simps [simp]:
  "cells_sum [] = 0"
  "cells_sum ((c, n) # cs) = unat n + cells_sum cs"
  "cells_sum (cs @ ds) = cells_sum cs + cells_sum ds"
  by (simp_all add: cells_sum_def)

lemma cells_sum_mset: "mset cs = mset ds \<Longrightarrow> cells_sum cs = cells_sum ds"
proof -
  assume eq: "mset cs = mset ds"
  have "cells_sum xs = sum_mset (image_mset (unat \<circ> snd) (mset xs))" for xs
    by (simp only: cells_sum_def flip: mset_map sum_mset_sum_list)
  then show ?thesis by (simp only: eq)
qed

lemma cells_sum_take_drop: "cells_sum (take n cs) + cells_sum (drop n cs) = cells_sum cs"
  using cells_sum_simps(3) [of "take n cs" "drop n cs"] by simp

lemma update_new: "map_of al k = None \<Longrightarrow> AList.update k v al = al @ [(k, v)]"
  by (induction al) (auto split: if_splits)

lemma cells_sum_update_old:
  "map_of al k = Some old \<Longrightarrow>
     cells_sum (AList.update k v al) + unat old = cells_sum al + unat v"
  by (induction al) (auto split: if_splits)

lemma length_update_old: "map_of al k = Some old \<Longrightarrow> length (AList.update k v al) = length al"
  by (induction al) (auto split: if_splits)

lemma unat_add_u64: "unat a + unat b < 2 ^ 64 \<Longrightarrow> unat (a + b :: u64) = unat a + unat b"
  by (simp add: unat_word_ariths)

lemma unat_le_cells_sum: "map_of al k = Some n \<Longrightarrow> unat n \<le> cells_sum al"
  by (induction al) (auto split: if_splits)

lemma recorder_default_wf [simp]: "rec_wf recorder_default" "rec_total recorder_default = 0"
  by (simp_all add: rec_wf_def rec_total_def recorder_default_def)

lemma add_count_wf: "rec_wf st \<Longrightarrow> rec_wf (add_count c n st)"
  by (auto simp: rec_wf_def add_count_def length_update_old update_new distinct_update
      map_of_eq_None_iff split: option.splits)

lemma add_count_total:
  assumes "rec_total st + unat n < 2 ^ 64"
  shows "rec_total (add_count c n st) = rec_total st + unat n"
proof (cases "map_of (rec_counts st) c")
  case None
  have "unat (rec_dropped st + n) = unat (rec_dropped st) + unat n"
    using assms by (intro unat_add_u64) (simp add: rec_total_def)
  with None show ?thesis by (simp add: add_count_def rec_total_def update_new)
next
  case (Some old)
  then have "unat (old + n) = unat old + unat n"
    using assms unat_le_cells_sum [OF Some] by (intro unat_add_u64) (simp add: rec_total_def)
  with Some cells_sum_update_old [OF Some, of "old + n"] show ?thesis
    by (simp add: add_count_def rec_total_def)
qed

lemma recorder_restore_Nil [simp]: "recorder_restore [] st = st"
  and recorder_restore_Cons [simp]:
    "recorder_restore ((c, n) # cs) st = recorder_restore cs (add_count c n st)"
  by (simp_all add: recorder_restore_def)

lemma recorder_restore_wf: "rec_wf st \<Longrightarrow> rec_wf (recorder_restore cs st)"
  by (induction cs arbitrary: st) (auto simp: add_count_wf)

lemma recorder_restore_total:
  "rec_total st + cells_sum cs < 2 ^ 64 \<Longrightarrow>
     rec_total (recorder_restore cs st) = rec_total st + cells_sum cs"
proof (induction cs arbitrary: st)
  case (Cons x cs)
  obtain c n where x: "x = (c, n)" by force
  have "rec_total (add_count c n st) = rec_total st + unat n"
    using Cons.prems x by (intro add_count_total) simp
  with Cons x show ?case by simp
qed simp

text \<open>Restoring into an empty recorder what came out of one puts it back as it was.\<close>

lemma recorder_restore_append:
  assumes "distinct (map fst (rec_counts st @ cs))" and "length (rec_counts st @ cs) \<le> MAX_CELLS"
  shows "recorder_restore cs st = st\<lparr>rec_counts := rec_counts st @ cs\<rparr>"
  using assms
proof (induction cs arbitrary: st)
  case (Cons x cs)
  obtain c n where x: "x = (c, n)" by force
  have "map_of (rec_counts st) c = None"
    using Cons.prems(1) x by (auto simp: map_of_eq_None_iff)
  then have "add_count c n st = st\<lparr>rec_counts := rec_counts st @ [(c, n)]\<rparr>"
    using Cons.prems(2) by (simp add: add_count_def update_new)
  with Cons x show ?case by simp
qed simp

lemma saturate_u32_le: "unat (saturate_u32 n) \<le> unat n"
proof (cases "unat n < 2 ^ 32")
  case True
  then show ?thesis
    by (simp add: saturate_u32_def unsigned_ucast_eq take_bit_nat_less_eq_self)
next
  case False
  have "unat (2 ^ 32 - 1 :: u32) \<le> 2 ^ 32"
    using unat_u32_bound [of "2 ^ 32 - 1"] by simp
  with False show ?thesis by (simp add: saturate_u32_def)
qed

lemma saturate_u32_exact: "unat n < 2 ^ 32 \<Longrightarrow> unat (saturate_u32 n) = unat n"
  by (simp add: saturate_u32_def unsigned_ucast_eq take_bit_nat_eq_self_iff)

lemma batch_sum_le: "batch_sum (map payload cs) \<le> cells_sum cs"
  by (induction cs) (auto simp: batch_sum_def payload_def add_mono saturate_u32_le)

definition flushes_sum :: "(cell \<times> u64) list list \<Rightarrow> nat" where
  "flushes_sum fs = sum_list (map cells_sum fs)"

lemma flushes_sum_simps [simp]:
  "flushes_sum [] = 0"
  "flushes_sum (f # fs) = cells_sum f + flushes_sum fs"
  "flushes_sum (fs @ gs) = flushes_sum fs + flushes_sum gs"
  by (simp_all add: flushes_sum_def)

definition world_total :: "sdk_world \<Rightarrow> nat" where
  "world_total w =
     rec_total (w_recorder w) + flushes_sum (w_flushes w) + w_delivered w + w_reported w +
     w_saturated w"

definition world_inv :: "sdk_world \<Rightarrow> bool" where
  "world_inv w =
     (rec_wf (w_recorder w) \<and> (w_recorded w < 2 ^ 64 \<longrightarrow> world_total w = w_recorded w))"

lemma sdk_step_inv:
  assumes "sdk_step w w'" and "world_inv w"
  shows "world_inv w'"
  using assms
proof (induction rule: sdk_step.induct)
  case (step_record w k v kind)
  then have "w_recorded w < 2 ^ 64 - 1 \<longrightarrow> rec_total (w_recorder w) + unat (1 :: u64) < 2 ^ 64"
    by (auto simp: world_inv_def world_total_def)
  with step_record show ?case
    by (simp add: world_inv_def world_total_def recorder_record_def add_count_wf add_count_total)
next
  case (step_drain w counts dropped st' cells)
  then show ?case
    using cells_sum_mset [of cells counts]
    by (auto simp: world_inv_def world_total_def recorder_drain_def rec_total_def recorder_default_def rec_wf_def)
next
  case (step_sent w before cells after chunk events)
  then show ?case
    using cells_sum_take_drop [of MAX_EVENTS_PER_BATCH cells] batch_sum_le [of chunk]
    by (auto simp: world_inv_def world_total_def)
next
  case (step_failed w before cells after)
  then have "w_recorded w < 2 ^ 64 \<longrightarrow> rec_total (w_recorder w) + cells_sum cells < 2 ^ 64"
    by (auto simp: world_inv_def world_total_def)
  with step_failed show ?case
    by (auto simp: world_inv_def world_total_def recorder_restore_wf recorder_restore_total)
qed

lemma sdk_reachable_inv: "sdk_reachable w \<Longrightarrow> world_inv w"
  unfolding sdk_reachable_def
proof (induction rule: rtranclp_induct)
  case base
  show ?case by (simp add: world_inv_def world_total_def world_start_def)
next
  case (step w w')
  then show ?case by (blast intro: sdk_step_inv)
qed

lemma flush_chunks_spec:
  assumes "flush_chunks jp net cells st = (r, batches, st')"
  shows "list_all (\<lambda>b. length b \<le> MAX_EVENTS_PER_BATCH) batches \<and>
    (case r of
       Inr _ \<Rightarrow> concat batches = map payload cells \<and> st' = st
     | Inl _ \<Rightarrow> batches \<noteq> [] \<and>
         concat (butlast batches) = map payload (take (MAX_EVENTS_PER_BATCH * (length batches - 1)) cells) \<and>
         st' = recorder_restore (drop (MAX_EVENTS_PER_BATCH * (length batches - 1)) cells) st)"
  using assms
proof (induction jp net cells st arbitrary: r batches st' rule: flush_chunks.induct)
  case (1 jp net cells st)
  let ?r = "case net of [] \<Rightarrow> SendFailed ''unreachable'' | r # _ \<Rightarrow> r"
  show ?case
  proof (cases "cells = []")
    case True
    with 1(2) show ?thesis by (auto simp: flush_chunks.simps)
  next
    case False
    show ?thesis
    proof (cases "post_events jp ?r")
      case (Inl e)
      with 1(2) False have "r = Inl e" "st' = recorder_restore cells st"
        and "batches = [map payload (take MAX_EVENTS_PER_BATCH cells)]"
        by (subst (asm) flush_chunks.simps; simp add: Let_def)+
      then show ?thesis by simp
    next
      case (Inr u)
      obtain r2 b2 st2 where rest:
        "flush_chunks jp (tl net) (drop MAX_EVENTS_PER_BATCH cells) st = (r2, b2, st2)"
        by (metis prod_cases3)
      with 1(2) False Inr have "r = r2" "st' = st2"
        and b: "batches = map payload (take MAX_EVENTS_PER_BATCH cells) # b2"
        by (subst (asm) flush_chunks.simps; auto simp: Let_def)+
      with 1(1) [OF False refl refl Inr rest] show ?thesis
        by (cases b2)
           (auto simp: take_map drop_map take_add add.commute split: sum.splits simp flip: map_append)
    qed
  qed
qed

section \<open>Properties\<close>



text \<open>
  What a flush does to the recorder and to the wire, whatever order the map is iterated in
  and whatever the server answers: batches have at most 1000 entries; on success they carry
  every cell exactly once and the recorder is empty; on failure the batches before the failed
  one carry a prefix of the cells, and exactly the other cells, with their counts, are back in
  the recorder.
\<close>

theorem flush_events_outcome:
  assumes "distinct (map fst (rec_counts st))" and "length (rec_counts st) \<le> MAX_CELLS"
    and "mset (order (rec_counts st)) = mset (rec_counts st)"
    and "flush_events jp order net st = (r, batches, st')"
  shows "list_all (\<lambda>b. length b \<le> MAX_EVENTS_PER_BATCH) batches \<and>
    (case r of
       Inr _ \<Rightarrow> mset (concat batches) = mset (map payload (rec_counts st)) \<and> st' = recorder_default
     | Inl _ \<Rightarrow> \<exists>sent. mset (rec_counts st) = mset sent + mset (rec_counts st') \<and>
         concat (butlast batches) = map payload sent \<and> rec_dropped st' = 0)"
proof (cases "rec_counts st = []")
  case True
  with assms(4) show ?thesis by (auto simp: flush_events_def recorder_drain_def)
next
  case False
  let ?cells = "order (rec_counts st)"
  have run: "flush_chunks jp net ?cells recorder_default = (r, batches, st')"
    using assms(4) False by (simp add: flush_events_def recorder_drain_def)
  let ?n = "MAX_EVENTS_PER_BATCH * (length batches - 1)"
  have "mset (map fst ?cells) = mset (map fst (rec_counts st))" using assms(3) by (simp only: mset_map)
  then have distinct: "distinct (map fst ?cells)" using assms(1) by (metis mset_eq_imp_distinct_iff)
  have length: "length ?cells \<le> MAX_CELLS" using assms(2,3) by (metis mset_eq_length)
  have "recorder_restore (drop ?n ?cells) recorder_default =
      recorder_default\<lparr>rec_counts := rec_counts recorder_default @ drop ?n ?cells\<rparr>"
    by (rule recorder_restore_append)
       (use distinct length in \<open>auto simp: recorder_default_def drop_map [symmetric]\<close>)
  moreover have "mset (take ?n ?cells) + mset (drop ?n ?cells) = mset (rec_counts st)"
    using assms(3) by (simp flip: mset_append)
  ultimately show ?thesis
    using flush_chunks_spec [OF run] assms(3)
    by (auto simp: recorder_default_def split: sum.splits intro!: exI [of _ "take ?n ?cells"])
qed

theorem flush_events_outcome_witness:
  "rec_counts (snd (snd (flush_events (\<lambda>_. None) rev [SendFailed ''down'']
     (recorder_record ''exp'' ''on'' Exposure recorder_default)))) =
   [(\<lparr>cell_experiment_key = ''exp'', cell_variant = ''on'', cell_kind = Exposure\<rparr>, 1)]"
proof -
  let ?c = "\<lparr>cell_experiment_key = ''exp'', cell_variant = ''on'', cell_kind = Exposure\<rparr>"
  let ?st = "\<lparr>rec_counts = [(?c, 1)], rec_dropped = 0\<rparr>"
  have st: "recorder_record ''exp'' ''on'' Exposure recorder_default = ?st"
    by (simp add: recorder_record_def add_count_def recorder_default_def MAX_CELLS_def)
  obtain r batches st' where run:
    "flush_events (\<lambda>_. None) rev [SendFailed ''down''] ?st = (r, batches, st')"
    by (metis prod_cases3)
  moreover from this have "r = Inl (Transport ''down'')" and "length batches = 1"
    by (auto simp: flush_events_def recorder_drain_def flush_chunks.simps post_events_def Let_def)
  ultimately show ?thesis
    using flush_events_outcome [OF _ _ _ run]
    by (auto simp: st MAX_CELLS_def length_Suc_conv)
qed

text \<open>
  The documented promise that an outage does not lose counts has a limit: a cell that
  accumulated more than \<open>2 ^ 32 - 1\<close> events, which failed flushes let it do, is sent as
  \<open>2 ^ 32 - 1\<close> and the successful flush empties the recorder.
\<close>

theorem flush_saturation_loses_counts:
  "flush_events (\<lambda>_. None) rev [Response 202 (Inr [])]
     \<lparr>rec_counts = [(\<lparr>cell_experiment_key = ''e'', cell_variant = ''v'', cell_kind = Exposure\<rparr>, 5000000000)],
      rec_dropped = 0\<rparr> =
   (Inr (), [[\<lparr>ep_experiment_key = ''e'', ep_variant = ''v'', ep_kind = Exposure, ep_count = 4294967295\<rparr>]],
    recorder_default)"
  by (simp add: flush_events_def recorder_drain_def flush_chunks.simps post_events_def
      MAX_EVENTS_PER_BATCH_def payload_def saturate_u32_def)

end
