(* ===== verification/Sdk_Client.thy ===== *)
theory Sdk_Client
  imports Sdk_Events
begin

text \<open>
  \<^verbatim>\<open>crates/sdk/src/client.rs\<close>: the builder, fetching and storing a snapshot, reading flags,
  tracking conversions, and the background refresher with its backoff. Durations are natural
  numbers of nanoseconds; a multiplication beyond \<^verbatim>\<open>Duration::MAX\<close> panics, which is the
  result \<^const>\<open>None\<close>.
\<close>

section \<open>Definitions\<close>

abbreviation seconds :: "nat \<Rightarrow> nat" where
  "seconds n \<equiv> n * 10 ^ 9"

definition DEFAULT_POLL_INTERVAL :: nat where
  "DEFAULT_POLL_INTERVAL = seconds 30"

definition DEFAULT_TIMEOUT :: nat where
  "DEFAULT_TIMEOUT = seconds 5"

definition DEFAULT_EVENT_FLUSH_INTERVAL :: nat where
  "DEFAULT_EVENT_FLUSH_INTERVAL = seconds 10"

definition MAX_BACKOFF :: nat where
  "MAX_BACKOFF = seconds 60"

text \<open>\<^verbatim>\<open>Duration * 2\<close> is checked.\<close>

definition duration_mul :: "nat \<Rightarrow> nat \<Rightarrow> nat option" where
  "duration_mul d k = (if d * k < 2 ^ 64 * 10 ^ 9 then Some (d * k) else None)"

text \<open>The parsers of the JSON crate, for a generic value and for a snapshot.\<close>

record json_codec =
  json_value :: "string \<Rightarrow> json option"
  json_snapshot :: "string \<Rightarrow> string + environment_snapshot"

definition fetch :: "json_codec \<Rightarrow> http_result \<Rightarrow> sdk_error + environment_snapshot" where
  "fetch J result =
     (case result of
        SendFailed e \<Rightarrow> Inl (Transport e)
      | Response status (Inl e) \<Rightarrow> Inl (Transport e)
      | Response status (Inr body) \<Rightarrow>
          if status = 401 \<or> status = 403 then Inl (Unauthorized (detail (json_value J) body))
          else if \<not> (200 \<le> status \<and> status < 300)
          then Inl (Api status (detail (json_value J) body))
          else (case json_snapshot J body of
                  Inl e \<Rightarrow> Inl (Malformed e)
                | Inr snap \<Rightarrow> Inr snap))"

datatype background_task = Refresher nat | EventFlusher nat

record client =
  cl_url :: string
  cl_events_url :: string
  cl_key :: string
  cl_current :: "environment_snapshot option"
  cl_recorder :: recorder
  cl_tasks :: "background_task list option"

record client_builder =
  cb_base_url :: string
  cb_key :: string
  cb_poll_interval :: nat
  cb_event_flush_interval :: nat
  cb_request_timeout :: nat

definition builder :: "string \<Rightarrow> string \<Rightarrow> client_builder" where
  "builder base_url key =
     \<lparr>cb_base_url = base_url, cb_key = key, cb_poll_interval = DEFAULT_POLL_INTERVAL,
      cb_event_flush_interval = DEFAULT_EVENT_FLUSH_INTERVAL,
      cb_request_timeout = DEFAULT_TIMEOUT\<rparr>"

definition poll_interval :: "client_builder \<Rightarrow> nat \<Rightarrow> client_builder" where
  "poll_interval b interval = b\<lparr>cb_poll_interval := interval\<rparr>"

definition event_flush_interval :: "client_builder \<Rightarrow> nat \<Rightarrow> client_builder" where
  "event_flush_interval b interval = b\<lparr>cb_event_flush_interval := interval\<rparr>"

definition request_timeout :: "client_builder \<Rightarrow> nat \<Rightarrow> client_builder" where
  "request_timeout b timeout = b\<lparr>cb_request_timeout := timeout\<rparr>"

text \<open>\<open>http_build\<close> is the HTTP client's own constructor, given the timeout.\<close>

definition build ::
  "(nat \<Rightarrow> string + unit) \<Rightarrow> client_builder \<Rightarrow> sdk_error + client" where
  "build http_build b =
     (let base = trim_end_matches CHR ''/'' (cb_base_url b) in
      if \<not> starts_with base ''http://'' \<and> \<not> starts_with base ''https://''
      then Inl (InvalidUrl (cb_base_url b))
      else (case http_build (cb_request_timeout b) of
        Inl e \<Rightarrow> Inl (Transport e)
      | Inr _ \<Rightarrow>
          let tasks =
            (if cb_poll_interval b \<noteq> 0 then [Refresher (cb_poll_interval b)] else []) @
            (if cb_event_flush_interval b \<noteq> 0 then [EventFlusher (cb_event_flush_interval b)] else [])
          in Inr \<lparr>cl_url = base @ ''/api/v1/snapshot'', cl_events_url = base @ ''/api/v1/events'',
                  cl_key = cb_key b, cl_current = None, cl_recorder = recorder_default,
                  cl_tasks = (if tasks = [] then None else Some tasks)\<rparr>))"

definition store :: "environment_snapshot \<Rightarrow> client \<Rightarrow> client" where
  "store snap c = c\<lparr>cl_current := Some snap\<rparr>"

definition connect ::
  "(nat \<Rightarrow> string + unit) \<Rightarrow> json_codec \<Rightarrow> http_result \<Rightarrow> client_builder \<Rightarrow> sdk_error + client" where
  "connect http_build J result b =
     (case build http_build b of
        Inl e \<Rightarrow> Inl e
      | Inr c \<Rightarrow>
          (case fetch J result of
             Inl e \<Rightarrow> Inl e
           | Inr snap \<Rightarrow> Inr (store snap c)))"

definition connect_lazy ::
  "(nat \<Rightarrow> string + unit) \<Rightarrow> client_builder \<Rightarrow> sdk_error + client" where
  "connect_lazy http_build b = build http_build b"

definition is_ready :: "client \<Rightarrow> bool" where
  "is_ready c = (cl_current c \<noteq> None)"

definition client_version :: "client \<Rightarrow> int option" where
  "client_version c = map_option snap_version (cl_current c)"

definition client_environment :: "client \<Rightarrow> string option" where
  "client_environment c = map_option snap_environment_key (cl_current c)"

definition refresh :: "json_codec \<Rightarrow> http_result \<Rightarrow> client \<Rightarrow> (sdk_error + unit) \<times> client" where
  "refresh J result c =
     (case fetch J result of
        Inl e \<Rightarrow> (Inl e, c)
      | Inr snap \<Rightarrow> (Inr (), store snap c))"

text \<open>The loop that records an exposure for every running experiment on the flag.\<close>

definition record_exposures ::
  "experiment_spec list \<Rightarrow> string \<Rightarrow> string \<Rightarrow> recorder \<Rightarrow> recorder" where
  "record_exposures experiments flag variant st =
     fold (\<lambda>x st. if xs_flag_key x = flag then recorder_record (xs_key x) variant Exposure st else st)
       experiments st"

definition client_evaluate ::
  "('re, 'ver) externals \<Rightarrow> string \<Rightarrow> evaluation_context \<Rightarrow> variant_value \<Rightarrow> client \<Rightarrow>
     evaluation \<times> client" where
  "client_evaluate X flag ctx fallback c =
     (case cl_current c of
        Some snap \<Rightarrow>
          (let evaluation = snapshot_evaluate X snap flag ctx fallback
           in (evaluation,
               case ev_variant evaluation of
                 None \<Rightarrow> c
               | Some variant \<Rightarrow>
                   c\<lparr>cl_recorder :=
                       record_exposures (snap_experiments snap) flag variant (cl_recorder c)\<rparr>))
      | None \<Rightarrow> (evaluation_not_found flag fallback, c))"

definition is_enabled ::
  "('re, 'ver) externals \<Rightarrow> string \<Rightarrow> evaluation_context \<Rightarrow> bool \<Rightarrow> client \<Rightarrow> bool \<times> client" where
  "is_enabled X flag ctx fallback c =
     (let (e, c') = client_evaluate X flag ctx (VBool fallback) c
      in (unwrap_or (variant_as_bool (ev_value e)) fallback, c'))"

definition string_value ::
  "('re, 'ver) externals \<Rightarrow> string \<Rightarrow> evaluation_context \<Rightarrow> string \<Rightarrow> client \<Rightarrow> string \<times> client" where
  "string_value X flag ctx fallback c =
     (let (e, c') = client_evaluate X flag ctx (VString fallback) c
      in (unwrap_or (variant_as_str (ev_value e)) fallback, c'))"

definition number_value ::
  "('re, 'ver) externals \<Rightarrow> string \<Rightarrow> evaluation_context \<Rightarrow> f64 \<Rightarrow> client \<Rightarrow> f64 \<times> client" where
  "number_value X flag ctx fallback c =
     (let (e, c') = client_evaluate X flag ctx (VNumber fallback) c
      in (unwrap_or (variant_as_f64 (ev_value e)) fallback, c'))"

text \<open>The loop of \<^verbatim>\<open>track\<close>: the number of experiments credited and the recorder.\<close>

fun track_loop ::
  "('re, 'ver) externals \<Rightarrow> environment_snapshot \<Rightarrow> string \<Rightarrow> evaluation_context \<Rightarrow>
     experiment_spec list \<Rightarrow> nat \<times> recorder \<Rightarrow> nat \<times> recorder" where
  "track_loop X snap metric ctx [] acc = acc"
| "track_loop X snap metric ctx (x # xs) (credited, st) =
     (if xs_metric_key x \<noteq> metric then track_loop X snap metric ctx xs (credited, st)
      else (case ev_variant (snapshot_evaluate X snap (xs_flag_key x) ctx variant_null) of
        None \<Rightarrow> track_loop X snap metric ctx xs (credited, st)
      | Some variant \<Rightarrow>
          track_loop X snap metric ctx xs
            (Suc credited, recorder_record (xs_key x) variant Conversion st)))"

definition track ::
  "('re, 'ver) externals \<Rightarrow> string \<Rightarrow> evaluation_context \<Rightarrow> client \<Rightarrow> nat \<times> client" where
  "track X metric ctx c =
     (case cl_current c of
        None \<Rightarrow> (0, c)
      | Some snap \<Rightarrow>
          (let (credited, st) =
             track_loop X snap metric ctx (snap_experiments snap) (0, cl_recorder c)
           in (credited, c\<lparr>cl_recorder := st\<rparr>)))"

definition client_flush_events ::
  "json_codec \<Rightarrow> ((cell \<times> u64) list \<Rightarrow> (cell \<times> u64) list) \<Rightarrow> http_result list \<Rightarrow> client \<Rightarrow>
     (sdk_error + unit) \<times> event_payload list list \<times> client" where
  "client_flush_events J order net c =
     (let (r, batches, st) = flush_events (json_value J) order net (cl_recorder c)
      in (r, batches, c\<lparr>cl_recorder := st\<rparr>))"

definition client_evaluate_all ::
  "('re, 'ver) externals \<Rightarrow> evaluation_context \<Rightarrow> client \<Rightarrow> evaluation list" where
  "client_evaluate_all X ctx c =
     (case cl_current c of
        Some snap \<Rightarrow> snapshot_evaluate_all X snap ctx
      | None \<Rightarrow> [])"

text \<open>Stopping the background tasks: which of them are aborted.\<close>

definition shutdown :: "client \<Rightarrow> background_task list" where
  "shutdown c = (case cl_tasks c of None \<Rightarrow> [] | Some tasks \<Rightarrow> tasks)"

text \<open>Dropping a clone: \<open>strong_count\<close> is how many clones share the task list.\<close>

definition client_drop :: "nat \<Rightarrow> client \<Rightarrow> background_task list" where
  "client_drop strong_count c =
     (case cl_tasks c of
        None \<Rightarrow> []
      | Some tasks \<Rightarrow> if strong_count = 1 then tasks else [])"

text \<open>
  One round of the refresher after its sleep: the outcome of the fetch gives the next
  configuration and the next delay. A panic of the duration arithmetic ends the task.
\<close>

definition refresher_round ::
  "json_codec \<Rightarrow> nat \<Rightarrow> http_result \<Rightarrow> nat \<times> client \<Rightarrow> (nat \<times> client) option" where
  "refresher_round J interval result bc =
     (case bc of (backoff, c) \<Rightarrow>
        (case fetch J result of
           Inr snap \<Rightarrow> Some (interval, store snap c)
         | Inl error \<Rightarrow>
             if is_transient error
             then map_option (\<lambda>d. (min d MAX_BACKOFF, c)) (duration_mul backoff 2)
             else Some (MAX_BACKOFF, c)))"

fun refresher_rounds ::
  "json_codec \<Rightarrow> nat \<Rightarrow> http_result list \<Rightarrow> nat \<times> client \<Rightarrow> (nat \<times> client) option" where
  "refresher_rounds J interval [] bc = Some bc"
| "refresher_rounds J interval (r # rs) bc =
     Option.bind (refresher_round J interval r bc) (refresher_rounds J interval rs)"

definition spawn_refresher ::
  "json_codec \<Rightarrow> nat \<Rightarrow> http_result list \<Rightarrow> client \<Rightarrow> (nat \<times> client) option" where
  "spawn_refresher J interval answers c = refresher_rounds J interval answers (interval, c)"

lemmas client_defs [model_defs] =
  fetch_def builder_def build_def store_def connect_def connect_lazy_def is_ready_def
  client_version_def client_environment_def refresh_def record_exposures_def client_evaluate_def
  is_enabled_def string_value_def number_value_def track_def client_flush_events_def
  client_evaluate_all_def shutdown_def client_drop_def refresher_round_def

section \<open>Lemmas\<close>

lemma refresher_delay_bound:
  "refresher_rounds J interval rs (b, c) = Some (b', c') \<Longrightarrow> b \<le> max interval MAX_BACKOFF \<Longrightarrow>
     b' \<le> max interval MAX_BACKOFF"
proof (induction rs arbitrary: b c)
  case (Cons r rs)
  then obtain d c2 where step: "refresher_round J interval r (b, c) = Some (d, c2)"
    and rest: "refresher_rounds J interval rs (d, c2) = Some (b', c')"
    by (auto split: bind_splits)
  have "d \<le> max interval MAX_BACKOFF"
    using step by (auto simp: refresher_round_def split: sum.splits if_splits)
  with Cons.IH [OF rest] show ?case by simp
qed simp

lemma refresher_total:
  "b \<le> 2 ^ 63 * 10 ^ 9 - 1 \<Longrightarrow> interval \<le> 2 ^ 63 * 10 ^ 9 - 1 \<Longrightarrow>
     \<exists>r. refresher_rounds J interval rs (b, c) = Some r"
proof (induction rs arbitrary: b c)
  case (Cons r rs)
  have "\<exists>d c2. refresher_round J interval r (b, c) = Some (d, c2) \<and> d \<le> 2 ^ 63 * 10 ^ 9 - 1"
    using Cons.prems
    by (cases "fetch J r")
       (auto simp: refresher_round_def duration_mul_def MAX_BACKOFF_def min_def)
  then obtain d c2 where step: "refresher_round J interval r (b, c) = Some (d, c2)"
    and d: "d \<le> 2 ^ 63 * 10 ^ 9 - 1" by blast
  with Cons.IH [OF d Cons.prems(2)] show ?case by simp
qed simp

lemma store_store: "store s (store s' c) = store s c"
  by (simp add: store_def)

lemma refresher_serves_last:
  "refresher_rounds J interval rs (b, c) = Some (b', c') \<Longrightarrow>
     c' = c \<or> (\<exists>r \<in> set rs. \<exists>snap. fetch J r = Inr snap \<and> c' = store snap c)"
proof (induction rs arbitrary: b c)
  case (Cons r rs)
  then obtain d c2 where step: "refresher_round J interval r (b, c) = Some (d, c2)"
    and rest: "refresher_rounds J interval rs (d, c2) = Some (b', c')"
    by (auto split: bind_splits)
  have "c2 = c \<or> (\<exists>snap. fetch J r = Inr snap \<and> c2 = store snap c)"
    using step by (auto simp: refresher_round_def split: sum.splits if_splits)
  with Cons.IH [OF rest] show ?case by (metis list.set_intros store_store)
qed simp

lemma min_mult_saturates:
  assumes "1 \<le> k"
  shows "min (min a m * k) m = min (a * k) (m :: nat)"
proof (cases "a \<le> m")
  case False
  have "m * 1 \<le> m * k" using assms by (rule mult_le_mono2)
  moreover have "m * k \<le> a * k" using False by (intro mult_le_mono1) simp
  ultimately have "m \<le> m * k" and "m \<le> a * k" by linarith+
  with False show ?thesis by (simp add: min_absorb2)
qed (simp add: min_absorb1)

lemma refresher_transient_doubling:
  assumes "\<forall>r \<in> set rs. \<exists>e. fetch J r = Inl e \<and> is_transient e" and "b \<le> MAX_BACKOFF"
  shows "refresher_rounds J interval rs (b, c) = Some (min (b * 2 ^ length rs) MAX_BACKOFF, c)"
  using assms
proof (induction rs arbitrary: b)
  case Nil
  then show ?case by simp
next
  case (Cons r rs)
  then obtain e where e: "fetch J r = Inl e" "is_transient e" by auto
  let ?b = "min (b * 2) MAX_BACKOFF"
  have "refresher_round J interval r (b, c) = Some (?b, c)"
    using e Cons.prems(2) by (simp add: refresher_round_def duration_mul_def MAX_BACKOFF_def)
  moreover have "refresher_rounds J interval rs (?b, c) =
      Some (min (?b * 2 ^ length rs) MAX_BACKOFF, c)"
    using Cons by simp
  moreover have "min (?b * 2 ^ length rs) MAX_BACKOFF = min (b * 2 ^ length (r # rs)) MAX_BACKOFF"
    using min_mult_saturates [of "2 ^ length rs" "b * 2" MAX_BACKOFF] by (simp add: mult.assoc)
  ultimately show ?case by simp
qed

section \<open>Properties\<close>

text \<open>
  Whatever the server answers, the refresher leaves the client serving either the
  configuration it had or one that a successful fetch delivered, never anything else and
  never nothing; and for intervals below \<open>2 ^ 63\<close> seconds its arithmetic never panics, so it
  keeps running.
\<close>

theorem refresher_keeps_serving:
  assumes "interval < 2 ^ 63 * 10 ^ 9"
  shows "\<exists>delay c'. spawn_refresher J interval answers c = Some (delay, c') \<and>
    delay \<le> max interval MAX_BACKOFF \<and>
    (c' = c \<or> (\<exists>r \<in> set answers. \<exists>snap. fetch J r = Inr snap \<and> c' = store snap c)) \<and>
    (is_ready c \<longrightarrow> is_ready c')"
proof -
  obtain delay c' where run: "spawn_refresher J interval answers c = Some (delay, c')"
    using refresher_total [of interval interval J answers c] assms
    unfolding spawn_refresher_def by auto
  have "c' = c \<or> (\<exists>r \<in> set answers. \<exists>snap. fetch J r = Inr snap \<and> c' = store snap c)"
    using refresher_serves_last run unfolding spawn_refresher_def by blast
  moreover have "delay \<le> max interval MAX_BACKOFF"
    using refresher_delay_bound run unfolding spawn_refresher_def by (metis max.cobounded1)
  ultimately show ?thesis using run by (auto simp: is_ready_def store_def)
qed

definition demo_client :: client where
  "demo_client =
     \<lparr>cl_url = ''http://ff/api/v1/snapshot'', cl_events_url = ''http://ff/api/v1/events'',
      cl_key = ''k'', cl_current = Some (snapshot_new 1 ''prod'' ''s'' [demo_targeted_flag] [] 0),
      cl_recorder = recorder_default, cl_tasks = None\<rparr>"

definition demo_codec :: json_codec where
  "demo_codec = \<lparr>json_value = (\<lambda>_. None), json_snapshot = (\<lambda>_. Inl ''eof'')\<rparr>"

theorem refresher_keeps_serving_witness:
  "\<exists>delay c'. spawn_refresher demo_codec DEFAULT_POLL_INTERVAL
      [SendFailed ''down'', Response 401 (Inr ''no'')] demo_client = Some (delay, c') \<and> is_ready c'"
  using refresher_keeps_serving [of DEFAULT_POLL_INTERVAL demo_codec
      "[SendFailed ''down'', Response 401 (Inr ''no'')]" demo_client]
  by (auto simp: DEFAULT_POLL_INTERVAL_def is_ready_def demo_client_def)

text \<open>
  The backoff doubles: after \<open>k\<close> transient failures in a row, starting from an interval of
  at most a minute, the delay is the interval times \<open>2 ^ k\<close>, capped at sixty seconds.
\<close>

theorem backoff_doubles:
  assumes "interval \<le> MAX_BACKOFF"
    and "\<forall>r \<in> set answers. \<exists>e. fetch J r = Inl e \<and> is_transient e"
  shows "spawn_refresher J interval answers c =
    Some (min (interval * 2 ^ length answers) MAX_BACKOFF, c)"
  using refresher_transient_doubling [OF assms(2,1)] by (simp add: spawn_refresher_def)

theorem backoff_doubles_witness:
  "spawn_refresher demo_codec (seconds 10) [SendFailed ''a'', SendFailed ''b''] demo_client =
     Some (seconds 40, demo_client)"
  using backoff_doubles [of "seconds 10" "[SendFailed ''a'', SendFailed ''b'']" demo_codec demo_client]
  by (simp add: MAX_BACKOFF_def fetch_def)

text \<open>
  The cap undercuts long intervals: with a poll interval above sixty seconds, one failed
  fetch makes the client poll more often than it does when the server is healthy.
\<close>

theorem backoff_shortens_long_intervals:
  assumes "MAX_BACKOFF < interval" and "interval < 2 ^ 63 * 10 ^ 9"
  shows "spawn_refresher J interval [SendFailed e] c = Some (MAX_BACKOFF, c)"
  using assms by (simp add: spawn_refresher_def refresher_round_def fetch_def duration_mul_def)

theorem backoff_shortens_long_intervals_witness:
  "spawn_refresher demo_codec (seconds 300) [SendFailed ''down''] demo_client =
     Some (seconds 60, demo_client)"
  using backoff_shortens_long_intervals [of "seconds 300" demo_codec "''down''" demo_client]
  by (simp add: MAX_BACKOFF_def)

text \<open>
  A client that has not loaded a configuration answers every question with the caller's
  own fallback and records nothing.
\<close>

theorem unloaded_client_serves_fallback:
  assumes "cl_current c = None"
  shows "is_enabled X flag ctx b c = (b, c) \<and> string_value X flag ctx s c = (s, c) \<and>
    number_value X flag ctx n c = (n, c) \<and> track X metric ctx c = (0, c) \<and>
    client_evaluate_all X ctx c = []"
  using assms
  by (simp add: is_enabled_def string_value_def number_value_def track_def client_evaluate_def
      client_evaluate_all_def evaluation_not_found_def unwrap_or_def)

theorem unloaded_client_serves_fallback_witness:
  "is_enabled demo_externals ''f'' demo_context True (demo_client\<lparr>cl_current := None\<rparr>) =
     (True, demo_client\<lparr>cl_current := None\<rparr>)"
  by (rule unloaded_client_serves_fallback [THEN conjunct1]) simp

lemma add_count_other:
  "c \<noteq> c' \<Longrightarrow> map_of (rec_counts (add_count c' n st)) c = map_of (rec_counts st) c"
  by (auto simp: add_count_def update_conv' split: option.splits)

lemma record_conversion_exposures:
  "cell_kind cell = Exposure \<Longrightarrow>
     map_of (rec_counts (recorder_record k v Conversion st)) cell = map_of (rec_counts st) cell"
  unfolding recorder_record_def by (rule add_count_other) (cases cell, simp)

lemma track_loop_exposures:
  "cell_kind cell = Exposure \<Longrightarrow>
     map_of (rec_counts (snd (track_loop X snap metric ctx xs acc))) cell =
     map_of (rec_counts (snd acc)) cell"
  by (induction X snap metric ctx xs acc rule: track_loop.induct)
     (auto simp: record_conversion_exposures split: option.splits)

lemma track_loop_credited:
  "fst (track_loop X snap metric ctx xs acc) = fst acc +
     length (filter (\<lambda>x. xs_metric_key x = metric \<and>
       ev_variant (snapshot_evaluate X snap (xs_flag_key x) ctx variant_null) \<noteq> None) xs)"
  by (induction X snap metric ctx xs acc rule: track_loop.induct) (auto split: option.splits)

text \<open>
  Attributing a conversion never counts an exposure: tracking a metric changes only
  conversion cells of the recorder, and the number it returns is the number of running
  experiments on that metric whose flag assigns the context a variant.
\<close>

theorem track_counts_only_conversions:
  assumes "cl_current c = Some snap"
  shows "fst (track X metric ctx c) =
      length (filter (\<lambda>x. xs_metric_key x = metric \<and>
        ev_variant (snapshot_evaluate X snap (xs_flag_key x) ctx variant_null) \<noteq> None)
        (snap_experiments snap)) \<and>
    (\<forall>cell. cell_kind cell = Exposure \<longrightarrow>
       map_of (rec_counts (cl_recorder (snd (track X metric ctx c)))) cell =
       map_of (rec_counts (cl_recorder c)) cell) \<and>
    cl_current (snd (track X metric ctx c)) = cl_current c"
  using assms
    track_loop_credited [of X snap metric ctx "snap_experiments snap" "(0, cl_recorder c)"]
    track_loop_exposures [of _ X snap metric ctx "snap_experiments snap" "(0, cl_recorder c)"]
  by (simp add: track_def split_beta)

theorem track_counts_only_conversions_witness:
  "fst (track demo_externals ''paid'' demo_context demo_client) = 0"
  using track_counts_only_conversions [of demo_client
      "snapshot_new 1 ''prod'' ''s'' [demo_targeted_flag] [] 0" demo_externals "''paid''" demo_context]
  by (simp add: demo_client_def snapshot_new_def Let_def)

end
