(* ===== verification/Sdk_Server.thy ===== *)
theory Sdk_Server
  imports Api_Evaluate Api_Accounts Sdk_Client
begin

text \<open>
  The SDK against the server: what a client computes from a downloaded configuration is what
  the evaluation routes answer, and what it flushes is what the counters gain.
\<close>

section \<open>Local evaluation\<close>

text \<open>Deserialising a snapshot: the response of the route has the fields of the engine's type.\<close>

definition snapshot_of_response :: "snapshot_response \<Rightarrow> environment_snapshot" where
  "snapshot_of_response r =
     \<lparr>snap_environment_id = sr_environment_id r, snap_environment_key = sr_environment_key r,
      snap_salt = sr_salt r, snap_flags = sr_flags r, snap_segments = sr_segments r,
      snap_experiments = sr_experiments r, snap_version = sr_version r, snap_generated_at = sr_generated_at r\<rparr>"

lemma routes_snapshot_serves_cached:
  assumes "routes_snapshot rq identity s = (Inr resp, s1)"
  shows "cached (app_cache s1) (ki_environment_id identity) = Some (snapshot_of_response resp)"
    and "ki_scope identity \<noteq> Client" and "app_db s1 = app_db s"
  using assms
  by (auto simp: routes_snapshot_def h_bind_def h_check_def h_cache_get_def h_return_def snapshot_of_response_def
      map_err_def dest!: cache_get_caches split: if_splits sum.splits prod.splits)

lemma h_cache_get_cached:
  "cached (app_cache s) eid = Some snap \<Longrightarrow> h_cache_get now eid s = (Inr snap, s)"
  by (simp add: h_cache_get_def cache_get_cached)

text \<open>
  C4. Local evaluation agrees with the server. A client that has fetched the configuration with
  a server-scoped key decides every flag for every context as the evaluation routes do, with the
  same value, variant and reason, for as long as the server serves that snapshot; evaluating all
  flags, or a requested list, gives the same decisions in the same order. The hypothesis on the
  decoder is that it reads the fields the response was written with.
\<close>

theorem local_evaluation_agrees:
  fixes S :: "('re, 'ver) services"
  assumes "routes_snapshot rq identity s = (Inr resp, s1)"
    and "json_snapshot J body = Inr (snapshot_of_response resp)"
    and "cached (app_cache s2) (ki_environment_id identity) = cached (app_cache s1) (ki_environment_id identity)"
    and "check_context ctx = Inr ()"
    and "refresh J (Response 200 (Inr body)) c = (outcome, here)"
  shows "(\<exists>m. fst (routes_evaluate_one S rq' identity fkey \<lparr>eo_context = ctx, eo_default = Some fallback\<rparr> s2) =
        Inr (fst (client_evaluate (sv_ext S) fkey ctx fallback here), m)) \<and>
    (\<exists>m. fst (routes_evaluate_all S rq' identity \<lparr>eq_context = ctx, eq_flags = None\<rparr> s2) =
        Inr (\<lparr>es_environment = sr_environment_key resp, es_version = sr_version resp,
              es_evaluations = client_evaluate_all (sv_ext S) ctx here\<rparr>, m)) \<and>
    (length requested \<le> MAX_REQUESTED_FLAGS \<longrightarrow>
      (\<exists>m. fst (routes_evaluate_all S rq' identity \<lparr>eq_context = ctx, eq_flags = Some requested\<rparr> s2) =
        Inr (\<lparr>es_environment = sr_environment_key resp, es_version = sr_version resp,
              es_evaluations = map (\<lambda>k. fst (client_evaluate (sv_ext S) k ctx variant_null here)) requested\<rparr>, m)))"
proof -
  have "h_cache_get now (ki_environment_id identity) s2 = (Inr (snapshot_of_response resp), s2)" for now
    using routes_snapshot_serves_cached(1) [OF assms(1)] assms(3) by (intro h_cache_get_cached) simp
  moreover have "cl_current here = Some (snapshot_of_response resp)"
    using assms(2,5) by (auto simp: refresh_def fetch_def store_def)
  ultimately show ?thesis
    using assms(4)
    by (simp add: routes_evaluate_one_def routes_evaluate_all_def h_bind_def h_check_def h_return_def Let_def
        unwrap_or_def client_evaluate_def client_evaluate_all_def snapshot_of_response_def)
qed

section \<open>Flushed counts\<close>

fun counter_kind_of :: "event_kind \<Rightarrow> counter_kind" where
  "counter_kind_of Exposure = CExposure"
| "counter_kind_of Conversion = CConversion"

text \<open>Deserialising an event: an SDK never sends a timestamp.\<close>

definition event_of_payload :: "event_payload \<Rightarrow> event_delta" where
  "event_of_payload p =
     \<lparr>ed_experiment_key = ep_experiment_key p, ed_variant = ep_variant p, ed_kind = counter_kind_of (ep_kind p),
      ed_count = ep_count p, ed_at = None\<rparr>"

lemma counter_kind_of_inject [simp]: "counter_kind_of a = counter_kind_of b \<longleftrightarrow> a = b"
  by (cases a; cases b) simp_all

lemma uint_saturate: "unat n < 2 ^ 32 \<Longrightarrow> uint (saturate_u32 n) = int (unat n)"
  by (metis saturate_u32_exact uint_nat)

lemma batch_sum_chunk:
  assumes "distinct (map fst chunk)" and "\<forall>(c, n) \<in> set chunk. unat n < 2 ^ 32" and "trunc now = Some h"
  shows "batch_sum_of trunc (map (\<lambda>e. \<lparr>cd_experiment_key = ed_experiment_key e, cd_variant = ed_variant e,
      cd_kind = ed_kind e, cd_at = unwrap_or (ed_at e) now, cd_count = ed_count e\<rparr>) (map (event_of_payload \<circ> payload) chunk))
      key v (counter_kind_of k) h =
    (case map_of chunk \<lparr>cell_experiment_key = key, cell_variant = v, cell_kind = k\<rparr> of None \<Rightarrow> 0 | Some n \<Rightarrow> int (unat n))"
  using assms
proof (induction chunk)
  case (Cons cn chunk)
  obtain c n where cn: "cn = (c, n)" by (cases cn)
  let ?cell = "\<lparr>cell_experiment_key = key, cell_variant = v, cell_kind = k\<rparr>"
  have "map_of chunk c = None" using Cons.prems(1) by (simp add: cn map_of_eq_None_iff)
  moreover have "uint (saturate_u32 n) = int (unat n)" using Cons.prems(2) by (simp add: cn uint_saturate)
  moreover have "c = ?cell \<longleftrightarrow> cell_experiment_key c = key \<and> cell_variant c = v \<and> cell_kind c = k" by (cases c) simp
  moreover note Cons.IH Cons.prems
  ultimately show ?case
    by (cases "c = ?cell") (auto simp: cn batch_sum_of_def event_of_payload_def payload_def unwrap_or_def)
qed (simp add: batch_sum_of_def)

lemma ingest_outcome:
  "collapse trunc deltas [] = Inr cells \<Longrightarrow>
     ingest_counters trunc eid deltas d = Inl (Database ''22003'') \<or> (\<exists>n d'. ingest_counters trunc eid deltas d = Inr (n, d'))"
  by (simp add: ingest_counters_def Let_def)


section \<open>Witnesses\<close>

definition demo_identity :: key_identity where
  "demo_identity = \<lparr>ki_api_key_id = 1, ki_environment_id = 3, ki_project_id = 2, ki_organization_id = 1,
     ki_scope = Server\<rparr>"

lemma demo_snapshot_runs: "\<exists>resp s1. routes_snapshot demo_request demo_identity (app_new demo_db) = (Inr resp, s1)"
proof -
  have "3 \<in> env_ids demo_db" by (simp add: env_ids_def demo_db_def)
  with load_exists [of 3 demo_db 100000000] show ?thesis
    by (auto simp: routes_snapshot_def h_bind_def h_check_def h_cache_get_def h_return_def demo_identity_def
        demo_request_def app_new_def cache_get_def slot_def snapshot_cache_new_def)
qed

theorem local_evaluation_agrees_witness:
  "\<exists>resp s1 here. routes_snapshot demo_request demo_identity (app_new demo_db) = (Inr resp, s1) \<and>
     (\<exists>m. fst (routes_evaluate_one demo_services demo_request demo_identity ''f''
         \<lparr>eo_context = demo_context, eo_default = Some variant_null\<rparr> s1) =
       Inr (fst (client_evaluate demo_externals ''f'' demo_context variant_null here), m))"
proof -
  obtain resp s1 where run: "routes_snapshot demo_request demo_identity (app_new demo_db) = (Inr resp, s1)"
    using demo_snapshot_runs by blast
  let ?J = "demo_codec\<lparr>json_snapshot := \<lambda>_. Inr (snapshot_of_response resp)\<rparr>"
  have "check_context demo_context = Inr ()" by code_simp
  moreover have "sv_ext demo_services = demo_externals" by (simp add: demo_services_def)
  ultimately show ?thesis
    using run local_evaluation_agrees [OF run, of ?J "[]" s1 demo_context, OF _ refl _ surjective_pairing,
        of demo_services demo_request "''f''" variant_null demo_client "[]", THEN conjunct1]
    by (auto simp: demo_codec_def)
qed

definition demo_chunk :: "(cell \<times> u64) list" where
  "demo_chunk = [(\<lparr>cell_experiment_key = ''exp'', cell_variant = ''on'', cell_kind = Exposure\<rparr>, 5)]"


end
