(* ===== verification/Api_Effects.thy ===== *)
theory Api_Effects
  imports Api_Evaluable Sdk_Server
begin

text \<open>
  What an SDK sees after a management request on the same server: the configuration it is
  served is valid, a change is served at once, and a key works until it is revoked.
\<close>

section \<open>Requests of every kind keep the invariant\<close>

lemma served_management:
  assumes "served_inv (sv_ext S) (app_db s)" and "seedable (sv_ext S) (app_db s)"
  shows "served_inv (sv_ext S) (app_db (snd (management S rq u r s)))"
proof -
  have "served_inv (sv_ext S) d'" if "audited_by u d d'" "served_inv (sv_ext S) d" for d d'
    using that served_other [OF _ step_audit_record other_tables(9)] by (auto simp: audited_by_def)
  then show ?thesis
    using served.management_outcome [of u S r rq, unfolded outcome_def, rule_format, of s] assms
    by (auto simp: holds_def serves_on_def split: prod.splits sum.splits if_splits)
qed

definition keeps_served :: "('re, 'ver) externals \<Rightarrow> 'a handler \<Rightarrow> bool" where
  "keeps_served X m = (\<forall>s. served_inv X (app_db s) \<longrightarrow> served_inv X (app_db (snd (m s))))"

lemma keeps_served_holds:
  "(\<And>s. served_inv X (app_db s) \<Longrightarrow> holds m (\<lambda>_ s'. served_inv X (app_db s')) (\<lambda>_ s'. served_inv X (app_db s')) s) \<Longrightarrow>
     keeps_served X m"
  by (simp add: keeps_served_def holds_snd [where P = "\<lambda>s'. served_inv X (app_db s')"])

lemma keeps_served_bind: "keeps_served X m \<Longrightarrow> (\<And>x. keeps_served X (f x)) \<Longrightarrow> keeps_served X (h_bind m f)"
  unfolding keeps_served_def h_bind_def by (fastforce split: prod.splits sum.splits)

lemma keeps_served_sdk: "keeps_served X (sdk S rq i r)"
  by (cases r)
     (auto simp: routes_evaluate_all_def routes_evaluate_one_def routes_snapshot_def ingest_def wp Let_def respond_def
       intro!: keeps_served_holds intro: served_other [OF _ step_ingest other_tables(11)])

lemma keeps_served_identity: "keeps_served X (h_sdk_identity S rq)"
  by (rule keeps_served_holds) (auto simp: wp intro: served_other [OF _ step_touch_api_key other_tables(12)])

lemma keeps_served_try_slugs: "keeps_served X (try_slugs S rq base name email h ns)"
  by (induction ns)
     (auto simp: keeps_served_def split: sum.splits storage_error.splits prod.splits
       intro: served_other [OF _ step_create_organization other_tables(10)])

lemma keeps_served_public: "keeps_served X (public S rq r)"
proof (cases r)
  case (Register b)
  have "keeps_served X (issue_session S rq u)" "keeps_served X (h_return v)" "keeps_served X (h_check c)" for u v c
    by (auto intro!: keeps_served_holds simp: wp issue_session_def)
  then show ?thesis
    by (auto simp: Register register_def Let_def register_with_free_slug_def respond_def
        intro!: keeps_served_bind keeps_served_try_slugs split: prod.split) (simp_all add: keeps_served_def h_return_def h_check_def)
next
  case (Login b)
  have "keeps_served X (login S rq b)"
    by (rule keeps_served_holds) (auto simp: wp login_def issue_session_def Let_def split: option.splits bool.splits)
  moreover have "keeps_served X (h_return (200 :: nat))" by (rule keeps_served_holds) (simp add: wp)
  ultimately show ?thesis by (simp add: Login respond_def keeps_served_bind)
qed

lemma served_limited:
  assumes "served_inv (sv_ext S) (app_db s)" and "seedable (sv_ext S) (app_db s)"
  shows "served_inv (sv_ext S) (app_db (snd (limited S rq r s)))"
proof (cases r)
  case (Management x)
  then show ?thesis
    using served_management [OF assms] assms(1)
    by (auto simp: h_bind_def h_check_def split: sum.splits)
next
  case (Sdk x)
  have "keeps_served (sv_ext S) (limited S rq r)"
    by (simp add: Sdk keeps_served_bind keeps_served_identity keeps_served_sdk)
  with assms(1) show ?thesis by (simp add: keeps_served_def)
next
  case (Public x)
  have "keeps_served (sv_ext S) (limited S rq r)" by (simp add: Public keeps_served_public)
  with assms(1) show ?thesis by (simp add: keeps_served_def)
qed (use assms(1) in simp)

section \<open>Valid configuration\<close>

lemma segment_refs_known:
  assumes "segment_refs_resolve d" and "c \<in> set (db_configs d)"
    and "\<And>k. (\<exists>r \<in> set (db_segments d). sg_environment_id r = fc_environment_id c \<and> sg_key r = k) \<Longrightarrow> k \<in> known"
  shows "validate_references (flag_of (f, c)) known = Inr ()"
proof -
  have "set (rule_references r) \<subseteq> known" if "r \<in> set (fc_rules c)" for r
    using assms that unfolding segment_refs_resolve_def by blast
  then have "rule_segments r = None \<or> is_some_and (rule_segments r) (\<lambda>m. set (segment_match_referenced m) \<subseteq> known)"
    if "r \<in> set (fc_rules c)" for r
    using that by (cases "rule_segments r") (fastforce simp: rule_references_def is_some_and_def)+
  then show ?thesis
    by (simp add: validate_references_def check_references_Nil list_all_iff flag_of_def)
qed

lemma loaded_is_valid:
  assumes "served_inv X d" and "load now eid d = Inr snap" and get: "snapshot_get snap k = Some f"
  shows "validate X f = Inr ()" and "validate_references f (set (map fst (snap_segments snap))) = Inr ()"
proof -
  note inv = served_invD [OF assms(1)]
  obtain e where e: "e \<in> set (db_environments d)" "en_id e = eid"
    using assms(2) by (auto simp: load_def and_then_Inr dest!: find_SomeD)
  note finds = load_finds [OF inv(1,2) e(1) assms(2) [folded e(2)]]
  obtain r c where r: "r \<in> set (db_flags d)" "c \<in> set (db_configs d)" "fc_flag_id c = fl_id r"
      "fc_environment_id c = en_id e" and f: "f = flag_of (r, c)"
    using get finds(1) by blast
  have "sound X r (fc_off_variant c) (fc_fallthrough c) (fc_rules c)"
    using inv(4) r(1-3) unfolding configs_sound_def by blast
  then show "validate X f = Inr ()" by (auto simp: f flag_of_def sound_def validate_def Let_def split: if_splits)
  have "k \<in> set (map fst (snap_segments snap))"
    if here: "\<exists>r \<in> set (db_segments d). sg_environment_id r = fc_environment_id c \<and> sg_key r = k" for k
  proof -
    obtain s where "snapshot_segment snap k = Some s" using here finds(2) r(4) by auto
    then show ?thesis by (auto simp: snapshot_segment_def bt_get_def dest: map_of_SomeD intro: rev_image_eqI)
  qed
  then show "validate_references f (set (map fst (snap_segments snap))) = Inr ()"
    unfolding f by (rule segment_refs_known [OF inv(3) r(2)])
qed


section \<open>A change is served at once\<close>

lemma load_audit:
  "audit_record t entry d = Inr (n, d') \<Longrightarrow> load now eid d' = load now eid d"
  using audit_record_eq [of t entry d n d']
  by (auto simp: load_def load_environment_flags_def load_environment_segments_def load_running_experiments_def
      list_segments_def experiment_query_def)

text \<open>After a refresh, a read of the cache returns the outcome of a load, older than the read or not.\<close>

lemma get_after_refresh:
  assumes "load now eid d = Inr loaded"
  shows "\<exists>t c'. cache_get (load now' eid d) eid (cache_refresh (load now eid d) eid c) = (load t eid d, c')"
proof (cases "map_of (sc_slots c) eid")
  case None
  then have "cached (cache_refresh (load now eid d) eid c) eid = None" by (simp add: cache_refresh_def cached_def)
  then show ?thesis by (auto simp: cache_get_cases split: sum.splits) metis+
next
  case (Some v)
  then have "cached (cache_refresh (load now eid d) eid c) eid = Some loaded"
    using assms by (simp add: cache_refresh_def)
  then show ?thesis using assms by (simp add: cache_get_cases) metis
qed

text \<open>
  C3. A change is served at once, and the kill switch works. When the update of a flag's
  configuration succeeds, the next evaluation of that flag by an SDK of that environment on the
  same server decides with exactly the submitted configuration, whether or not the environment
  was cached; if the update disabled the flag, the answer is its off variant with the reason that
  it is off, for every context.
\<close>

theorem change_is_served_at_once:
  fixes S :: "('re, 'ver) services"
  assumes "served_inv (sv_ext S) (app_db s)"
    and run: "flags_update_config S rq u pk ek fk b s = (Inr c, s')"
    and "find_project (caller_org u) pk (app_db s) = Inr p" and "find_flag (prj_id p) fk (app_db s) = Inr f"
    and "\<not> fl_archived f" and "ki_environment_id identity = fc_environment_id c" and "check_context ctx = Inr ()"
  shows "\<exists>snap e m. fst (routes_evaluate_one S rq' identity fk \<lparr>eo_context = ctx, eo_default = fallback\<rparr> s') = Inr (e, m) \<and>
    snapshot_get snap fk = Some (flag_of (f, c)) \<and> e = evaluate (sv_ext S) (flag_of (f, c)) ctx (snapshot_env snap) \<and>
    fc_enabled c = uc_enabled b \<and> fc_off_variant c = uc_off_variant b \<and> fc_fallthrough c = uc_fallthrough b \<and>
    fc_rules c = uc_rules b \<and>
    (uc_enabled b \<or> ev_reason e = Off \<and> ev_variant e = Some (uc_off_variant b))"
proof -
  let ?X = "sv_ext S"
  have f: "f \<in> set (db_flags (app_db s))" "fl_key f = fk"
    using assms(4) by (auto simp: find_flag_def dest: find_SomeD)
  have "holds (flags_update_config S rq u pk ek fk b) (\<lambda>c s'. \<exists>e d t t' entry n.
      find_environment (prj_id p) ek (app_db s) = Inr e \<and>
      validate ?X (candidate (fl_key f) (fl_variants f) (uc_off_variant b) (uc_fallthrough b) (uc_rules b)) = Inr () \<and>
      validate_references (candidate (fl_key f) (fl_variants f) (uc_off_variant b) (uc_fallthrough b) (uc_rules b))
        (set (segment_keys (en_id e) (app_db s))) = Inr () \<and>
      upsert_config ?X t (fl_id f) (en_id e) (uc_enabled b) (uc_off_variant b) (uc_fallthrough b) (uc_rules b)
        (uc_expected_version b) (app_db s) = Inr (c, d) \<and> audit_record t' entry d = Inr (n, app_db s') \<and>
      app_cache s' = cache_refresh (load (rq_clock rq 1) (en_id e) d) (en_id e) (app_cache s)) (\<lambda>_ _. True) s"
    by (auto simp: flags_update_config_def wp validate_evaluable_Inr assms(3,4))
  then obtain e d t t' entry n where e: "find_environment (prj_id p) ek (app_db s) = Inr e"
    and valid: "validate ?X (candidate (fl_key f) (fl_variants f) (uc_off_variant b) (uc_fallthrough b) (uc_rules b)) = Inr ()"
      "validate_references (candidate (fl_key f) (fl_variants f) (uc_off_variant b) (uc_fallthrough b) (uc_rules b))
        (set (segment_keys (en_id e) (app_db s))) = Inr ()"
    and w: "upsert_config ?X t (fl_id f) (en_id e) (uc_enabled b) (uc_off_variant b) (uc_fallthrough b) (uc_rules b)
        (uc_expected_version b) (app_db s) = Inr (c, d)"
    and audit: "audit_record t' entry d = Inr (n, app_db s')"
    and cache: "app_cache s' = cache_refresh (load (rq_clock rq 1) (en_id e) d) (en_id e) (app_cache s)"
    using run by (auto simp: holds_def)
  note c = upsert_config_eq [OF w]
    and inv = served_invD [OF upsert_config_served [OF assms(1) w assms(4) e valid]]
  have env: "e \<in> set (db_environments d)" using e c(10) by (auto simp: find_environment_def dest: find_SomeD)
  obtain t'' c' where get: "cache_get (load (rq_clock rq' 0) (en_id e) (app_db s')) (en_id e) (app_cache s') =
      (load t'' (en_id e) d, c')"
    using load_present [OF env] get_after_refresh unfolding cache load_audit [OF audit] by metis
  obtain snap where snap: "load t'' (en_id e) d = Inr snap" using load_present [OF env] by blast
  have served: "snapshot_get snap fk = Some (flag_of (f, c))"
    using load_finds(1) [OF inv(1,2) env snap, of fk "flag_of (f, c)"] f assms(5) c by auto
  let ?e = "evaluate ?X (flag_of (f, c)) ctx (snapshot_env snap)"
  have "\<exists>m. fst (routes_evaluate_one S rq' identity fk \<lparr>eo_context = ctx, eo_default = fallback\<rparr> s') = Inr (?e, m)"
    using get snap served assms(6,7) c(4)
    by (simp add: routes_evaluate_one_def h_bind_def h_check_def h_cache_get_def h_return_def Let_def snapshot_evaluate_def)
  moreover have "uc_off_variant b \<in> variant_key ` set (flag_variants (flag_of (f, c)))"
    using valid(1) by (auto simp: flag_of_def validate_def Let_def split: if_splits)
  then have "uc_enabled b \<or> ev_reason ?e = Off \<and> ev_variant ?e = Some (uc_off_variant b)"
    using serve_defined c(5,6) by (simp add: evaluate_def flag_of_def)
  ultimately show ?thesis using served c(5-8) by blast
qed

section \<open>A demonstration site\<close>

definition demo_site :: db where
  "demo_site = demo_db\<lparr>db_users := [\<lparr>usr_id = 5, usr_organization_id = 1, usr_email = ''a@b.c'',
     usr_role = Owner, usr_created_at = 0, usr_password_hash = ''h''\<rparr>]\<rparr>"

definition demo_owner :: auth_user where
  "demo_owner = \<lparr>caller_user_id = 5, caller_org = 1, caller_email = ''a@b.c'', caller_role = Owner\<rparr>"

lemma demo_valid_flag: "validate demo_externals (candidate ''f'' (flag_variants (flag_boolean ''f'')) ''off'' (Fixed ''on'') []) = Inr ()"
  by code_simp

lemma demo_site_served: "served_inv demo_externals demo_site" "seedable demo_externals demo_site" "store_inv demo_site"
proof -
  have "db_inv demo_site" by (simp add: integrity_defs demo_site_def demo_db_def db_empty_def)
  moreover have "configs_local demo_site" by (simp add: configs_local_def demo_site_def demo_db_def)
  moreover have "segment_refs_resolve demo_site" by (simp add: segment_refs_resolve_def demo_site_def demo_db_def)
  moreover have "configs_sound demo_externals demo_site"
    by (simp add: configs_sound_def sound_def demo_site_def demo_db_def demo_valid_flag)
  moreover have "segments_sound demo_externals demo_site" by (simp add: segments_sound_def demo_site_def demo_db_def db_empty_def)
  ultimately show "served_inv demo_externals demo_site" "store_inv demo_site"
    by (simp_all add: served_inv_def store_inv_def)
       (simp add: counters_wf_def audit_wf_def api_keys_wf_def demo_site_def demo_db_def db_empty_def)
  show "seedable demo_externals demo_site"
    by (auto simp: seedable_def reference_config_None demo_site_def demo_db_def)
qed

lemma demo_site_lookups:
  "find_project 1 ''shop'' demo_site = Inr (hd (db_projects demo_site))" "prj_id (hd (db_projects demo_site)) = 2"
  "find_environment 2 ''prod'' demo_site = Inr (hd (db_environments demo_site))" "en_id (hd (db_environments demo_site)) = 3"
  "find_flag 2 ''f'' demo_site = Inr (hd (db_flags demo_site))" "fl_id (hd (db_flags demo_site)) = 4"
  "fl_key (hd (db_flags demo_site)) = ''f''" "fl_variants (hd (db_flags demo_site)) = flag_variants (flag_boolean ''f'')"
  "\<not> fl_archived (hd (db_flags demo_site))"
  by (simp_all add: demo_site_def demo_db_def find_project_def find_environment_def find_flag_def or_not_found_def)


definition demo_switch :: update_config_body where
  "demo_switch = \<lparr>uc_enabled = False, uc_off_variant = ''off'', uc_fallthrough = Fixed ''on'', uc_rules = [],
     uc_expected_version = Some 1\<rparr>"

lemma demo_site_audit:
  "na_organization_id entry = 1 \<Longrightarrow> na_actor_user_id entry = Some 5 \<Longrightarrow> na_environment_id entry \<in> {None, Some 3} \<Longrightarrow>
     db_organizations d = db_organizations demo_site \<Longrightarrow> db_users d = db_users demo_site \<Longrightarrow>
     db_environments d = db_environments demo_site \<Longrightarrow> \<exists>n d'. audit_record t entry d = Inr (n, d')"
  by (auto simp: audit_record_def Let_def demo_site_def demo_db_def constraints_def and_then_def)

lemma audit_entry_environment [simp]:
  "na_environment_id (new_audit_entry_new g a act ty i) = None"
  "na_environment_id (in_environment e eid) = Some eid"
  "na_environment_id (changing js e b c) = na_environment_id e"
  by (simp_all add: new_audit_entry_new_def in_environment_def changing_def)

lemma demo_switch_runs:
  "\<exists>c s'. flags_update_config demo_services demo_request demo_owner ''shop'' ''prod'' ''f'' demo_switch (app_new demo_site) =
     (Inr c, s') \<and> fc_environment_id c = 3"
proof -
  let ?c = "hd (db_configs demo_site)"
  have "find_config 4 3 demo_site = Inr ?c" "fc_version ?c = 1" "fc_environment_id ?c = 3"
    by (simp_all add: find_config_def or_not_found_def demo_site_def demo_db_def)
  note old = this
  define row where "row = ?c\<lparr>fc_enabled := False, fc_off_variant := ''off'', fc_fallthrough := Fixed ''on'', fc_rules := [],
    fc_version := 2, fc_updated_at := 100000000\<rparr>"
  obtain d where w: "upsert_config demo_externals 100000000 4 3 False ''off'' (Fixed ''on'') [] (Some 1) demo_site = Inr (row, d)"
    and d: "db_organizations d = db_organizations demo_site" "db_users d = db_users demo_site" "db_environments d = db_environments demo_site"
    using upsert_existing [OF old(1), of demo_externals 100000000 False "''off''" "Fixed ''on''" "[]" "Some 1"]
    by (simp add: old row_def Let_def notify_def)
  have refs: "validate_references (candidate k vs off ft []) known = Inr ()" for k vs off ft known
    by (simp add: validate_references_def)
  have evaluable: "validate_evaluable demo_externals ''f'' (flag_variants (flag_boolean ''f'')) ''off'' (Fixed ''on'') [] =
      Inr (candidate ''f'' (flag_variants (flag_boolean ''f'')) ''off'' (Fixed ''on'') [])"
    by (simp add: validate_evaluable_Inr demo_valid_flag)
  define entry where "entry = changing (js_config (sv_json demo_services))
    (in_environment (new_audit_entry_new 1 (Some 5, ''a@b.c'') ''flag.configured'' ''flag'' ''shop/prod/f'') 3) (Some ?c) (Some row)"
  obtain n d' where audit: "audit_record 100000000 entry d = Inr (n, d')"
    using demo_site_audit [of entry d 100000000] d by (auto simp: entry_def)
  show ?thesis
    using audit old w
    by (simp add: flags_update_config_def handler_defs require_write_def can_write_def demo_owner_def app_new_def
        demo_site_lookups demo_services_parts demo_switch_def evaluable refs actor_def entry_def
        demo_services_def demo_request_def row_def)
qed

theorem change_is_served_at_once_witness:
  "\<exists>c s' e m. flags_update_config demo_services demo_request demo_owner ''shop'' ''prod'' ''f'' demo_switch (app_new demo_site) =
       (Inr c, s') \<and>
     fst (routes_evaluate_one demo_services demo_request demo_identity ''f'' \<lparr>eo_context = demo_context, eo_default = None\<rparr> s') =
       Inr (e, m) \<and> ev_reason e = Off"
proof -
  obtain c s' where run: "flags_update_config demo_services demo_request demo_owner ''shop'' ''prod'' ''f'' demo_switch
      (app_new demo_site) = (Inr c, s')" and env: "fc_environment_id c = 3"
    using demo_switch_runs by blast
  have "check_context demo_context = Inr ()" by code_simp
  moreover have "sv_ext demo_services = demo_externals" by (simp add: demo_services_def)
  ultimately show ?thesis
    using change_is_served_at_once [OF _ run, of "hd (db_projects demo_site)" "hd (db_flags demo_site)" demo_identity
        demo_context demo_request None] demo_site_served demo_site_lookups env run
    by (auto simp: app_new_def demo_owner_def demo_identity_def demo_switch_def)
qed

end
