(* ===== verification/Api_Lifecycle.thy ===== *)
theory Api_Lifecycle
  imports Api_Effects
begin

text \<open>
  Two histories of requests: the life of an SDK key from its creation to its revocation, and a
  flag whose variants are replaced while its project has no environment.
\<close>

section \<open>The life of an SDK key\<close>

lemma audit_record_api_keys:
  "audit_record t entry d = Inr (n, d') \<Longrightarrow> resolve_api_key h d' = resolve_api_key h d \<and>
     (revoke_api_key now eid i d' = Inr d2 \<longrightarrow> (\<exists>d3. revoke_api_key now eid i d = Inr d3 \<and>
        resolve_api_key h d2 = resolve_api_key h d3))"
  by (auto dest!: audit_record_eq simp: resolve_api_key_def revoke_api_key_def split: if_splits)

lemma presented_identity:
  assumes "(case bearer h of Some k \<Rightarrow> Some k | None \<Rightarrow> hdr_flagforge_key h) = Some secret"
    and "claimed_scope secret \<noteq> None"
  shows "fst (sdk_identity_from X instant h d usage) =
    (case resolve_api_key (key_hash X secret) d of
       None \<Rightarrow> Inl (ApiUnauthorized ''unknown or revoked SDK key'')
     | Some identity \<Rightarrow> Inr (identity, fst (should_record_at (ki_api_key_id identity) instant usage)))"
  using assms by (auto simp: sdk_identity_from_def Let_def split: option.splits prod.splits)

lemma scope_of_generated: "claimed_scope (gk_secret (generate X encoded scope)) = Some scope"
  by (cases scope) (simp_all add: claimed_scope_def generate_def KEY_PREFIX_def Let_def split: list.splits)


definition demo_key_body :: create_key_body where
  "demo_key_body = \<lparr>ck_name = ''ci'', ck_scope = Server\<rparr>"

lemma demo_key_created:
  "\<exists>created s1. keys_create demo_services demo_request demo_owner ''shop'' ''prod'' demo_key_body (app_new demo_site) =
     (Inr created, s1)"
proof -
  let ?g = "generate demo_externals ''r'' Server"
  have name: "str_trim ''ci'' = ''ci''" by (rule trim_alphanumeric) (simp_all add: is_ascii_alphanumeric_def)
  have "check_name ''ci''" by code_simp
  then obtain k d where w: "create_api_key 100 100000000 3 ''ci'' (gk_hash ?g) (gk_prefix ?g) Server demo_site = Inr (k, d)"
    and d: "db_organizations d = db_organizations demo_site" "db_users d = db_users demo_site"
      "db_environments d = db_environments demo_site"
    by (simp add: create_api_key_def Let_def constraints_def demo_site_def demo_db_def db_empty_def)
  define entry where "entry = changing (js_api_key (sv_json demo_services))
    (in_environment (new_audit_entry_new 1 (Some 5, ''a@b.c'') ''api_key.created'' ''api_key''
      (uuid_to_string demo_externals (ak_id k))) 3) None (Some k)"
  obtain n d' where "audit_record 100000000 entry d = Inr (n, d')"
    using demo_site_audit [of entry d 100000000] d by (auto simp: entry_def)
  then show ?thesis
    using w name
    by (simp add: keys_create_def handler_defs require_admin_def can_administer_def demo_owner_def app_new_def
        demo_site_lookups demo_services_parts demo_key_body_def actor_def entry_def demo_services_def demo_request_def Let_def)
qed


section \<open>Variants nothing validated\<close>

lemma unseedable:
  assumes "f \<in> set (db_flags d)" and "fl_project_id f = prj" and "default_variant (fl_variants f) = None"
    and "\<forall>c \<in> set (db_configs d). fc_flag_id c \<noteq> fl_id f"
  shows "\<exists>err. create_environment i now prj key name salt isp d = Inl err"
proof (cases "create_environment i now prj key name salt isp d")
  case (Inr r)
  obtain e d' where r: "r = (e, d')" by (cases r)
  obtain new where seed: "those (map (seeded_config i now (d\<lparr>db_environments := db_environments d @ [e]\<rparr>))
      (filter (\<lambda>f. fl_project_id f = prj) (db_flags d))) = Some new"
    using Inr unfolding r by (auto simp: create_environment_def Let_def and_then_Inr split: option.splits)
  have "reference_config (fl_id f) (d\<lparr>db_environments := db_environments d @ [e]\<rparr>) = None"
    unfolding reference_config_None using assms(4) by simp
  then have "seeded_config i now (d\<lparr>db_environments := db_environments d @ [e]\<rparr>) f = None"
    by (simp add: seeded_config_def assms(3))
  then show ?thesis using those_map_set [OF seed] assms(1,2) by fastforce
qed simp

lemma unconfigured:
  assumes "db_inv d" and "configs_local d" and "f \<in> set (db_flags d)" and "c \<in> set (db_configs d)"
    and "\<forall>e \<in> set (db_environments d). en_project_id e \<noteq> fl_project_id f"
  shows "fc_flag_id c \<noteq> fl_id f"
proof
  assume c: "fc_flag_id c = fl_id f"
  have "fc_environment_id c \<in> en_id ` set (db_environments d)"
    using db_invD(2) [OF assms(1)] assms(4) by (simp add: references_hold_def Let_def image_subset_iff)
  then obtain e where e: "e \<in> set (db_environments d)" "fc_environment_id c = en_id e" by blast
  have "fl_project_id f = en_project_id e"
    using assms(2) [unfolded configs_local_def, rule_format, OF assms(4,3) e(1) conjI [OF c e(2)]] .
  then show False using assms(5) [rule_format, OF e(1)] by simp
qed

text \<open>
  C19. A flag can block its project. In a project that has no environment, an update may replace
  the variants of a flag by the empty list, since the loop that validates them runs once per
  environment; from then on every request to create an environment in that project fails,
  whoever sends it and whatever it asks for, and changes nothing.
\<close>

theorem unvalidated_variants_block_environments:
  fixes S :: "('re, 'ver) services"
  assumes "db_inv (app_db s)" and "configs_local (app_db s)"
    and "find_project (caller_org u) pk (app_db s) = Inr p"
    and none: "\<forall>e \<in> set (db_environments (app_db s)). en_project_id e \<noteq> prj_id p"
    and run: "flags_update S rq u pk fk \<lparr>uf_name = None, uf_description = None, uf_variants = Some [],
      uf_archived = None\<rparr> s = (Inr f', s')"
  shows "fl_variants f' = [] \<and> (\<forall>rq' u' body. caller_org u' = caller_org u \<longrightarrow>
    (\<exists>err. projects_create_environment S rq' u' pk body s' = (Inl err, s')))"
proof -
  let ?X = "sv_ext S"
  have "list_environments (prj_id p) (app_db s) = []"
    using none by (simp add: list_environments_def environments_of_def sort_key_const)
  then have "holds (flags_update S rq u pk fk \<lparr>uf_name = None, uf_description = None, uf_variants = Some [],
      uf_archived = None\<rparr>) (\<lambda>f' s'. \<exists>f t d n t' entry. find_flag (prj_id p) fk (app_db s) = Inr f \<and>
        update_flag ?X t (fl_id f) None None (Some []) None (app_db s) = Inr (f', d) \<and>
        audit_record t' entry d = Inr (n, app_db s')) (\<lambda>_ _. True) s"
    by (auto simp: flags_update_def wp assms(3)) blast
  then obtain f t d n t' entry where f: "find_flag (prj_id p) fk (app_db s) = Inr f"
    and w: "update_flag ?X t (fl_id f) None None (Some []) None (app_db s) = Inr (f', d)"
    and audit: "audit_record t' entry d = Inr (n, app_db s')"
    using run by (auto simp: holds_def)
  obtain g where g: "g \<in> set (db_flags (app_db s))" "fl_id g = fl_id f" "f' = updated_flag t None None (Some []) None g"
    and tables: "db_flags d = map (\<lambda>g. if fl_id g = fl_id f then f' else g) (db_flags (app_db s))"
      "db_configs d = db_configs (app_db s)"
    by (rule update_flag_eq [OF w])
  have mem: "f \<in> set (db_flags (app_db s))" "fl_project_id f = prj_id p"
    using f by (auto simp: find_flag_def dest!: find_SomeD)
  have "g = f" using unique_by [OF _ g(1) mem(1) g(2)] db_invD(1) [OF assms(1)] by (simp add: keys_unique_def)
  then have f': "f' \<in> set (db_flags d)" "fl_id f' = fl_id f" "fl_project_id f' = prj_id p" "fl_variants f' = []"
    using g mem by (auto simp: tables updated_flag_def unwrap_or_def)
  have "\<forall>c \<in> set (db_configs d). fc_flag_id c \<noteq> fl_id f"
    using unconfigured [OF assms(1,2) mem(1)] none unfolding mem(2) tables(2) by blast
  moreover obtain a where later: "app_db s' = d\<lparr>db_audit := db_audit d @ [a], db_next_audit_id := n + 1\<rparr>"
    using audit_record_eq [OF audit] by blast
  ultimately have blocked: "\<exists>err. create_environment i now (prj_id p) key name salt isp (app_db s') = Inl err"
    for i now key name salt isp
    using f' by (intro unseedable [of f']) (simp_all add: default_variant_def)
  have "db_projects d = db_projects (app_db s)"
    using w by (auto simp: update_flag_def Let_def and_then_Inr notify_def split: option.splits)
  then have same: "find_project (caller_org u) pk (app_db s') = Inr p"
    using assms(3) by (simp add: later find_project_def)
  have "\<exists>err. projects_create_environment S rq' u' pk body s' = (Inl err, s')" if "caller_org u' = caller_org u" for rq' u' body
    using blocked [of "rq_uuid rq' 0" "rq_clock rq' 0" "ce_key body" "str_trim (ce_name body)" "rq_random rq' 0"
        "ce_is_production body"] same [folded that]
    by (elim exE) (simp add: projects_create_environment_def handler_defs require_write_def valid_key_def)
  with f'(4) show ?thesis by blast
qed

text \<open>The demonstration site before its project has an environment.\<close>

definition demo_bare :: db where
  "demo_bare = demo_site\<lparr>db_environments := [], db_configs := []\<rparr>"

definition demo_emptying :: update_flag_body where
  "demo_emptying = \<lparr>uf_name = None, uf_description = None, uf_variants = Some [], uf_archived = None\<rparr>"

lemma demo_emptying_runs:
  "\<exists>f' s'. flags_update demo_services demo_request demo_owner ''shop'' ''f'' demo_emptying (app_new demo_bare) = (Inr f', s')"
proof -
  have finds: "find_project 1 ''shop'' demo_bare = Inr (hd (db_projects demo_site))"
    "find_flag 2 ''f'' demo_bare = Inr (hd (db_flags demo_site))"
    using demo_site_lookups by (simp_all add: demo_bare_def find_project_def find_flag_def)
  have none: "list_environments 2 demo_bare = []"
    by (simp add: list_environments_def environments_of_def demo_bare_def)
  have "check_name ''F''" by (rule demo_checks)
  then obtain f' d where w: "update_flag demo_externals 100000000 4 None None (Some []) None demo_bare = Inr (f', d)"
    and d: "db_organizations d = db_organizations demo_bare" "db_users d = db_users demo_bare"
    by (simp add: update_flag_def Let_def constraints_def updated_flag_def unwrap_or_def notify_def demo_bare_def
        demo_site_def demo_db_def)
  define entry where "entry = changing (js_flag (sv_json demo_services))
    (new_audit_entry_new 1 (Some 5, ''a@b.c'') ''flag.updated'' ''flag'' ''shop/f'') (Some (hd (db_flags demo_site))) (Some f')"
  have "\<exists>n d'. audit_record 100000000 entry d = Inr (n, d')"
    using d by (auto simp: audit_record_def Let_def constraints_def and_then_def entry_def demo_bare_def demo_site_def demo_db_def
        new_audit_entry_new_def changing_def)
  then obtain n d' where "audit_record 100000000 entry d = Inr (n, d')" by blast
  then show ?thesis
    using w finds none
    by (simp add: flags_update_def handler_defs require_write_def can_write_def demo_owner_def app_new_def
        demo_site_lookups demo_services_parts demo_emptying_def actor_def entry_def demo_services_def demo_request_def)
qed

theorem unvalidated_variants_block_environments_witness:
  "\<exists>f' s'. flags_update demo_services demo_request demo_owner ''shop'' ''f'' demo_emptying (app_new demo_bare) = (Inr f', s') \<and>
     (\<exists>err. projects_create_environment demo_services demo_request demo_owner ''shop''
        \<lparr>ce_key = ''prod'', ce_name = ''Production'', ce_is_production = True\<rparr> s' = (Inl err, s'))"
proof -
  obtain f' s' where run: "flags_update demo_services demo_request demo_owner ''shop'' ''f'' demo_emptying (app_new demo_bare) =
      (Inr f', s')"
    using demo_emptying_runs by blast
  have "db_inv demo_bare" "configs_local demo_bare"
    by (simp_all add: integrity_defs configs_local_def demo_bare_def demo_site_def demo_db_def db_empty_def)
  moreover have "find_project 1 ''shop'' demo_bare = Inr (hd (db_projects demo_site))"
    using demo_site_lookups by (simp add: demo_bare_def find_project_def)
  moreover have "db_environments demo_bare = []" by (simp add: demo_bare_def)
  ultimately show ?thesis
    using unvalidated_variants_block_environments [OF _ _ _ _ run [unfolded demo_emptying_def]] run
    by (simp add: app_new_def demo_owner_def)
qed

end
