(* ===== verification/Api_Wire.thy ===== *)
theory Api_Wire
  imports Api_Router
begin

text \<open>
  Requests as they arrive: the paths \<^verbatim>\<open>crates/api/src/routes/mod.rs\<close> registers, the bodies as
  the derived deserializers of the route modules read them, and the query strings. A body is a
  list of named fields; the values of the configuration model (variants, distributions, rules)
  are kept typed, since both sides share their serialisation.
\<close>

section \<open>Bodies\<close>

datatype wire_value =
    WNull
  | WBool bool
  | WInt int
  | WStr string
  | WVariants "variant list"
  | WDistribution distribution
  | WRules "rule list"
  | WStrings "string list"
  | WSegmentRules "segment_rule list"

type_synonym wire_object = "(string \<times> wire_value) list"

datatype wire_body = NoBody | NullBody | Object wire_object

fun as_string :: "wire_value \<Rightarrow> string option" where
  "as_string (WStr s) = Some s" | "as_string _ = None"

fun as_bool :: "wire_value \<Rightarrow> bool option" where
  "as_bool (WBool b) = Some b" | "as_bool _ = None"

fun as_int :: "wire_value \<Rightarrow> int option" where
  "as_int (WInt i) = Some i" | "as_int _ = None"

fun as_variants :: "wire_value \<Rightarrow> variant list option" where
  "as_variants (WVariants vs) = Some vs" | "as_variants _ = None"

fun as_distribution :: "wire_value \<Rightarrow> distribution option" where
  "as_distribution (WDistribution d) = Some d" | "as_distribution _ = None"

fun as_rules :: "wire_value \<Rightarrow> rule list option" where
  "as_rules (WRules rs) = Some rs" | "as_rules _ = None"

fun as_strings :: "wire_value \<Rightarrow> string list option" where
  "as_strings (WStrings ks) = Some ks" | "as_strings _ = None"

fun as_segment_rules :: "wire_value \<Rightarrow> segment_rule list option" where
  "as_segment_rules (WSegmentRules rs) = Some rs" | "as_segment_rules _ = None"

fun as_scope :: "wire_value \<Rightarrow> key_scope option" where
  "as_scope (WStr s) = (if s = ''server'' then Some Server else if s = ''client'' then Some Client else None)"
| "as_scope _ = None"

text \<open>
  How a derived deserializer reads a field: a required one, one with a default, and an
  \<^verbatim>\<open>Option\<close>, for which both an absent field and a null are \<^verbatim>\<open>None\<close>.
\<close>

definition required_field :: "string \<Rightarrow> (wire_value \<Rightarrow> 'a option) \<Rightarrow> wire_object \<Rightarrow> 'a option" where
  "required_field n f b = Option.bind (map_of b n) f"

definition default_field :: "string \<Rightarrow> (wire_value \<Rightarrow> 'a option) \<Rightarrow> 'a \<Rightarrow> wire_object \<Rightarrow> 'a option" where
  "default_field n f d b = (case map_of b n of None \<Rightarrow> Some d | Some v \<Rightarrow> f v)"

definition as_option :: "(wire_value \<Rightarrow> 'a option) \<Rightarrow> wire_value \<Rightarrow> 'a option option" where
  "as_option f v = (if v = WNull then Some None else map_option Some (f v))"

definition optional_field :: "string \<Rightarrow> (wire_value \<Rightarrow> 'a option) \<Rightarrow> wire_object \<Rightarrow> 'a option option" where
  "optional_field n f = default_field n (as_option f) None"

definition read_register :: "wire_object \<Rightarrow> register_request option" where
  "read_register b =
     Option.bind (required_field ''organization_name'' as_string b) (\<lambda>n.
     Option.bind (required_field ''email'' as_string b) (\<lambda>e.
     Option.bind (required_field ''password'' as_string b) (\<lambda>p.
     Some \<lparr>rr_organization_name = n, rr_email = e, rr_password = p\<rparr>)))"

definition read_login :: "wire_object \<Rightarrow> login_request option" where
  "read_login b =
     Option.bind (required_field ''email'' as_string b) (\<lambda>e.
     Option.bind (required_field ''password'' as_string b) (\<lambda>p.
     Some \<lparr>lr_email = e, lr_password = p\<rparr>))"

definition read_create_project :: "wire_object \<Rightarrow> create_project_body option" where
  "read_create_project b =
     Option.bind (required_field ''key'' as_string b) (\<lambda>k.
     Option.bind (required_field ''name'' as_string b) (\<lambda>n.
     Option.bind (optional_field ''description'' as_string b) (\<lambda>d.
     Some \<lparr>cp_key = k, cp_name = n, cp_description = d\<rparr>)))"

definition read_create_environment :: "wire_object \<Rightarrow> create_environment_body option" where
  "read_create_environment b =
     Option.bind (required_field ''key'' as_string b) (\<lambda>k.
     Option.bind (required_field ''name'' as_string b) (\<lambda>n.
     Option.bind (default_field ''is_production'' as_bool False b) (\<lambda>p.
     Some \<lparr>ce_key = k, ce_name = n, ce_is_production = p\<rparr>)))"

definition read_create_flag :: "wire_object \<Rightarrow> create_flag_body option" where
  "read_create_flag b =
     Option.bind (required_field ''key'' as_string b) (\<lambda>k.
     Option.bind (required_field ''name'' as_string b) (\<lambda>n.
     Option.bind (optional_field ''description'' as_string b) (\<lambda>d.
     Option.bind (optional_field ''variants'' as_variants b) (\<lambda>vs.
     Option.bind (optional_field ''off_variant'' as_string b) (\<lambda>off.
     Option.bind (optional_field ''fallthrough'' as_distribution b) (\<lambda>ft.
     Some \<lparr>cf_key = k, cf_name = n, cf_description = d, cf_variants = vs, cf_off_variant = off,
           cf_fallthrough = ft\<rparr>))))))"

text \<open>\<^verbatim>\<open>Option<Option<String>>\<close>: the outer option already takes a null for \<^verbatim>\<open>None\<close>.\<close>

definition read_update_flag :: "wire_object \<Rightarrow> update_flag_body option" where
  "read_update_flag b =
     Option.bind (optional_field ''name'' as_string b) (\<lambda>n.
     Option.bind (optional_field ''description'' (as_option as_string) b) (\<lambda>d.
     Option.bind (optional_field ''variants'' as_variants b) (\<lambda>vs.
     Option.bind (optional_field ''archived'' as_bool b) (\<lambda>a.
     Some \<lparr>uf_name = n, uf_description = d, uf_variants = vs, uf_archived = a\<rparr>))))"

definition read_update_config :: "wire_object \<Rightarrow> update_config_body option" where
  "read_update_config b =
     Option.bind (required_field ''enabled'' as_bool b) (\<lambda>e.
     Option.bind (required_field ''off_variant'' as_string b) (\<lambda>off.
     Option.bind (required_field ''fallthrough'' as_distribution b) (\<lambda>ft.
     Option.bind (default_field ''rules'' as_rules [] b) (\<lambda>rs.
     Option.bind (optional_field ''expected_version'' as_int b) (\<lambda>v.
     Some \<lparr>uc_enabled = e, uc_off_variant = off, uc_fallthrough = ft, uc_rules = rs,
           uc_expected_version = v\<rparr>)))))"

definition read_create_segment :: "wire_object \<Rightarrow> create_segment_body option" where
  "read_create_segment b =
     Option.bind (required_field ''key'' as_string b) (\<lambda>k.
     Option.bind (required_field ''name'' as_string b) (\<lambda>n.
     Option.bind (optional_field ''description'' as_string b) (\<lambda>d.
     Some \<lparr>cs_key = k, cs_name = n, cs_description = d\<rparr>)))"

definition read_update_segment :: "wire_object \<Rightarrow> update_segment_body option" where
  "read_update_segment b =
     Option.bind (optional_field ''name'' as_string b) (\<lambda>n.
     Option.bind (optional_field ''description'' (as_option as_string) b) (\<lambda>d.
     Option.bind (optional_field ''included'' as_strings b) (\<lambda>ins.
     Option.bind (optional_field ''excluded'' as_strings b) (\<lambda>exs.
     Option.bind (optional_field ''rules'' as_segment_rules b) (\<lambda>rs.
     Option.bind (optional_field ''expected_version'' as_int b) (\<lambda>v.
     Some \<lparr>us_changes = \<lparr>sc_name = n, sc_description = d, sc_included = ins, sc_excluded = exs,
                         sc_rules = rs\<rparr>,
           us_expected_version = v\<rparr>))))))"

definition read_create_experiment :: "wire_object \<Rightarrow> create_experiment_body option" where
  "read_create_experiment b =
     Option.bind (required_field ''key'' as_string b) (\<lambda>k.
     Option.bind (required_field ''name'' as_string b) (\<lambda>n.
     Option.bind (optional_field ''description'' as_string b) (\<lambda>d.
     Option.bind (required_field ''flag_key'' as_string b) (\<lambda>f.
     Option.bind (required_field ''metric_key'' as_string b) (\<lambda>m.
     Option.bind (required_field ''control_variant'' as_string b) (\<lambda>c.
     Some \<lparr>cx_key = k, cx_name = n, cx_description = d, cx_flag_key = f, cx_metric_key = m,
           cx_control_variant = c\<rparr>))))))"

definition read_update_experiment :: "wire_object \<Rightarrow> update_experiment_body option" where
  "read_update_experiment b =
     Option.bind (optional_field ''name'' as_string b) (\<lambda>n.
     Option.bind (optional_field ''description'' (as_option as_string) b) (\<lambda>d.
     Some \<lparr>ux_name = n, ux_description = d\<rparr>))"

definition read_create_key :: "wire_object \<Rightarrow> create_key_body option" where
  "read_create_key b =
     Option.bind (required_field ''name'' as_string b) (\<lambda>n.
     Option.bind (required_field ''scope'' as_scope b) (\<lambda>s.
     Some \<lparr>ck_name = n, ck_scope = s\<rparr>))"

text \<open>The JSON extractor: a request without an object has no such body.\<close>

fun json_body :: "(wire_object \<Rightarrow> 'a option) \<Rightarrow> wire_body \<Rightarrow> 'a option" where
  "json_body f (Object b) = f b" | "json_body f _ = None"

section \<open>Query strings\<close>

fun digits_value :: "nat \<Rightarrow> string \<Rightarrow> nat option" where
  "digits_value n [] = Some n"
| "digits_value n (c # s) =
     (if 48 \<le> (of_char c :: nat) \<and> (of_char c :: nat) \<le> 57 then digits_value (10 * n + (of_char c - 48)) s else None)"

text \<open>\<^verbatim>\<open>i64::from_str\<close>: an optional sign, at least one digit, and no overflow.\<close>

definition parse_i64 :: "string \<Rightarrow> int option" where
  "parse_i64 s =
     (let (negative, digits) =
        (case s of c # r \<Rightarrow> if c = CHR ''-'' then (True, r) else if c = CHR ''+'' then (False, r) else (False, s)
         | [] \<Rightarrow> (False, []))
      in if digits = [] then None
         else Option.bind (digits_value 0 digits) (\<lambda>n.
           let i = (if negative then - int n else int n)
           in if - (2 ^ 63) \<le> i \<and> i < 2 ^ 63 then Some i else None))"

definition query_pairs :: "string \<Rightarrow> (string \<times> string) list" where
  "query_pairs q =
     map (\<lambda>piece. case split_once CHR ''='' piece of Some (k, v) \<Rightarrow> (k, v) | None \<Rightarrow> (piece, []))
       (filter (\<lambda>piece. piece \<noteq> []) (split_on CHR ''&'' q))"

definition query_option :: "string \<Rightarrow> (string \<Rightarrow> 'a option) \<Rightarrow> (string \<times> string) list \<Rightarrow> 'a option option" where
  "query_option n f q = (case map_of q n of None \<Rightarrow> Some None | Some v \<Rightarrow> map_option Some (f v))"

definition read_audit_query :: "(string \<times> string) list \<Rightarrow> audit_query option" where
  "read_audit_query q =
     Option.bind (query_option ''resource_type'' Some q) (\<lambda>t.
     Option.bind (query_option ''resource_id'' Some q) (\<lambda>i.
     Option.bind (query_option ''before_id'' parse_i64 q) (\<lambda>b.
     Option.bind (query_option ''limit'' parse_i64 q) (\<lambda>l.
     Some \<lparr>aq_resource_type = t, aq_resource_id = i, aq_before_id = b, aq_limit = l\<rparr>))))"

definition parse_bool :: "string \<Rightarrow> bool option" where
  "parse_bool s = (if s = ''true'' then Some True else if s = ''false'' then Some False else None)"

definition read_include_archived :: "(string \<times> string) list \<Rightarrow> bool option" where
  "read_include_archived q = (case map_of q ''include_archived'' of None \<Rightarrow> Some False | Some v \<Rightarrow> parse_bool v)"

section \<open>Paths\<close>

datatype http_method = Get | Post | Put | Patch | Delete

text \<open>
  The routes of the management interface and of sign-in. A parameter matches one non-empty
  segment of the path and a fixed segment has precedence; which handler runs depends on the
  method. \<^const>\<open>None\<close> is a request no handler accepts: an unknown path, another method, or a
  body or a query its extractor rejects. Escapes in paths and queries are not decoded.
\<close>

definition endpoint_project :: "http_method \<Rightarrow> string \<Rightarrow> route option" where
  "endpoint_project m p =
     (case m of Get \<Rightarrow> Some (Management (GetProject p))
              | Delete \<Rightarrow> Some (Management (DeleteProject p)) | _ \<Rightarrow> None)"

definition endpoint_in_project ::
  "http_method \<Rightarrow> string \<Rightarrow> string \<Rightarrow> (string \<times> string) list \<Rightarrow> wire_body \<Rightarrow> route option" where
  "endpoint_in_project m p c q b =
     (if c = ''environments'' then
        (case m of Get \<Rightarrow> Some (Management (ListEnvironments p))
         | Post \<Rightarrow> map_option (\<lambda>x. Management (CreateEnvironment p x)) (json_body read_create_environment b)
         | _ \<Rightarrow> None)
      else if c = ''flags'' then
        (case m of Get \<Rightarrow> map_option (\<lambda>a. Management (ListFlags p a)) (read_include_archived q)
         | Post \<Rightarrow> map_option (\<lambda>x. Management (CreateFlag p x)) (json_body read_create_flag b)
         | _ \<Rightarrow> None)
      else None)"

definition endpoint_resource ::
  "http_method \<Rightarrow> string \<Rightarrow> string \<Rightarrow> string \<Rightarrow> wire_body \<Rightarrow> route option" where
  "endpoint_resource m p c k b =
     (if c = ''environments'' then
        (case m of Delete \<Rightarrow> Some (Management (DeleteEnvironment p k)) | _ \<Rightarrow> None)
      else if c = ''flags'' then
        (case m of Get \<Rightarrow> Some (Management (GetFlag p k))
         | Patch \<Rightarrow> map_option (\<lambda>x. Management (UpdateFlag p k x)) (json_body read_update_flag b)
         | Delete \<Rightarrow> Some (Management (DeleteFlag p k)) | _ \<Rightarrow> None)
      else None)"

definition endpoint_in_environment ::
  "http_method \<Rightarrow> string \<Rightarrow> string \<Rightarrow> string \<Rightarrow> (string \<times> string) list \<Rightarrow> wire_body \<Rightarrow> route option" where
  "endpoint_in_environment m p e c q b =
     (if c = ''flags'' then
        (case m of Get \<Rightarrow> map_option (\<lambda>a. Management (ListConfigured p e a)) (read_include_archived q) | _ \<Rightarrow> None)
      else if c = ''segments'' then
        (case m of Get \<Rightarrow> Some (Management (ListSegments p e))
         | Post \<Rightarrow> map_option (\<lambda>x. Management (CreateSegment p e x)) (json_body read_create_segment b) | _ \<Rightarrow> None)
      else if c = ''experiments'' then
        (case m of Get \<Rightarrow> Some (Management (ListExperiments p e))
         | Post \<Rightarrow> map_option (\<lambda>x. Management (CreateExperiment p e x)) (json_body read_create_experiment b) | _ \<Rightarrow> None)
      else if c = ''keys'' then
        (case m of Get \<Rightarrow> Some (Management (ListKeys p e))
         | Post \<Rightarrow> map_option (\<lambda>x. Management (CreateKey p e x)) (json_body read_create_key b) | _ \<Rightarrow> None)
      else None)"

definition endpoint_environment_resource ::
  "(string \<Rightarrow> uuid option) \<Rightarrow> http_method \<Rightarrow> string \<Rightarrow> string \<Rightarrow> string \<Rightarrow> string \<Rightarrow> wire_body \<Rightarrow> route option" where
  "endpoint_environment_resource parse_uuid m p e c k b =
     (if c = ''flags'' then
        (case m of Get \<Rightarrow> Some (Management (GetConfig p e k))
         | Put \<Rightarrow> map_option (\<lambda>x. Management (UpdateConfig p e k x)) (json_body read_update_config b) | _ \<Rightarrow> None)
      else if c = ''segments'' then
        (case m of Get \<Rightarrow> Some (Management (GetSegment p e k))
         | Put \<Rightarrow> map_option (\<lambda>x. Management (UpdateSegment p e k x)) (json_body read_update_segment b)
         | Delete \<Rightarrow> Some (Management (DeleteSegment p e k)) | _ \<Rightarrow> None)
      else if c = ''experiments'' then
        (case m of Get \<Rightarrow> Some (Management (GetExperiment p e k))
         | Patch \<Rightarrow> map_option (\<lambda>x. Management (UpdateExperiment p e k x)) (json_body read_update_experiment b)
         | Delete \<Rightarrow> Some (Management (DeleteExperiment p e k)) | _ \<Rightarrow> None)
      else if c = ''keys'' then
        (case m of Delete \<Rightarrow> map_option (\<lambda>i. Management (RevokeKey p e i)) (parse_uuid k) | _ \<Rightarrow> None)
      else None)"

definition endpoint_experiment_action :: "http_method \<Rightarrow> string \<Rightarrow> string \<Rightarrow> string \<Rightarrow> string \<Rightarrow> route option" where
  "endpoint_experiment_action m p e k a =
     (if a = ''start'' then (if m = Post then Some (Management (StartExperiment p e k)) else None)
      else if a = ''stop'' then (if m = Post then Some (Management (StopExperiment p e k)) else None)
      else if a = ''results'' then (if m = Get then Some (Management (ResultsOfExperiment p e k)) else None)
      else None)"

definition endpoint_top ::
  "http_method \<Rightarrow> string \<Rightarrow> (string \<times> string) list \<Rightarrow> wire_body \<Rightarrow> route option" where
  "endpoint_top m c q b =
     (if c = ''projects'' then
        (case m of Get \<Rightarrow> Some (Management ListProjects)
         | Post \<Rightarrow> map_option (\<lambda>x. Management (CreateProject x)) (json_body read_create_project b) | _ \<Rightarrow> None)
      else if c = ''audit'' then
        (if m = Get then map_option (\<lambda>x. Management (ListAudit x)) (read_audit_query q) else None)
      else None)"

definition endpoint_auth :: "http_method \<Rightarrow> string \<Rightarrow> wire_body \<Rightarrow> route option" where
  "endpoint_auth m c b =
     (if c = ''register'' then
        (if m = Post then map_option (\<lambda>x. Public (Register x)) (json_body read_register b) else None)
      else if c = ''login'' then
        (if m = Post then map_option (\<lambda>x. Public (Login x)) (json_body read_login b) else None)
      else if c = ''me'' then (if m = Get then Some (Management Me) else None)
      else None)"

definition endpoint_segments ::
  "(string \<Rightarrow> uuid option) \<Rightarrow> http_method \<Rightarrow> string list \<Rightarrow> (string \<times> string) list \<Rightarrow> wire_body \<Rightarrow> route option" where
  "endpoint_segments parse_uuid m path q b =
     (case path of
        [c] \<Rightarrow> endpoint_top m c q b
      | [c, k] \<Rightarrow> if c = ''auth'' then endpoint_auth m k b else if c = ''projects'' then endpoint_project m k else None
      | [r, p, c] \<Rightarrow> if r = ''projects'' then endpoint_in_project m p c q b else None
      | [r, p, c, k] \<Rightarrow> if r = ''projects'' then endpoint_resource m p c k b else None
      | [r, p, s, e, c] \<Rightarrow>
          if r = ''projects'' \<and> s = ''environments'' then endpoint_in_environment m p e c q b else None
      | [r, p, s, e, c, k] \<Rightarrow>
          if r = ''projects'' \<and> s = ''environments'' then endpoint_environment_resource parse_uuid m p e c k b else None
      | [r, p, s, e, c, k, a] \<Rightarrow>
          if r = ''projects'' \<and> s = ''environments'' \<and> c = ''experiments'' then endpoint_experiment_action m p e k a
          else None
      | _ \<Rightarrow> None)"

definition endpoint ::
  "(string \<Rightarrow> uuid option) \<Rightarrow> http_method \<Rightarrow> string \<Rightarrow> wire_body \<Rightarrow> route option" where
  "endpoint parse_uuid m url b =
     (let (path, query) = (case split_once CHR ''?'' url of None \<Rightarrow> (url, []) | Some pq \<Rightarrow> pq)
      in case split_on CHR ''/'' path of
           lead # api # v # rest \<Rightarrow>
             if lead = [] \<and> api = ''api'' \<and> v = ''v1'' \<and> list_all (\<lambda>s. s \<noteq> []) rest
             then endpoint_segments parse_uuid m rest (query_pairs query) b else None
         | _ \<Rightarrow> None)"

lemmas field_defs = required_field_def default_field_def optional_field_def as_option_def

lemmas endpoint_defs = endpoint_project_def endpoint_in_project_def endpoint_resource_def endpoint_in_environment_def
  endpoint_environment_resource_def endpoint_experiment_action_def endpoint_top_def endpoint_auth_def endpoint_segments_def

section \<open>Lemmas\<close>

lemma split_on_word [simp]: "d \<notin> set w \<Longrightarrow> split_on d w = [w]"
  by (induction w) auto

lemma split_on_append: "d \<notin> set w \<Longrightarrow> split_on d (w @ d # s) = w # split_on d s"
  by (induction w) auto

lemma split_once_none: "c \<notin> set s \<Longrightarrow> split_once c s = None"
  by (simp add: split_once_def)

lemma digits_value_append:
  "digits_value n s = Some v \<Longrightarrow> d < 10 \<Longrightarrow> digits_value n (s @ [digit_char d]) = Some (10 * v + d)"
  by (induction n s rule: digits_value.induct) (auto simp: digit_char_def split: if_splits)

lemma digits_value_show_nat [simp]: "digits_value 0 (show_nat n) = Some n"
proof (induction n rule: show_nat.induct)
  case (1 n)
  show ?case
  proof (cases "n < 10")
    case True
    then show ?thesis by (simp add: show_nat.simps [of n] digit_char_def)
  next
    case False
    then show ?thesis
      using digits_value_append [OF 1 [OF False], of "n mod 10"] by (simp add: show_nat.simps [of n])
  qed
qed

lemma show_nat_digits: "c \<in> set (show_nat n) \<Longrightarrow> 48 \<le> (of_char c :: nat) \<and> (of_char c :: nat) \<le> 57"
proof (induction n rule: show_nat.induct)
  case (1 n)
  then show ?case
    using show_nat.simps [of n] by (auto simp: digit_char_def split: if_splits)
qed

lemma show_nat_ne [simp]: "show_nat n \<noteq> []"
  by (simp add: show_nat.simps [of n])

lemma show_int_no: "\<not> (48 \<le> (of_char c :: nat) \<and> (of_char c :: nat) \<le> 57) \<Longrightarrow> c \<noteq> CHR ''-'' \<Longrightarrow> c \<notin> set (show_int i)"
  using show_nat_digits by (auto simp: show_int_def)

lemma parse_show_int [simp]:
  assumes "- (2 ^ 63) \<le> i" "i < 2 ^ 63"
  shows "parse_i64 (show_int i) = Some i"
proof (cases "i < 0")
  case True
  then show ?thesis using assms by (simp add: show_int_def parse_i64_def Let_def)
next
  case False
  obtain c r where s: "show_nat (nat i) = c # r" by (cases "show_nat (nat i)") simp_all
  then have "c \<noteq> CHR ''-''" "c \<noteq> CHR ''+''" using show_nat_digits [of c "nat i"] by auto
  then show ?thesis
    using False assms digits_value_show_nat [of "nat i"] by (simp add: show_int_def s parse_i64_def Let_def)
qed

text \<open>
  A null never becomes a present null: the nested options the updates declare for their
  descriptions cannot be told to clear one.
\<close>

lemma nested_option_never_null: "optional_field n (as_option f) b \<noteq> Some (Some None)"
  by (auto simp: field_defs split: option.splits if_splits)

text \<open>
  C28. No request clears a description. The updates of flags, segments and experiments distinguish
  an absent description, which they keep, from a present null, which they would store; but no
  body whatsoever is read as the latter, since a null is read as the former.
\<close>

theorem descriptions_cannot_be_cleared:
  "map_option uf_description (read_update_flag b) \<noteq> Some (Some None) \<and>
   map_option (sc_description \<circ> us_changes) (read_update_segment b) \<noteq> Some (Some None) \<and>
   map_option ux_description (read_update_experiment b) \<noteq> Some (Some None) \<and>
   read_update_flag ((''description'', WNull) # b) = read_update_flag (filter (\<lambda>(n, _). n \<noteq> ''description'') b)"
proof -
  have "map_of (filter (\<lambda>(n, _). n \<noteq> k) b) m = (if m = k then None else map_of b m)" for k m
    by (induction b) auto
  then have "read_update_flag ((''description'', WNull) # b) = read_update_flag (filter (\<lambda>(n, _). n \<noteq> ''description'') b)"
    by (simp add: read_update_flag_def field_defs)
  moreover have "optional_field ''description'' (as_option as_string) b \<noteq> Some (Some None)"
    by (rule nested_option_never_null)
  ultimately show ?thesis
    by (auto simp: read_update_flag_def read_update_segment_def read_update_experiment_def bind_eq_Some_conv)
qed

end
