(* ===== verification/Web_Api.thy ===== *)
theory Web_Api
  imports Api_Wire
begin

text \<open>
  \<^verbatim>\<open>crates/web/src/api.rs\<close>: the client of the dashboard. A call is the request it builds, with its
  method, path, token and body; \<open>send_result\<close> is how the answer to a request is read. The browser
  and the JSON library are parameters: the answer, and how a text decodes.
\<close>

section \<open>Errors and loading states\<close>

record web_error =
  we_status :: nat
  we_kind :: string
  we_title :: string
  we_issues :: "validation_issue list"

definition network :: "string \<Rightarrow> web_error" where
  "network detail =
     \<lparr>we_status = 0, we_kind = ''network'', we_title = ''could not reach the server: '' @ detail, we_issues = []\<rparr>"

definition is_unauthorized :: "web_error \<Rightarrow> bool" where
  "is_unauthorized e = (we_status e = 401)"

definition is_conflict :: "web_error \<Rightarrow> bool" where
  "is_conflict e = (we_status e = 409)"

datatype 'a load_state = Loading | Ready 'a | Failed web_error

fun load_from :: "web_error + 'a \<Rightarrow> 'a load_state" where
  "load_from (Inr v) = Ready v"
| "load_from (Inl e) = Failed e"

record web_user =
  wu_id :: string
  wu_organization_id :: string
  wu_email :: string
  wu_role :: string
  wu_created_at :: string

definition web_can_write :: "web_user \<Rightarrow> bool" where
  "web_can_write u = (wu_role u \<in> {''owner'', ''admin'', ''member''})"

definition web_can_administer :: "web_user \<Rightarrow> bool" where
  "web_can_administer u = (wu_role u \<in> {''owner'', ''admin''})"

section \<open>Requests\<close>

definition BASE :: string where
  "BASE = ''/api/v1''"

record web_request =
  wq_method :: http_method
  wq_url :: string
  wq_authorization :: "string option"
  wq_body :: wire_body

definition web_request_of :: "http_method \<Rightarrow> string \<Rightarrow> string option \<Rightarrow> wire_body \<Rightarrow> web_request" where
  "web_request_of m path token body =
     \<lparr>wq_method = m, wq_url = BASE @ path, wq_authorization = map_option (\<lambda>t. ''Bearer '' @ t) token, wq_body = body\<rparr>"

text \<open>The bodies, with the fields their serialisation skips when they are \<^const>\<open>None\<close>.\<close>

definition skip_none :: "string \<Rightarrow> ('a \<Rightarrow> wire_value) \<Rightarrow> 'a option \<Rightarrow> wire_object" where
  "skip_none n f v = (case v of None \<Rightarrow> [] | Some x \<Rightarrow> [(n, f x)])"

record register_body =
  rb_organization_name :: string
  rb_email :: string
  rb_password :: string

record login_body =
  lb_email :: string
  lb_password :: string

record new_project =
  np_key :: string
  np_name :: string
  np_description :: "string option"

record new_environment =
  ne_key :: string
  ne_name :: string
  ne_is_production :: bool

record new_flag =
  nf_key :: string
  nf_name :: string
  nf_description :: "string option"
  nf_variants :: "variant list option"
  nf_off_variant :: "string option"
  nf_fallthrough :: "distribution option"

record config_body =
  cb_enabled :: bool
  cb_off_variant :: string
  cb_fallthrough :: distribution
  cb_rules :: "rule list"
  cb_expected_version :: int

record new_segment =
  nsg_key :: string
  nsg_name :: string
  nsg_description :: "string option"

record segment_body =
  sb_name :: string
  sb_included :: "string list"
  sb_excluded :: "string list"
  sb_rules :: "segment_rule list"
  sb_expected_version :: int

record new_experiment =
  nx_key :: string
  nx_name :: string
  nx_description :: "string option"
  nx_flag_key :: string
  nx_metric_key :: string
  nx_control_variant :: string

record new_key =
  nk_name :: string
  nk_scope :: string

definition json_register :: "register_body \<Rightarrow> wire_body" where
  "json_register b = Object [(''organization_name'', WStr (rb_organization_name b)), (''email'', WStr (rb_email b)),
     (''password'', WStr (rb_password b))]"

definition json_login :: "login_body \<Rightarrow> wire_body" where
  "json_login b = Object [(''email'', WStr (lb_email b)), (''password'', WStr (lb_password b))]"

definition json_new_project :: "new_project \<Rightarrow> wire_body" where
  "json_new_project b = Object ([(''key'', WStr (np_key b)), (''name'', WStr (np_name b))] @
     skip_none ''description'' WStr (np_description b))"

definition json_new_environment :: "new_environment \<Rightarrow> wire_body" where
  "json_new_environment b = Object [(''key'', WStr (ne_key b)), (''name'', WStr (ne_name b)),
     (''is_production'', WBool (ne_is_production b))]"

definition json_new_flag :: "new_flag \<Rightarrow> wire_body" where
  "json_new_flag b = Object ([(''key'', WStr (nf_key b)), (''name'', WStr (nf_name b))] @
     skip_none ''description'' WStr (nf_description b) @ skip_none ''variants'' WVariants (nf_variants b) @
     skip_none ''off_variant'' WStr (nf_off_variant b) @ skip_none ''fallthrough'' WDistribution (nf_fallthrough b))"

definition json_config :: "config_body \<Rightarrow> wire_body" where
  "json_config b = Object [(''enabled'', WBool (cb_enabled b)), (''off_variant'', WStr (cb_off_variant b)),
     (''fallthrough'', WDistribution (cb_fallthrough b)), (''rules'', WRules (cb_rules b)),
     (''expected_version'', WInt (cb_expected_version b))]"

definition json_new_segment :: "new_segment \<Rightarrow> wire_body" where
  "json_new_segment b = Object ([(''key'', WStr (nsg_key b)), (''name'', WStr (nsg_name b))] @
     skip_none ''description'' WStr (nsg_description b))"

definition json_segment :: "segment_body \<Rightarrow> wire_body" where
  "json_segment b = Object [(''name'', WStr (sb_name b)), (''included'', WStrings (sb_included b)),
     (''excluded'', WStrings (sb_excluded b)), (''rules'', WSegmentRules (sb_rules b)),
     (''expected_version'', WInt (sb_expected_version b))]"

definition json_new_experiment :: "new_experiment \<Rightarrow> wire_body" where
  "json_new_experiment b = Object ([(''key'', WStr (nx_key b)), (''name'', WStr (nx_name b))] @
     skip_none ''description'' WStr (nx_description b) @
     [(''flag_key'', WStr (nx_flag_key b)), (''metric_key'', WStr (nx_metric_key b)),
      (''control_variant'', WStr (nx_control_variant b))])"

definition json_new_key :: "new_key \<Rightarrow> wire_body" where
  "json_new_key b = Object [(''name'', WStr (nk_name b)), (''scope'', WStr (nk_scope b))]"

definition json_archive :: "bool \<Rightarrow> wire_body" where
  "json_archive archived = Object [(''archived'', WBool archived)]"

section \<open>Calls\<close>

definition web_register :: "register_body \<Rightarrow> web_request" where
  "web_register b = web_request_of Post ''/auth/register'' None (json_register b)"

definition web_login :: "login_body \<Rightarrow> web_request" where
  "web_login b = web_request_of Post ''/auth/login'' None (json_login b)"

definition web_me :: "string \<Rightarrow> web_request" where
  "web_me token = web_request_of Get ''/auth/me'' (Some token) NoBody"

definition web_list_projects :: "string \<Rightarrow> web_request" where
  "web_list_projects token = web_request_of Get ''/projects'' (Some token) NoBody"

definition web_create_project :: "string \<Rightarrow> new_project \<Rightarrow> web_request" where
  "web_create_project token b = web_request_of Post ''/projects'' (Some token) (json_new_project b)"

definition web_delete_project :: "string \<Rightarrow> string \<Rightarrow> web_request" where
  "web_delete_project token key = web_request_of Delete (''/projects/'' @ key) (Some token) NoBody"

definition web_list_environments :: "string \<Rightarrow> string \<Rightarrow> web_request" where
  "web_list_environments token project =
     web_request_of Get (''/projects/'' @ project @ ''/environments'') (Some token) NoBody"

definition web_create_environment :: "string \<Rightarrow> string \<Rightarrow> new_environment \<Rightarrow> web_request" where
  "web_create_environment token project b =
     web_request_of Post (''/projects/'' @ project @ ''/environments'') (Some token) (json_new_environment b)"

definition web_create_flag :: "string \<Rightarrow> string \<Rightarrow> new_flag \<Rightarrow> web_request" where
  "web_create_flag token project b =
     web_request_of Post (''/projects/'' @ project @ ''/flags'') (Some token) (json_new_flag b)"

definition web_get_flag :: "string \<Rightarrow> string \<Rightarrow> string \<Rightarrow> web_request" where
  "web_get_flag token project flag =
     web_request_of Get (''/projects/'' @ project @ ''/flags/'' @ flag) (Some token) NoBody"

definition web_archive_flag :: "string \<Rightarrow> string \<Rightarrow> string \<Rightarrow> bool \<Rightarrow> web_request" where
  "web_archive_flag token project flag archived =
     web_request_of Patch (''/projects/'' @ project @ ''/flags/'' @ flag) (Some token) (json_archive archived)"

definition web_delete_flag :: "string \<Rightarrow> string \<Rightarrow> string \<Rightarrow> web_request" where
  "web_delete_flag token project flag =
     web_request_of Delete (''/projects/'' @ project @ ''/flags/'' @ flag) (Some token) NoBody"

text \<open>The path of an environment's resources, which the calls below share.\<close>

definition in_env :: "string \<Rightarrow> string \<Rightarrow> string \<Rightarrow> string" where
  "in_env project environment rest = ''/projects/'' @ project @ ''/environments/'' @ environment @ rest"

definition web_list_configured :: "string \<Rightarrow> string \<Rightarrow> string \<Rightarrow> web_request" where
  "web_list_configured token project environment =
     web_request_of Get (in_env project environment ''/flags'') (Some token) NoBody"

definition web_get_config :: "string \<Rightarrow> string \<Rightarrow> string \<Rightarrow> string \<Rightarrow> web_request" where
  "web_get_config token project environment flag =
     web_request_of Get (in_env project environment (''/flags/'' @ flag)) (Some token) NoBody"

definition web_put_config :: "string \<Rightarrow> string \<Rightarrow> string \<Rightarrow> string \<Rightarrow> config_body \<Rightarrow> web_request" where
  "web_put_config token project environment flag b =
     web_request_of Put (in_env project environment (''/flags/'' @ flag)) (Some token) (json_config b)"

definition web_list_segments :: "string \<Rightarrow> string \<Rightarrow> string \<Rightarrow> web_request" where
  "web_list_segments token project environment =
     web_request_of Get (in_env project environment ''/segments'') (Some token) NoBody"

definition web_get_segment :: "string \<Rightarrow> string \<Rightarrow> string \<Rightarrow> string \<Rightarrow> web_request" where
  "web_get_segment token project environment segment =
     web_request_of Get (in_env project environment (''/segments/'' @ segment)) (Some token) NoBody"

definition web_create_segment :: "string \<Rightarrow> string \<Rightarrow> string \<Rightarrow> new_segment \<Rightarrow> web_request" where
  "web_create_segment token project environment b =
     web_request_of Post (in_env project environment ''/segments'') (Some token) (json_new_segment b)"

definition web_put_segment :: "string \<Rightarrow> string \<Rightarrow> string \<Rightarrow> string \<Rightarrow> segment_body \<Rightarrow> web_request" where
  "web_put_segment token project environment segment b =
     web_request_of Put (in_env project environment (''/segments/'' @ segment)) (Some token) (json_segment b)"

definition web_delete_segment :: "string \<Rightarrow> string \<Rightarrow> string \<Rightarrow> string \<Rightarrow> web_request" where
  "web_delete_segment token project environment segment =
     web_request_of Delete (in_env project environment (''/segments/'' @ segment)) (Some token) NoBody"

definition web_list_experiments :: "string \<Rightarrow> string \<Rightarrow> string \<Rightarrow> web_request" where
  "web_list_experiments token project environment =
     web_request_of Get (in_env project environment ''/experiments'') (Some token) NoBody"

definition web_create_experiment :: "string \<Rightarrow> string \<Rightarrow> string \<Rightarrow> new_experiment \<Rightarrow> web_request" where
  "web_create_experiment token project environment b =
     web_request_of Post (in_env project environment ''/experiments'') (Some token) (json_new_experiment b)"

definition web_transition_experiment :: "string \<Rightarrow> string \<Rightarrow> string \<Rightarrow> string \<Rightarrow> string \<Rightarrow> web_request" where
  "web_transition_experiment token project environment experiment' action =
     web_request_of Post (in_env project environment (''/experiments/'' @ experiment' @ ''/'' @ action)) (Some token) NullBody"

definition web_experiment_results :: "string \<Rightarrow> string \<Rightarrow> string \<Rightarrow> string \<Rightarrow> web_request" where
  "web_experiment_results token project environment experiment' =
     web_request_of Get (in_env project environment (''/experiments/'' @ experiment' @ ''/results'')) (Some token) NoBody"

definition web_delete_experiment :: "string \<Rightarrow> string \<Rightarrow> string \<Rightarrow> string \<Rightarrow> web_request" where
  "web_delete_experiment token project environment experiment' =
     web_request_of Delete (in_env project environment (''/experiments/'' @ experiment')) (Some token) NoBody"

definition web_list_keys :: "string \<Rightarrow> string \<Rightarrow> string \<Rightarrow> web_request" where
  "web_list_keys token project environment =
     web_request_of Get (in_env project environment ''/keys'') (Some token) NoBody"

definition web_create_key :: "string \<Rightarrow> string \<Rightarrow> string \<Rightarrow> new_key \<Rightarrow> web_request" where
  "web_create_key token project environment b =
     web_request_of Post (in_env project environment ''/keys'') (Some token) (json_new_key b)"

definition web_revoke_key :: "string \<Rightarrow> string \<Rightarrow> string \<Rightarrow> string \<Rightarrow> web_request" where
  "web_revoke_key token project environment i =
     web_request_of Delete (in_env project environment (''/keys/'' @ i)) (Some token) NoBody"

definition web_audit :: "string \<Rightarrow> u32 \<Rightarrow> int option \<Rightarrow> web_request" where
  "web_audit token limit before =
     web_request_of Get (''/audit?limit='' @ show_nat (unat limit) @
       (case before of None \<Rightarrow> [] | Some cursor \<Rightarrow> ''&before_id='' @ show_int cursor)) (Some token) NoBody"

section \<open>Answers\<close>

text \<open>What the browser delivers: a failure with a reason, or a status with a text; a body that
  cannot be read counts as empty.\<close>

datatype delivery = Unreachable string | Delivered nat string

text \<open>How texts decode: a problem document and its fields, and a value of the expected type.\<close>

record 'a decoder =
  de_type :: "string \<Rightarrow> string option"
  de_title :: "string \<Rightarrow> string option"
  de_errors :: "string \<Rightarrow> validation_issue list option"
  de_value :: "string \<Rightarrow> string + 'a"

definition send_result :: "'a decoder \<Rightarrow> delivery \<Rightarrow> web_error + 'a" where
  "send_result J r =
     (case r of
        Unreachable detail \<Rightarrow> Inl (network detail)
      | Delivered code text \<Rightarrow>
          if \<not> (200 \<le> code \<and> code < 300)
          then Inl \<lparr>we_status = code, we_kind = unwrap_or (de_type J text) ''unexpected'',
                    we_title = unwrap_or (de_title J text) ''the request failed'',
                    we_issues = unwrap_or (de_errors J text) []\<rparr>
          else map_err (\<lambda>e. network (''unexpected response shape: '' @ e))
                 (de_value J (if str_trim text = [] then ''null'' else text)))"

lemmas web_calls [model_defs] =
  web_register_def web_login_def web_me_def web_list_projects_def web_create_project_def web_delete_project_def
  web_list_environments_def web_create_environment_def web_create_flag_def web_get_flag_def web_archive_flag_def
  web_delete_flag_def web_list_configured_def web_get_config_def web_put_config_def web_list_segments_def
  web_get_segment_def web_create_segment_def web_put_segment_def web_delete_segment_def web_list_experiments_def
  web_create_experiment_def web_transition_experiment_def web_experiment_results_def web_delete_experiment_def
  web_list_keys_def web_create_key_def web_revoke_key_def web_audit_def

lemmas web_bodies [model_defs] =
  json_register_def json_login_def json_new_project_def json_new_environment_def json_new_flag_def json_config_def
  json_new_segment_def json_segment_def json_new_experiment_def json_new_key_def json_archive_def skip_none_def

section \<open>Calls reach their handlers\<close>

definition reaches :: "(string \<Rightarrow> uuid option) \<Rightarrow> web_request \<Rightarrow> route \<Rightarrow> bool" where
  "reaches parse_uuid r target = (endpoint parse_uuid (wq_method r) (wq_url r) (wq_body r) = Some target)"

definition plain :: "string \<Rightarrow> bool" where
  "plain w = (w \<noteq> [] \<and> CHR ''/'' \<notin> set w \<and> CHR ''?'' \<notin> set w)"

lemma valid_key_plain: "is_valid_key k \<Longrightarrow> plain k"
  by (auto simp: is_valid_key_def plain_def list_all_iff is_ascii_alphanumeric_def)

definition path_of :: "string list \<Rightarrow> string" where
  "path_of ws = concat (map (\<lambda>w. CHR ''/'' # w) ws)"

lemma split_path: "\<forall>w \<in> set ws. CHR ''/'' \<notin> set w \<Longrightarrow> split_on CHR ''/'' (path_of ws) = [] # ws"
proof (induction ws)
  case (Cons w ws)
  then show ?case
    by (cases ws) (auto simp: path_of_def split_on_append)
qed (simp add: path_of_def)

lemma split_once_append: "c \<notin> set s \<Longrightarrow> split_once c (s @ c # r) = Some (s, r)"
  by (induction s) (auto simp: split_once_def)

lemma endpoint_plain:
  assumes "list_all plain ws"
  shows "endpoint P m (BASE @ path_of ws) b = endpoint_segments P m ws [] b"
proof -
  have path: "BASE @ path_of ws = path_of (''api'' # ''v1'' # ws)" by (simp add: BASE_def path_of_def)
  have "CHR ''?'' \<notin> set (path_of (''api'' # ''v1'' # ws))"
    using assms by (auto simp: path_of_def plain_def list_all_iff)
  moreover have "split_on CHR ''/'' (path_of (''api'' # ''v1'' # ws)) = [] # ''api'' # ''v1'' # ws"
    by (rule split_path) (use assms in \<open>auto simp: plain_def list_all_iff\<close>)
  moreover have "list_all (\<lambda>w. w \<noteq> []) ws" using assms by (auto simp: plain_def list_all_iff)
  ultimately show ?thesis
    unfolding path by (simp add: endpoint_def split_once_none query_pairs_def)
qed

lemma reaches_plain:
  assumes "path = path_of ws" and "list_all plain ws" and "endpoint_segments P m ws [] b = Some target"
  shows "reaches P (web_request_of m path token b) target"
  using endpoint_plain [OF assms(2), of P m b] assms(1,3) by (simp add: reaches_def web_request_of_def)

lemma plain_words [simp]:
  "plain ''projects''" "plain ''environments''" "plain ''flags''" "plain ''segments''" "plain ''experiments''" "plain ''keys''"
  "plain ''auth''" "plain ''register''" "plain ''login''" "plain ''me''" "plain ''start''" "plain ''stop''" "plain ''results''"
  by (simp_all add: plain_def)

lemma reaches_audit:
  assumes "b = None \<or> (\<exists>i. b = Some i \<and> - (2 ^ 63) \<le> i \<and> i < 2 ^ 63)"
  shows "reaches P (web_audit token limit b) (Management (ListAudit
      \<lparr>aq_resource_type = None, aq_resource_id = None, aq_before_id = b, aq_limit = Some (int (unat limit))\<rparr>))"
proof -
  have int: "show_nat (unat limit) = show_int (int (unat limit))" by (simp add: show_int_def)
  have "parse_i64 (show_int (int n)) = Some (int n)" if "n < 2 ^ 32" for n
    by (intro parse_show_int) (use that in simp_all)
  note small = this [OF unat_u32_bound [of limit]]
  have no: "c \<notin> set (show_int i)" if "c \<in> {CHR ''?'', CHR ''/'', CHR ''&'', CHR ''=''}" for c i
    using that by (intro show_int_no) auto
  have url: "split_once CHR ''?'' (BASE @ ''/audit?'' @ q) = Some (''/api/v1/audit'', q)" for q
    using split_once_append [of "CHR ''?''" "''/api/v1/audit''" q] by (simp add: BASE_def)
  have path: "split_on CHR ''/'' ''/api/v1/audit'' = [[], ''api'', ''v1'', ''audit'']" by simp
  have lim: "split_on CHR ''&'' (''limit='' @ show_int (int (unat limit)) @ ''&before_id='' @ r) =
      (''limit='' @ show_int (int (unat limit))) # split_on CHR ''&'' (''before_id='' @ r)" for r
    using split_on_append [of "CHR ''&''" "''limit='' @ show_int (int (unat limit))" "''before_id='' @ r"] no by simp
  have eq: "split_once CHR ''='' (''limit='' @ r) = Some (''limit'', r)"
    "split_once CHR ''='' (''before_id='' @ r) = Some (''before_id'', r)" for r
    using split_once_append [of "CHR ''=''" "''limit''" r] split_once_append [of "CHR ''=''" "''before_id''" r] by simp_all
  consider "b = None" | i where "b = Some i" "- (2 ^ 63) \<le> i" "i < 2 ^ 63" using assms by blast
  then show ?thesis
  proof cases
    case 1
    have "query_pairs (''limit='' @ show_int (int (unat limit))) = [(''limit'', show_int (int (unat limit)))]"
      using no eq by (simp add: query_pairs_def)
    then show ?thesis
      using 1 url [of "''limit='' @ show_int (int (unat limit))"] path small int
      by (simp add: reaches_def web_audit_def web_request_of_def endpoint_def endpoint_segments_def endpoint_top_def
          read_audit_query_def query_option_def del: split_on.simps)
  next
    case (2 i)
    have "query_pairs (''limit='' @ show_int (int (unat limit)) @ ''&before_id='' @ show_int i) =
        [(''limit'', show_int (int (unat limit))), (''before_id'', show_int i)]"
      unfolding query_pairs_def lim using no eq by simp
    then show ?thesis
      using 2 url [of "''limit='' @ show_int (int (unat limit)) @ ''&before_id='' @ show_int i"] path small int parse_show_int [OF 2(2,3)]
      by (simp add: reaches_def web_audit_def web_request_of_def endpoint_def endpoint_segments_def endpoint_top_def
          read_audit_query_def query_option_def del: split_on.simps)
  qed
qed

lemma reaches_path:
  "list_all plain ws \<Longrightarrow> reaches P (web_request_of m (path_of ws) token b) target \<longleftrightarrow> endpoint_segments P m ws [] b = Some target"
  using endpoint_plain [of ws P m b] by (simp add: reaches_def web_request_of_def)

lemma call_paths:
  "web_register rb = web_request_of Post (path_of [''auth'', ''register'']) None (json_register rb)"
  "web_login lb = web_request_of Post (path_of [''auth'', ''login'']) None (json_login lb)"
  "web_me t = web_request_of Get (path_of [''auth'', ''me'']) (Some t) NoBody"
  "web_list_projects t = web_request_of Get (path_of [''projects'']) (Some t) NoBody"
  "web_create_project t np = web_request_of Post (path_of [''projects'']) (Some t) (json_new_project np)"
  "web_delete_project t p = web_request_of Delete (path_of [''projects'', p]) (Some t) NoBody"
  "web_list_environments t p = web_request_of Get (path_of [''projects'', p, ''environments'']) (Some t) NoBody"
  "web_create_environment t p ne = web_request_of Post (path_of [''projects'', p, ''environments'']) (Some t) (json_new_environment ne)"
  "web_create_flag t p nf = web_request_of Post (path_of [''projects'', p, ''flags'']) (Some t) (json_new_flag nf)"
  "web_get_flag t p k = web_request_of Get (path_of [''projects'', p, ''flags'', k]) (Some t) NoBody"
  "web_archive_flag t p k a = web_request_of Patch (path_of [''projects'', p, ''flags'', k]) (Some t) (json_archive a)"
  "web_delete_flag t p k = web_request_of Delete (path_of [''projects'', p, ''flags'', k]) (Some t) NoBody"
  "web_list_configured t p e = web_request_of Get (path_of [''projects'', p, ''environments'', e, ''flags'']) (Some t) NoBody"
  "web_get_config t p e k = web_request_of Get (path_of [''projects'', p, ''environments'', e, ''flags'', k]) (Some t) NoBody"
  "web_put_config t p e k cb = web_request_of Put (path_of [''projects'', p, ''environments'', e, ''flags'', k]) (Some t) (json_config cb)"
  "web_list_segments t p e = web_request_of Get (path_of [''projects'', p, ''environments'', e, ''segments'']) (Some t) NoBody"
  "web_get_segment t p e k = web_request_of Get (path_of [''projects'', p, ''environments'', e, ''segments'', k]) (Some t) NoBody"
  "web_create_segment t p e ns = web_request_of Post (path_of [''projects'', p, ''environments'', e, ''segments'']) (Some t) (json_new_segment ns)"
  "web_put_segment t p e k sb = web_request_of Put (path_of [''projects'', p, ''environments'', e, ''segments'', k]) (Some t) (json_segment sb)"
  "web_delete_segment t p e k = web_request_of Delete (path_of [''projects'', p, ''environments'', e, ''segments'', k]) (Some t) NoBody"
  "web_list_experiments t p e = web_request_of Get (path_of [''projects'', p, ''environments'', e, ''experiments'']) (Some t) NoBody"
  "web_create_experiment t p e nx = web_request_of Post (path_of [''projects'', p, ''environments'', e, ''experiments'']) (Some t) (json_new_experiment nx)"
  "web_transition_experiment t p e k act = web_request_of Post (path_of [''projects'', p, ''environments'', e, ''experiments'', k, act]) (Some t) NullBody"
  "web_experiment_results t p e k = web_request_of Get (path_of [''projects'', p, ''environments'', e, ''experiments'', k, ''results'']) (Some t) NoBody"
  "web_delete_experiment t p e k = web_request_of Delete (path_of [''projects'', p, ''environments'', e, ''experiments'', k]) (Some t) NoBody"
  "web_list_keys t p e = web_request_of Get (path_of [''projects'', p, ''environments'', e, ''keys'']) (Some t) NoBody"
  "web_create_key t p e nk = web_request_of Post (path_of [''projects'', p, ''environments'', e, ''keys'']) (Some t) (json_new_key nk)"
  "web_revoke_key t p e i = web_request_of Delete (path_of [''projects'', p, ''environments'', e, ''keys'', i]) (Some t) NoBody"
  by (simp_all add: web_calls in_env_def path_of_def)

lemma bodies_read:
  "json_body read_register (json_register rb) = Some \<lparr>rr_organization_name = rb_organization_name rb, rr_email = rb_email rb, rr_password = rb_password rb\<rparr>"
  "json_body read_login (json_login lb) = Some \<lparr>lr_email = lb_email lb, lr_password = lb_password lb\<rparr>"
  "json_body read_create_project (json_new_project np) = Some \<lparr>cp_key = np_key np, cp_name = np_name np, cp_description = np_description np\<rparr>"
  "json_body read_create_environment (json_new_environment ne) = Some \<lparr>ce_key = ne_key ne, ce_name = ne_name ne, ce_is_production = ne_is_production ne\<rparr>"
  "json_body read_create_flag (json_new_flag nf) = Some \<lparr>cf_key = nf_key nf, cf_name = nf_name nf, cf_description = nf_description nf,
     cf_variants = nf_variants nf, cf_off_variant = nf_off_variant nf, cf_fallthrough = nf_fallthrough nf\<rparr>"
  "json_body read_update_flag (json_archive a) = Some \<lparr>uf_name = None, uf_description = None, uf_variants = None, uf_archived = Some a\<rparr>"
  "json_body read_update_config (json_config cb) = Some \<lparr>uc_enabled = cb_enabled cb, uc_off_variant = cb_off_variant cb,
     uc_fallthrough = cb_fallthrough cb, uc_rules = cb_rules cb, uc_expected_version = Some (cb_expected_version cb)\<rparr>"
  "json_body read_create_segment (json_new_segment ns) = Some \<lparr>cs_key = nsg_key ns, cs_name = nsg_name ns, cs_description = nsg_description ns\<rparr>"
  "json_body read_update_segment (json_segment sb) = Some \<lparr>us_changes = \<lparr>sc_name = Some (sb_name sb), sc_description = None,
     sc_included = Some (sb_included sb), sc_excluded = Some (sb_excluded sb), sc_rules = Some (sb_rules sb)\<rparr>,
     us_expected_version = Some (sb_expected_version sb)\<rparr>"
  "json_body read_create_experiment (json_new_experiment nx) = Some \<lparr>cx_key = nx_key nx, cx_name = nx_name nx, cx_description = nx_description nx,
     cx_flag_key = nx_flag_key nx, cx_metric_key = nx_metric_key nx, cx_control_variant = nx_control_variant nx\<rparr>"
  "json_body read_create_key (json_new_key \<lparr>nk_name = n, nk_scope = ''server''\<rparr>) = Some \<lparr>ck_name = n, ck_scope = Server\<rparr>"
  "json_body read_create_key (json_new_key \<lparr>nk_name = n, nk_scope = ''client''\<rparr>) = Some \<lparr>ck_name = n, ck_scope = Client\<rparr>"
  by (simp_all add: web_bodies field_defs read_register_def read_login_def read_create_project_def read_create_environment_def
      read_create_flag_def read_update_flag_def read_update_config_def read_create_segment_def read_update_segment_def
      read_create_experiment_def read_create_key_def split: option.split)



section \<open>Errors survive the wire\<close>

text \<open>What is assumed of the decoder: it reads back the fields of the problem document the server
  has written; field-level problems are written when there are any.\<close>

definition reads_problem :: "'a decoder \<Rightarrow> string \<Rightarrow> problem_details \<Rightarrow> bool" where
  "reads_problem J text p =
     (de_type J text = Some (pd_kind p) \<and> de_title J text = Some (pd_title p) \<and>
      de_errors J text = (if pd_errors p = [] then None else Some (pd_errors p)))"

text \<open>
  C27. Errors reach the dashboard as the server means them. The answer to a failed request is read
  as an error with the server's status, type and title and every field-level problem in order; it
  asks for a new sign-in exactly when the server did not accept the token, and offers to reload
  exactly on a conflict, which a lost race for a version is; the cause of an internal error is in
  none of its fields.
\<close>

theorem errors_survive_the_wire:
  assumes "reads_problem J text (er_body (into_response e))"
  shows "\<exists>err. send_result J (Delivered (er_status (into_response e)) text) = Inl err \<and>
    we_status err = status e \<and> we_kind err = kind e \<and>
    we_issues err = (case e of Unprocessable issues \<Rightarrow> issues | _ \<Rightarrow> []) \<and>
    we_title err = (case e of Internal cause \<Rightarrow> ''an internal error occurred'' | _ \<Rightarrow> api_error_to_string e) \<and>
    (is_unauthorized err \<longleftrightarrow> (\<exists>m. e = ApiUnauthorized m)) \<and> (is_conflict err \<longleftrightarrow> (\<exists>m. e = ApiConflict m))"
  using assms
  by (cases e) (auto simp: reads_problem_def send_result_def into_response_def is_unauthorized_def is_conflict_def
      unwrap_or_def)

theorem errors_survive_the_wire_witness:
  "\<exists>err. send_result \<lparr>de_type = (\<lambda>_. Some ''conflict''), de_title = (\<lambda>_. Some ''taken''), de_errors = (\<lambda>_. None),
      de_value = (\<lambda>_. Inr ())\<rparr> (Delivered 409 ''body'') = Inl err \<and> is_conflict err"
  using errors_survive_the_wire [of "\<lparr>de_type = (\<lambda>_. Some ''conflict''), de_title = (\<lambda>_. Some ''taken''),
      de_errors = (\<lambda>_. None), de_value = (\<lambda>_. Inr ())\<rparr>" "''body''" "ApiConflict ''taken''"]
  by (auto simp: reads_problem_def into_response_def)

end
