(* ===== verification/Api_Config.thy ===== *)
theory Api_Config
  imports Web_Api
begin

text \<open>
  \<^verbatim>\<open>crates/api/src/config.rs\<close> and the command line of \<^verbatim>\<open>main.rs\<close>: the settings of the process, read from
  its environment. The environment is a map from names to values; a variable that is not Unicode reads as
  absent. The parser of network addresses is a parameter.
\<close>

section \<open>Settings\<close>

datatype config_error = Missing string | InvalidSetting string string

fun config_error_name :: "config_error \<Rightarrow> string" where
  "config_error_name (Missing n) = n"
| "config_error_name (InvalidSetting n _) = n"

fun config_error_text :: "config_error \<Rightarrow> string" where
  "config_error_text (Missing n) = ''required environment variable '' @ quoted n @ '' is not set''"
| "config_error_text (InvalidSetting n reason) = ''environment variable '' @ quoted n @ '' is invalid: '' @ reason"

definition MIN_JWT_SECRET_LEN :: nat where
  "MIN_JWT_SECRET_LEN = 32"

datatype runtime_environment = Development | Production

definition is_production :: "runtime_environment \<Rightarrow> bool" where
  "is_production e = (e = Production)"

record 'ip server_config =
  srv_host :: 'ip
  srv_port :: "16 word"
  srv_request_timeout :: u64
  srv_body_limit_bytes :: u64
  srv_shutdown_grace :: u64

record database_config =
  dbc_url :: string
  dbc_max_connections :: u32
  dbc_auto_migrate :: bool
  dbc_startup_timeout :: u64

record auth_config =
  ac_jwt_secret :: string
  ac_token_ttl :: u64
  ac_metrics_token :: "string option"

record 'ip config =
  cfg_server :: "'ip server_config"
  cfg_database :: database_config
  cfg_auth :: auth_config
  cfg_refresh_interval :: u64
  cfg_rate_limit :: rate_limit_config
  cfg_environment :: runtime_environment

section \<open>Reading a variable\<close>

type_synonym variables = "string \<Rightarrow> string option"

text \<open>\<^verbatim>\<open>FromStr\<close> of the unsigned integers, and of \<^verbatim>\<open>bool\<close>, with the texts of their errors.\<close>

fun uint_loop :: "nat \<Rightarrow> nat \<Rightarrow> string \<Rightarrow> string + nat" where
  "uint_loop largest acc [] = Inr acc"
| "uint_loop largest acc (c # s) =
     (let d = of_char c :: nat
      in if d < 48 \<or> 57 < d then Inl ''invalid digit found in string''
         else if largest < 10 * acc + (d - 48) then Inl ''number too large to fit in target type''
         else uint_loop largest (10 * acc + (d - 48)) s)"

definition parse_uint :: "string \<Rightarrow> string + ('w :: len) word" where
  "parse_uint s =
     (if s = [] then Inl ''cannot parse integer from empty string''
      else if s = ''+'' then Inl ''invalid digit found in string''
      else (case uint_loop (2 ^ LENGTH('w) - 1) 0 (if hd s = CHR ''+'' then tl s else s) of
              Inl e \<Rightarrow> Inl e | Inr n \<Rightarrow> Inr (of_nat n)))"

definition parse_bool :: "string \<Rightarrow> string + bool" where
  "parse_bool s =
     (if s = ''true'' then Inr True else if s = ''false'' then Inr False
      else Inl (''provided string was not '' @ quoted ''true'' @ '' or '' @ quoted ''false''))"

text \<open>The list of errors is threaded through, as the exclusive reference to it is.\<close>

definition required :: "variables \<Rightarrow> string \<Rightarrow> config_error list \<Rightarrow> string option \<times> config_error list" where
  "required vars name errors =
     (case vars name of
        Some v \<Rightarrow> if str_trim v \<noteq> [] then (Some v, errors) else (None, errors @ [Missing name])
      | None \<Rightarrow> (None, errors @ [Missing name]))"

definition parsed ::
  "(string \<Rightarrow> string + 'a) \<Rightarrow> variables \<Rightarrow> string \<Rightarrow> 'a \<Rightarrow> config_error list \<Rightarrow> 'a \<times> config_error list" where
  "parsed from_str vars name fallback errors =
     (case vars name of
        None \<Rightarrow> (fallback, errors)
      | Some raw \<Rightarrow>
          (case from_str (str_trim raw) of
             Inr v \<Rightarrow> (v, errors)
           | Inl err \<Rightarrow> (fallback, errors @ [InvalidSetting name err])))"

definition seconds_setting :: "variables \<Rightarrow> string \<Rightarrow> u64 \<Rightarrow> config_error list \<Rightarrow> u64 \<times> config_error list" where
  "seconds_setting vars name fallback errors = parsed parse_uint vars name fallback errors"

definition check_secret :: "string option \<Rightarrow> config_error list \<Rightarrow> config_error list" where
  "check_secret secret errors =
     (case secret of
        Some s \<Rightarrow>
          if length s < MIN_JWT_SECRET_LEN
          then errors @ [InvalidSetting ''JWT_SECRET'' (''must be at least '' @ show_nat MIN_JWT_SECRET_LEN @
                 '' characters, got '' @ show_nat (length s))]
          else errors
      | None \<Rightarrow> errors)"

definition app_env :: "variables \<Rightarrow> config_error list \<Rightarrow> runtime_environment \<times> config_error list" where
  "app_env vars errors =
     (case vars ''APP_ENV'' of
        None \<Rightarrow> (Development, errors)
      | Some v \<Rightarrow>
          if v = ''production'' \<or> v = ''prod'' then (Production, errors)
          else if v = ''development'' \<or> v = ''dev'' then (Development, errors)
          else (Development, errors @ [InvalidSetting ''APP_ENV''
                 (''expected '' @ quoted ''development'' @ '' or '' @ quoted ''production'' @ '', got '' @ quoted v)]))"

section \<open>The whole configuration\<close>

definition from_env :: "(string \<Rightarrow> string + 'ip) \<Rightarrow> 'ip \<Rightarrow> variables \<Rightarrow> config_error list + 'ip config" where
  "from_env parse_ip any_address vars =
     (let (database_url, errors) = required vars ''DATABASE_URL'' [];
          (jwt_secret, errors) = required vars ''JWT_SECRET'' errors;
          errors = check_secret jwt_secret errors;
          (host, errors) = parsed parse_ip vars ''HOST'' any_address errors;
          (port, errors) = parsed parse_uint vars ''PORT'' 8080 errors;
          (request_timeout, errors) = seconds_setting vars ''REQUEST_TIMEOUT_SECS'' 15 errors;
          (shutdown_grace, errors) = seconds_setting vars ''SHUTDOWN_GRACE_SECS'' 20 errors;
          (body_limit, errors) = parsed parse_uint vars ''BODY_LIMIT_BYTES'' (256 * 1024) errors;
          (max_connections, errors) = parsed parse_uint vars ''DATABASE_MAX_CONNECTIONS'' 20 errors;
          (auto_migrate, errors) = parsed parse_bool vars ''AUTO_MIGRATE'' True errors;
          (db_startup_timeout, errors) = seconds_setting vars ''DATABASE_STARTUP_TIMEOUT_SECS'' 30 errors;
          (token_ttl, errors) = seconds_setting vars ''TOKEN_TTL_SECS'' (12 * 3600) errors;
          (refresh_interval, errors) = seconds_setting vars ''CACHE_REFRESH_SECS'' 60 errors;
          metrics_token = Option.bind (vars ''METRICS_TOKEN'') (\<lambda>v. if str_trim v = [] then None else Some (str_trim v));
          (burst, errors) = parsed parse_uint vars ''RATE_LIMIT_BURST'' 120 errors;
          (per_second, errors) = parsed parse_uint vars ''RATE_LIMIT_PER_SECOND'' 40 errors;
          (environment, errors) = app_env vars errors
      in if errors \<noteq> [] then Inl errors
         else Inr \<lparr>cfg_server = \<lparr>srv_host = host, srv_port = port, srv_request_timeout = request_timeout,
                      srv_body_limit_bytes = body_limit, srv_shutdown_grace = shutdown_grace\<rparr>,
                    cfg_database = \<lparr>dbc_url = the database_url, dbc_max_connections = max_connections,
                      dbc_auto_migrate = auto_migrate, dbc_startup_timeout = db_startup_timeout\<rparr>,
                    cfg_auth = \<lparr>ac_jwt_secret = the jwt_secret, ac_token_ttl = token_ttl, ac_metrics_token = metrics_token\<rparr>,
                    cfg_refresh_interval = refresh_interval,
                    cfg_rate_limit = \<lparr>rl_burst = burst, rl_per_second = per_second\<rparr>,
                    cfg_environment = environment\<rparr>)"

section \<open>What is printed of it\<close>

text \<open>\<^verbatim>\<open>split_once\<close> with a text, and \<^verbatim>\<open>rsplit_once\<close> with a character.\<close>

fun split_once_str :: "string \<Rightarrow> string \<Rightarrow> (string \<times> string) option" where
  "split_once_str p [] = (if p = [] then Some ([], []) else None)"
| "split_once_str p (c # s) =
     (if starts_with (c # s) p then Some ([], drop (length p) (c # s))
      else map_option (\<lambda>(a, b). (c # a, b)) (split_once_str p s))"

definition rsplit_once :: "char \<Rightarrow> string \<Rightarrow> (string \<times> string) option" where
  "rsplit_once c s = map_option (\<lambda>(a, b). (rev b, rev a)) (split_once c (rev s))"

definition redact_url :: "string \<Rightarrow> string" where
  "redact_url url =
     (case split_once_str ''://'' url of
        None \<Rightarrow> ''[redacted]''
      | Some (scheme, rest) \<Rightarrow>
          (case rsplit_once CHR ''@'' rest of
             Some (_, host) \<Rightarrow> scheme @ ''://[redacted]@'' @ host
           | None \<Rightarrow> url))"

text \<open>The fields of the two hand-written \<^verbatim>\<open>Debug\<close> instances, as texts.\<close>

definition auth_debug :: "auth_config \<Rightarrow> (string \<times> string) list" where
  "auth_debug c =
     [(''jwt_secret'', ''[redacted]''), (''token_ttl'', show_nat (unat (ac_token_ttl c)) @ ''s''),
      (''metrics_token'', case ac_metrics_token c of None \<Rightarrow> ''None'' | Some _ \<Rightarrow> ''Some([redacted])'')]"

definition database_debug :: "database_config \<Rightarrow> (string \<times> string) list" where
  "database_debug c =
     [(''url'', redact_url (dbc_url c)), (''max_connections'', show_nat (unat (dbc_max_connections c))),
      (''auto_migrate'', show_bool (dbc_auto_migrate c)), (''startup_timeout'', show_nat (unat (dbc_startup_timeout c)) @ ''s'')]"

section \<open>The command line\<close>

record credentials =
  cr_email :: string
  cr_password :: "string option"
  cr_if_empty :: bool

definition credentials_default :: credentials where
  "credentials_default = \<lparr>cr_email = ''ada@acme.test'', cr_password = None, cr_if_empty = False\<rparr>"

text \<open>\<open>Help\<close> prints the usage and exits.\<close>

datatype command = ServeCommand | SeedCommand credentials | Help

fun seed_options :: "credentials \<Rightarrow> string list \<Rightarrow> string + credentials" where
  "seed_options c [] = Inr c"
| "seed_options c [flag] =
     (if flag = ''--email'' then Inl ''--email needs a value''
      else if flag = ''--password'' then Inl ''--password needs a value''
      else if flag = ''--if-empty'' then Inr (c\<lparr>cr_if_empty := True\<rparr>)
      else Inl (''unknown option '' @ quoted flag @ '' for '' @ quoted ''seed''))"
| "seed_options c (flag # v # args) =
     (if flag = ''--email'' then seed_options (c\<lparr>cr_email := v\<rparr>) args
      else if flag = ''--password'' then seed_options (c\<lparr>cr_password := Some v\<rparr>) args
      else if flag = ''--if-empty'' then seed_options (c\<lparr>cr_if_empty := True\<rparr>) (v # args)
      else Inl (''unknown option '' @ quoted flag @ '' for '' @ quoted ''seed''))"

text \<open>The arguments after the name of the program; the usage that follows an unknown command is left out.\<close>

definition parse_command :: "string list \<Rightarrow> string + command" where
  "parse_command args =
     (case args of
        [] \<Rightarrow> Inr ServeCommand
      | a # rest \<Rightarrow>
          if a = ''serve'' then Inr ServeCommand
          else if a = ''seed'' then
            (case seed_options credentials_default rest of Inl e \<Rightarrow> Inl e | Inr c \<Rightarrow> Inr (SeedCommand c))
          else if a \<in> {''--help'', ''-h'', ''help''} then Inr Help
          else Inl (''unknown command '' @ quoted a))"

lemmas config_defs [model_defs] =
  MIN_JWT_SECRET_LEN_def is_production_def parse_uint_def parse_bool_def required_def parsed_def seconds_setting_def
  check_secret_def app_env_def from_env_def rsplit_once_def redact_url_def auth_debug_def database_debug_def
  credentials_default_def parse_command_def

section \<open>Lemmas\<close>

text \<open>Each reading as its value and the errors it adds.\<close>

definition parsed_errors :: "(string \<Rightarrow> string + 'a) \<Rightarrow> variables \<Rightarrow> string \<Rightarrow> config_error list" where
  "parsed_errors from_str vars name =
     (case vars name of None \<Rightarrow> []
      | Some raw \<Rightarrow> (case from_str (str_trim raw) of Inr _ \<Rightarrow> [] | Inl err \<Rightarrow> [InvalidSetting name err]))"

definition parsed_value :: "(string \<Rightarrow> string + 'a) \<Rightarrow> variables \<Rightarrow> string \<Rightarrow> 'a \<Rightarrow> 'a" where
  "parsed_value from_str vars name d =
     (case vars name of None \<Rightarrow> d
      | Some raw \<Rightarrow> (case from_str (str_trim raw) of Inr v \<Rightarrow> v | Inl _ \<Rightarrow> d))"

definition required_value :: "variables \<Rightarrow> string \<Rightarrow> string option" where
  "required_value vars name = (case vars name of Some v \<Rightarrow> if str_trim v \<noteq> [] then Some v else None | None \<Rightarrow> None)"

lemma parsed_parts: "parsed from_str vars name d es = (parsed_value from_str vars name d, es @ parsed_errors from_str vars name)"
  by (simp add: parsed_def parsed_errors_def parsed_value_def split: option.splits sum.splits)

lemma required_parts:
  "required vars name es = (required_value vars name, es @ (if required_value vars name = None then [Missing name] else []))"
  by (simp add: required_def required_value_def split: option.splits)

definition secret_errors :: "string option \<Rightarrow> config_error list" where
  "secret_errors secret = check_secret secret []"

lemma check_secret_parts: "check_secret secret es = es @ secret_errors secret"
  by (simp add: check_secret_def secret_errors_def split: option.splits)

definition app_env_errors :: "variables \<Rightarrow> config_error list" where
  "app_env_errors vars = snd (app_env vars [])"

definition app_env_value :: "variables \<Rightarrow> runtime_environment" where
  "app_env_value vars = fst (app_env vars [])"

lemma app_env_parts: "app_env vars es = (app_env_value vars, es @ app_env_errors vars)"
  by (simp add: app_env_def app_env_value_def app_env_errors_def split: option.splits)

text \<open>A variable that is absent, or that parses.\<close>

definition reads :: "(string \<Rightarrow> string + 'a) \<Rightarrow> variables \<Rightarrow> string \<Rightarrow> bool" where
  "reads from_str vars name = (case vars name of None \<Rightarrow> True | Some raw \<Rightarrow> \<not> isl (from_str (str_trim raw)))"

lemma parsed_errors_name: "map config_error_name (parsed_errors from_str vars name) = (if reads from_str vars name then [] else [name])"
  by (auto simp: parsed_errors_def reads_def split: option.splits sum.splits)

definition present :: "variables \<Rightarrow> string \<Rightarrow> bool" where
  "present vars name = (case vars name of None \<Rightarrow> False | Some v \<Rightarrow> str_trim v \<noteq> [])"

text \<open>The settings in the order of their reading, each with whether it is as it should be.\<close>

definition settings :: "(string \<Rightarrow> string + 'ip) \<Rightarrow> variables \<Rightarrow> (string \<times> bool) list" where
  "settings parse_ip vars =
     [(''DATABASE_URL'', present vars ''DATABASE_URL''),
      (''JWT_SECRET'', present vars ''JWT_SECRET'' \<and> MIN_JWT_SECRET_LEN \<le> length (the (vars ''JWT_SECRET''))),
      (''HOST'', reads parse_ip vars ''HOST''),
      (''PORT'', reads (parse_uint :: string \<Rightarrow> string + 16 word) vars ''PORT''),
      (''REQUEST_TIMEOUT_SECS'', reads (parse_uint :: string \<Rightarrow> string + u64) vars ''REQUEST_TIMEOUT_SECS''),
      (''SHUTDOWN_GRACE_SECS'', reads (parse_uint :: string \<Rightarrow> string + u64) vars ''SHUTDOWN_GRACE_SECS''),
      (''BODY_LIMIT_BYTES'', reads (parse_uint :: string \<Rightarrow> string + u64) vars ''BODY_LIMIT_BYTES''),
      (''DATABASE_MAX_CONNECTIONS'', reads (parse_uint :: string \<Rightarrow> string + u32) vars ''DATABASE_MAX_CONNECTIONS''),
      (''AUTO_MIGRATE'', reads parse_bool vars ''AUTO_MIGRATE''),
      (''DATABASE_STARTUP_TIMEOUT_SECS'', reads (parse_uint :: string \<Rightarrow> string + u64) vars ''DATABASE_STARTUP_TIMEOUT_SECS''),
      (''TOKEN_TTL_SECS'', reads (parse_uint :: string \<Rightarrow> string + u64) vars ''TOKEN_TTL_SECS''),
      (''CACHE_REFRESH_SECS'', reads (parse_uint :: string \<Rightarrow> string + u64) vars ''CACHE_REFRESH_SECS''),
      (''RATE_LIMIT_BURST'', reads (parse_uint :: string \<Rightarrow> string + u32) vars ''RATE_LIMIT_BURST''),
      (''RATE_LIMIT_PER_SECOND'', reads (parse_uint :: string \<Rightarrow> string + u32) vars ''RATE_LIMIT_PER_SECOND''),
      (''APP_ENV'', vars ''APP_ENV'' \<in> {None, Some ''production'', Some ''prod'', Some ''development'', Some ''dev''})]"

lemma secret_names:
  "(if present vars ''JWT_SECRET'' then [] else [''JWT_SECRET'']) @
     map config_error_name (secret_errors (required_value vars ''JWT_SECRET'')) =
   (if present vars ''JWT_SECRET'' \<and> MIN_JWT_SECRET_LEN \<le> length (the (vars ''JWT_SECRET'')) then [] else [''JWT_SECRET''])"
  by (auto simp: required_value_def present_def secret_errors_def check_secret_def split: option.splits)

lemma required_names:
  "map config_error_name (if required_value vars n = None then [Missing n] else []) = (if present vars n then [] else [n])"
  by (auto simp: required_value_def present_def split: option.splits)

lemma app_env_names:
  "map config_error_name (app_env_errors vars) =
     (if vars ''APP_ENV'' \<in> {None, Some ''production'', Some ''prod'', Some ''development'', Some ''dev''} then [] else [''APP_ENV''])"
  by (auto simp: app_env_errors_def app_env_def split: option.splits)

lemma sint_before:
  assumes "0 < now" and "now < 2 ^ 63"
  shows "sint ((word_of_int now :: u64) + - 1) = now - 1"
proof -
  have "(word_of_int now :: u64) + - 1 = word_of_int (now - 1)" by simp
  then have "sint ((word_of_int now :: u64) + - 1) = signed_take_bit 63 (now - 1)"
    by (simp only: signed_of_int) simp
  also have "\<dots> = now - 1" using assms by (simp add: signed_take_bit_int_eq_self)
  finally show ?thesis .
qed

lemma wrong_names: "map fst (filter (\<lambda>(_, ok). \<not> ok) xs) = concat (map (\<lambda>(n, ok). if ok then [] else [n]) xs)"
  by (induction xs) auto

lemma from_env_outcome:
  "\<exists>errors. map config_error_name errors = map fst (filter (\<lambda>(_, ok). \<not> ok) (settings parse_ip vars)) \<and>
     (errors \<noteq> [] \<longrightarrow> from_env parse_ip any vars = Inl errors) \<and>
     (errors = [] \<longrightarrow> (\<exists>c. from_env parse_ip any vars = Inr c \<and>
        dbc_url (cfg_database c) = the (required_value vars ''DATABASE_URL'') \<and>
        ac_jwt_secret (cfg_auth c) = the (required_value vars ''JWT_SECRET'') \<and>
        cfg_refresh_interval c = parsed_value parse_uint vars ''CACHE_REFRESH_SECS'' 60 \<and>
        ac_token_ttl (cfg_auth c) = parsed_value parse_uint vars ''TOKEN_TTL_SECS'' (12 * 3600)))"
proof -
  let ?u16 = "parse_uint :: string \<Rightarrow> string + 16 word" and ?u32 = "parse_uint :: string \<Rightarrow> string + u32"
    and ?u64 = "parse_uint :: string \<Rightarrow> string + u64"
  define errors where "errors =
    (if required_value vars ''DATABASE_URL'' = None then [Missing ''DATABASE_URL''] else []) @
    ((if required_value vars ''JWT_SECRET'' = None then [Missing ''JWT_SECRET''] else []) @
       secret_errors (required_value vars ''JWT_SECRET'')) @
    parsed_errors parse_ip vars ''HOST'' @ parsed_errors ?u16 vars ''PORT'' @ parsed_errors ?u64 vars ''REQUEST_TIMEOUT_SECS'' @
    parsed_errors ?u64 vars ''SHUTDOWN_GRACE_SECS'' @ parsed_errors ?u64 vars ''BODY_LIMIT_BYTES'' @
    parsed_errors ?u32 vars ''DATABASE_MAX_CONNECTIONS'' @ parsed_errors parse_bool vars ''AUTO_MIGRATE'' @
    parsed_errors ?u64 vars ''DATABASE_STARTUP_TIMEOUT_SECS'' @ parsed_errors ?u64 vars ''TOKEN_TTL_SECS'' @
    parsed_errors ?u64 vars ''CACHE_REFRESH_SECS'' @ parsed_errors ?u32 vars ''RATE_LIMIT_BURST'' @
    parsed_errors ?u32 vars ''RATE_LIMIT_PER_SECOND'' @ app_env_errors vars"
  have names: "map config_error_name errors = map fst (filter (\<lambda>(_, ok). \<not> ok) (settings parse_ip vars))"
    unfolding errors_def map_append required_names secret_names parsed_errors_name app_env_names wrong_names settings_def
    by (simp only: list.map concat.simps split_conv append_Nil2)
  note parts = from_env_def Let_def required_parts parsed_parts seconds_setting_def check_secret_parts app_env_parts split_conv append_assoc append_Nil
  have failed: "from_env parse_ip any vars = Inl errors" if "errors \<noteq> []"
    using that by (simp only: parts errors_def not_False_eq_True if_True)
  have accepted: "\<exists>c. from_env parse_ip any vars = Inr c \<and> dbc_url (cfg_database c) = the (required_value vars ''DATABASE_URL'') \<and>
      ac_jwt_secret (cfg_auth c) = the (required_value vars ''JWT_SECRET'') \<and>
      cfg_refresh_interval c = parsed_value parse_uint vars ''CACHE_REFRESH_SECS'' 60 \<and>
      ac_token_ttl (cfg_auth c) = parsed_value parse_uint vars ''TOKEN_TTL_SECS'' (12 * 3600)" if "errors = []"
    using that by (simp only: parts errors_def) simp
  show ?thesis using names failed accepted by blast
qed

lemma settings_sound: "list_all snd (settings parse_ip vars) \<longleftrightarrow> filter (\<lambda>(_, ok). \<not> ok) (settings parse_ip vars) = []"
  by (auto simp: list_all_iff filter_empty_conv split: prod.splits)

lemma settings_required:
  assumes "list_all snd (settings parse_ip vars)"
  shows "required_value vars ''DATABASE_URL'' = vars ''DATABASE_URL''" "vars ''DATABASE_URL'' \<noteq> None"
    "required_value vars ''JWT_SECRET'' = vars ''JWT_SECRET''" "vars ''JWT_SECRET'' \<noteq> None"
    "32 \<le> length (the (vars ''JWT_SECRET''))"
  using assms by (auto simp: settings_def present_def required_value_def MIN_JWT_SECRET_LEN_def split: option.splits)

section \<open>Properties\<close>

text \<open>
  C36. A misconfiguration is reported whole. The configuration is accepted if and only if every setting is as it should
  be; otherwise the errors name exactly the settings that are not, each once and in the order of
  their reading. An accepted configuration has the database and the secret of the environment, and
  a secret of at least 32 bytes.
\<close>

theorem config_reports_every_problem:
  "(case from_env parse_ip any vars of
      Inl errors \<Rightarrow> errors \<noteq> [] \<and>
        map config_error_name errors = map fst (filter (\<lambda>(_, ok). \<not> ok) (settings parse_ip vars))
    | Inr c \<Rightarrow> list_all snd (settings parse_ip vars) \<and> vars ''DATABASE_URL'' = Some (dbc_url (cfg_database c)) \<and>
        vars ''JWT_SECRET'' = Some (ac_jwt_secret (cfg_auth c)) \<and> 32 \<le> length (ac_jwt_secret (cfg_auth c)))"
proof -
  obtain errors where errors: "map config_error_name errors = map fst (filter (\<lambda>(_, ok). \<not> ok) (settings parse_ip vars))"
      "errors \<noteq> [] \<Longrightarrow> from_env parse_ip any vars = Inl errors"
      "errors = [] \<Longrightarrow> \<exists>c. from_env parse_ip any vars = Inr c \<and>
        dbc_url (cfg_database c) = the (required_value vars ''DATABASE_URL'') \<and>
        ac_jwt_secret (cfg_auth c) = the (required_value vars ''JWT_SECRET'')"
    using from_env_outcome [of parse_ip vars any] by blast
  show ?thesis
  proof (cases "errors = []")
    case True
    then have ok: "list_all snd (settings parse_ip vars)" using errors(1) by (simp add: settings_sound)
    with errors(3) [OF True] settings_required [OF ok] show ?thesis by auto
  qed (use errors in simp)
qed

text \<open>
  Passwords before the host are not printed. Whatever stands between the scheme and the last at sign of
  a database address, the printed address is the same; and an address without an at sign is
  printed as it is, so that a password given as a parameter of the address is printed.
\<close>

theorem redaction_hides_credentials:
  assumes "CHR '':'' \<notin> set scheme" and "CHR ''@'' \<notin> set host"
  shows "redact_url (scheme @ ''://'' @ secret @ ''@'' @ host) = scheme @ ''://[redacted]@'' @ host \<and>
    redact_url (scheme @ ''://'' @ host) = scheme @ ''://'' @ host"
proof -
  have split: "split_once_str ''://'' (scheme @ ''://'' @ rest) = Some (scheme, rest)" for rest
    using assms(1) by (induction scheme) (auto simp: starts_with_def)
  have "split_once CHR ''@'' (rev host @ CHR ''@'' # rev secret) = Some (rev host, rev secret)"
    using assms(2) by (simp add: split_once_append)
  then have "rsplit_once CHR ''@'' (secret @ ''@'' @ host) = Some (secret, host)" by (simp add: rsplit_once_def)
  moreover have "rsplit_once CHR ''@'' host = None" using assms(2) by (simp add: rsplit_once_def split_once_none)
  ultimately show ?thesis by (simp add: redact_url_def split [simplified])
qed

theorem redaction_hides_credentials_witness:
  "redact_url ''postgres://u:p@ss@db/x'' = ''postgres://[redacted]@db/x'' \<and>
   redact_url ''postgres://db/x?password=p'' = ''postgres://db/x?password=p''"
  using redaction_hides_credentials [of "''postgres''" "''db/x''" "''u:p@ss''"]
    redaction_hides_credentials [of "''postgres''" "''db/x?password=p''" "[]"] by simp

text \<open>
  The configuration accepts what the process cannot use. With a valid environment, a refresh interval of
  zero, which the timer of the sweep does not take, is accepted as it is; and so is the longest lifetime
  of a token, with which a token expires a second before it is issued.
\<close>

theorem unusable_settings_are_accepted:
  assumes "list_all snd (settings parse_ip vars)" and "0 < now" and "now < 2 ^ 63"
  shows "(\<exists>c. from_env parse_ip any (vars(''CACHE_REFRESH_SECS'' \<mapsto> ''0'')) = Inr c \<and> cfg_refresh_interval c = 0) \<and>
    (\<exists>c. from_env parse_ip any (vars(''TOKEN_TTL_SECS'' \<mapsto> ''18446744073709551615'')) = Inr c \<and>
       sint ((word_of_int now :: u64) + ac_token_ttl (cfg_auth c)) = now - 1)"
proof
  let ?zero = "vars(''CACHE_REFRESH_SECS'' \<mapsto> ''0'')" and ?long = "vars(''TOKEN_TTL_SECS'' \<mapsto> ''18446744073709551615'')"
  have trim: "str_trim ''0'' = ''0''" "str_trim ''18446744073709551615'' = ''18446744073709551615''"
    by (rule trim_alphanumeric; simp add: is_ascii_alphanumeric_def)+
  have parse: "(parse_uint ''0'' :: string + u64) = Inr 0" "(parse_uint ''18446744073709551615'' :: string + u64) = Inr (- 1)"
    by (simp_all add: parse_uint_def)
  have "list_all snd (settings parse_ip ?zero)" "list_all snd (settings parse_ip ?long)"
    using assms(1) by (simp_all add: settings_def present_def reads_def trim parse)
  then have ok: "filter (\<lambda>(_, ok). \<not> ok) (settings parse_ip ?zero) = []" "filter (\<lambda>(_, ok). \<not> ok) (settings parse_ip ?long) = []"
    by (simp_all only: settings_sound)
  have "parsed_value parse_uint ?zero ''CACHE_REFRESH_SECS'' (60 :: u64) = 0" by (simp add: parsed_value_def trim parse)
  with from_env_outcome [of parse_ip ?zero any] ok(1)
  show "\<exists>c. from_env parse_ip any ?zero = Inr c \<and> cfg_refresh_interval c = 0" by auto
  have "parsed_value parse_uint ?long ''TOKEN_TTL_SECS'' (12 * 3600 :: u64) = - 1" by (simp add: parsed_value_def trim parse)
  moreover have "sint ((word_of_int now :: u64) + - 1) = now - 1" using assms(2,3) by (rule sint_before)
  ultimately show "\<exists>c. from_env parse_ip any ?long = Inr c \<and> sint ((word_of_int now :: u64) + ac_token_ttl (cfg_auth c)) = now - 1"
    using from_env_outcome [of parse_ip ?long any] ok(2) by auto
qed

definition demo_variables :: variables where
  "demo_variables = [''DATABASE_URL'' \<mapsto> ''d'', ''JWT_SECRET'' \<mapsto> ''01234567890123456789012345678901'']"

theorem unusable_settings_are_accepted_witness:
  "\<exists>c. from_env (\<lambda>s. Inr s) ''0.0.0.0'' (demo_variables(''CACHE_REFRESH_SECS'' \<mapsto> ''0'')) = Inr c \<and> cfg_refresh_interval c = 0"
proof -
  have "str_trim ''d'' = ''d''" "str_trim ''01234567890123456789012345678901'' = ''01234567890123456789012345678901''"
    by (rule trim_alphanumeric; simp add: is_ascii_alphanumeric_def)+
  then have "list_all snd (settings (\<lambda>s. Inr s) demo_variables)"
    by (simp add: settings_def present_def reads_def demo_variables_def MIN_JWT_SECRET_LEN_def)
  then show ?thesis
    by (rule unusable_settings_are_accepted [where now = 1, THEN conjunct1]) simp_all
qed

end
