(* ===== verification/Api_Dashboard.thy ===== *)
theory Api_Dashboard
  imports Api_Config
begin

text \<open>
  \<^verbatim>\<open>crates/api/src/dashboard.rs\<close>: the files of the dashboard. What was bundled into the binary is a
  parameter, a map from paths to files with their hashes.
\<close>

section \<open>Files\<close>

record asset =
  as_data :: string
  as_hash :: string

datatype dashboard_response =
    ProblemResponse error_response
  | NotModified
  | FileResponse (file_type: string) (file_cache_control: string) (file_etag: string) (file_body: string)
  | NotBundled

definition is_bundled :: "(string \<Rightarrow> asset option) \<Rightarrow> bool" where
  "is_bundled assets = (assets ''index.html'' \<noteq> None)"

definition hex :: "string \<Rightarrow> string" where
  "hex bytes = concat (map (\<lambda>c. [hex_digit (of_char c div 16), hex_digit (of_char c mod 16)]) bytes)"

definition cache_control :: "string \<Rightarrow> string" where
  "cache_control path =
     (if path = ''index.html'' \<or> path = [] then ''no-cache'' else ''public, max-age=31536000, immutable'')"

definition content_type :: "string \<Rightarrow> string" where
  "content_type path =
     (case map_option snd (rsplit_once CHR ''.'' path) of
        None \<Rightarrow> ''text/html; charset=utf-8''
      | Some ext \<Rightarrow>
          if ext = ''html'' then ''text/html; charset=utf-8''
          else if ext = ''js'' then ''text/javascript; charset=utf-8''
          else if ext = ''css'' then ''text/css; charset=utf-8''
          else if ext = ''wasm'' then ''application/wasm''
          else if ext = ''json'' then ''application/json''
          else if ext = ''svg'' then ''image/svg+xml''
          else if ext = ''png'' then ''image/png''
          else if ext = ''ico'' then ''image/x-icon''
          else if ext = ''woff2'' then ''font/woff2''
          else ''application/octet-stream'')"

definition etag_of :: "string \<Rightarrow> string" where
  "etag_of hash = CHR 0x22 # hex (take 8 hash) @ [CHR 0x22]"

text \<open>\<open>if_none_match\<close> is the header of that name, when it is a text. The tag is always a valid header value.\<close>

definition respond_file :: "string \<Rightarrow> asset \<Rightarrow> string option \<Rightarrow> dashboard_response" where
  "respond_file path file if_none_match =
     (if if_none_match = Some (etag_of (as_hash file)) then NotModified
      else FileResponse (content_type path) (cache_control path) (etag_of (as_hash file)) (as_data file))"

definition serve_dashboard :: "(string \<Rightarrow> asset option) \<Rightarrow> string \<Rightarrow> string option \<Rightarrow> dashboard_response" where
  "serve_dashboard assets uri_path if_none_match =
     (if starts_with uri_path ''/api/'' then ProblemResponse (into_response (ApiNotFound ''endpoint''))
      else (let path = dropWhile (\<lambda>c. c = CHR ''/'') uri_path
            in case assets path of
                 Some file \<Rightarrow> respond_file path file if_none_match
               | None \<Rightarrow>
                   (case assets ''index.html'' of
                      Some shell \<Rightarrow> respond_file ''index.html'' shell if_none_match
                    | None \<Rightarrow> NotBundled)))"

lemmas dashboard_defs [model_defs] =
  is_bundled_def hex_def cache_control_def content_type_def etag_of_def respond_file_def serve_dashboard_def

section \<open>Properties\<close>

text \<open>
  What the fallback route answers. Under the interface's own prefix it is always a problem document; any other path
  is answered from the bundle or with its shell, and only without a bundle with neither; the shell is
  an HTML page that is never cached for good, so that a release is seen at the next load; and who
  sends the tag of an answer back is told that nothing changed.
\<close>

theorem dashboard_answers:
  "(starts_with p ''/api/'' \<longrightarrow> serve_dashboard assets p inm = ProblemResponse (into_response (ApiNotFound ''endpoint''))) \<and>
   (\<not> starts_with p ''/api/'' \<longrightarrow>
      (serve_dashboard assets p inm = NotBundled \<longleftrightarrow> assets (dropWhile (\<lambda>c. c = CHR ''/'') p) = None \<and> \<not> is_bundled assets) \<and>
      (\<forall>t c e b. serve_dashboard assets p inm = FileResponse t c e b \<longrightarrow>
         serve_dashboard assets p (Some e) = NotModified \<and>
         (assets (dropWhile (\<lambda>c. c = CHR ''/'') p) = None \<longrightarrow> t = ''text/html; charset=utf-8'' \<and> c = ''no-cache'')))"
proof -
  have "rsplit_once CHR ''.'' ''index.html'' = Some (''index'', ''html'')" by code_simp
  then have "content_type ''index.html'' = ''text/html; charset=utf-8''" by (simp add: content_type_def)
  then show ?thesis
    by (auto simp: serve_dashboard_def respond_file_def is_bundled_def cache_control_def Let_def split: option.splits)
qed

definition demo_assets :: "string \<Rightarrow> asset option" where
  "demo_assets = [''index.html'' \<mapsto> \<lparr>as_data = ''<html>'', as_hash = replicate 32 (CHR ''a'')\<rparr>]"

theorem dashboard_answers_witness:
  "serve_dashboard demo_assets ''/projects/shop'' (Some (CHR 0x22 # ''6161616161616161'' @ [CHR 0x22])) = NotModified"
proof -
  have "etag_of (replicate 32 (CHR ''a'')) = CHR 0x22 # ''6161616161616161'' @ [CHR 0x22]" by code_simp
  then have "\<exists>t c b. serve_dashboard demo_assets ''/projects/shop'' None = FileResponse t c (CHR 0x22 # ''6161616161616161'' @ [CHR 0x22]) b"
    by (simp add: serve_dashboard_def starts_with_def demo_assets_def respond_file_def)
  then show ?thesis
    using dashboard_answers [of "''/projects/shop''" demo_assets None] by (auto simp: starts_with_def)
qed

end
