(* ===== verification/Web_Numbers.thy ===== *)
theory Web_Numbers
  imports Web_Api
begin

text \<open>
  The arithmetic the dashboard does on doubles: reading a number from a text field, scaling a
  percentage to a weight, rounding and saturating. Results are rounded to the nearest double,
  ties to even, as the hardware does.
\<close>

section \<open>Rounding\<close>

definition f64_of_rat :: "rat \<Rightarrow> f64" where
  "f64_of_rat x =
     (if x = 0 then Finite 0
      else let e = ulp_exponent \<bar>x\<bar>; r = of_int (round_half_even (\<bar>x\<bar> / pow2 e)) * pow2 e
           in if pow2 1024 \<le> r then Infinity (x < 0) else Finite (sgn x * r))"

text \<open>Division by, and multiplication with, a positive finite number.\<close>

fun f64_div_by :: "f64 \<Rightarrow> rat \<Rightarrow> f64" where
  "f64_div_by (Finite x) c = f64_of_rat (x / c)"
| "f64_div_by y c = y"

fun f64_times :: "f64 \<Rightarrow> rat \<Rightarrow> f64" where
  "f64_times (Finite x) c = f64_of_rat (x * c)"
| "f64_times y c = y"

text \<open>\<^verbatim>\<open>f64::round\<close> rounds halves away from zero.\<close>

fun f64_round :: "f64 \<Rightarrow> f64" where
  "f64_round (Finite x) = Finite (if 0 \<le> x then of_int \<lfloor>x + 1 / 2\<rfloor> else - of_int \<lfloor>1 / 2 - x\<rfloor>)"
| "f64_round y = y"

fun f64_clamp :: "rat \<Rightarrow> rat \<Rightarrow> f64 \<Rightarrow> f64" where
  "f64_clamp lo hi (Finite x) = Finite (max lo (min hi x))"
| "f64_clamp lo hi (Infinity n) = Finite (if n then lo else hi)"
| "f64_clamp lo hi NaN = NaN"

text \<open>\<^verbatim>\<open>as u32\<close> saturates, and takes NaN to zero.\<close>

fun f64_as_u32 :: "f64 \<Rightarrow> u32" where
  "f64_as_u32 (Finite x) = (if x \<le> 0 then 0 else if 2 ^ 32 - 1 \<le> x then - 1 else of_int \<lfloor>x\<rfloor>)"
| "f64_as_u32 (Infinity n) = (if n then 0 else - 1)"
| "f64_as_u32 NaN = 0"

section \<open>Reading a number\<close>

definition is_digit :: "char \<Rightarrow> bool" where
  "is_digit c = (48 \<le> (of_char c :: nat) \<and> (of_char c :: nat) \<le> 57)"

fun span_digits :: "string \<Rightarrow> string \<times> string" where
  "span_digits [] = ([], [])"
| "span_digits (c # s) = (if is_digit c then (let (ds, r) = span_digits s in (c # ds, r)) else ([], c # s))"

text \<open>An optional sign and the rest.\<close>

definition strip_sign :: "string \<Rightarrow> bool \<times> string" where
  "strip_sign s =
     (case s of [] \<Rightarrow> (False, [])
      | c # r \<Rightarrow> if c = CHR ''-'' then (True, r) else if c = CHR ''+'' then (False, r) else (False, s))"

definition parse_exponent :: "string \<Rightarrow> int option" where
  "parse_exponent s =
     (case s of
        [] \<Rightarrow> Some 0
      | c # r \<Rightarrow>
          if c = CHR ''e'' \<or> c = CHR ''E'' then
            (let (negative, t) = strip_sign r; (ds, rest) = span_digits t
             in if ds = [] \<or> rest \<noteq> [] then None
                else map_option (\<lambda>n. if negative then - int n else int n) (digits_value 0 ds))
          else None)"

definition parse_decimal :: "string \<Rightarrow> rat option" where
  "parse_decimal s =
     (let (whole, r) = span_digits s;
          (fraction, r') = (case r of c # t \<Rightarrow> if c = CHR ''.'' then span_digits t else ([], r) | [] \<Rightarrow> ([], []))
      in if whole = [] \<and> fraction = [] then None
         else Option.bind (parse_exponent r') (\<lambda>e.
           map_option (\<lambda>n. of_nat n * pow10 (e - int (length fraction))) (digits_value 0 (whole @ fraction))))"

text \<open>\<^verbatim>\<open>f64::from_str\<close>.\<close>

definition parse_f64 :: "string \<Rightarrow> f64 option" where
  "parse_f64 s =
     (let (negative, t) = strip_sign s
      in if eq_ignore_ascii_case t ''inf'' \<or> eq_ignore_ascii_case t ''infinity'' then Some (Infinity negative)
         else if eq_ignore_ascii_case t ''nan'' then Some NaN
         else map_option (\<lambda>x. f64_of_rat (if negative then - x else x)) (parse_decimal t))"

lemmas number_defs [model_defs] = is_digit_def strip_sign_def parse_exponent_def parse_decimal_def parse_f64_def f64_of_rat_def

end
