(* ===== verification/Web_Editor.thy ===== *)
theory Web_Editor
  imports Web_Numbers Api_Effects
begin

text \<open>
  \<^verbatim>\<open>crates/web/src/pages/flag.rs\<close>: the edit buffer of a flag's configuration in one environment, the
  edits its controls make, the checks before a save and the preview. A control's handler is a
  function from the draft to the draft; the text of an input is its argument.
\<close>

section \<open>The draft\<close>

record web_flag_config =
  wfc_flag_id :: string
  wfc_environment_id :: string
  wfc_enabled :: bool
  wfc_off_variant :: string
  wfc_fallthrough :: distribution
  wfc_rules :: "rule list"
  wfc_version :: int
  wfc_updated_at :: string

record flag_draft =
  fd_enabled :: bool
  fd_off_variant :: string
  fd_fallthrough :: distribution
  fd_rules :: "rule list"
  fd_version :: int

definition draft_of_config :: "web_flag_config \<Rightarrow> flag_draft" where
  "draft_of_config c =
     \<lparr>fd_enabled = wfc_enabled c, fd_off_variant = wfc_off_variant c, fd_fallthrough = wfc_fallthrough c,
      fd_rules = wfc_rules c, fd_version = wfc_version c\<rparr>"

definition save_body :: "flag_draft \<Rightarrow> config_body" where
  "save_body d =
     \<lparr>cb_enabled = fd_enabled d, cb_off_variant = fd_off_variant d, cb_fallthrough = fd_fallthrough d,
      cb_rules = fd_rules d, cb_expected_version = fd_version d\<rparr>"

text \<open>The live validation: the validator of the server, then the references to segments.\<close>

definition editor_issues ::
  "('re, 'ver) externals \<Rightarrow> string \<Rightarrow> flag_draft option \<Rightarrow> variant list \<Rightarrow> segment_set \<Rightarrow> validation_issue list" where
  "editor_issues X fkey draft variants segments =
     (case draft of
        Some d \<Rightarrow>
          if variants = [] then []
          else (let candidate = \<lparr>flag_key = fkey, flag_variants = variants, flag_enabled = True,
                      flag_off_variant = fd_off_variant d, flag_fallthrough = fd_fallthrough d,
                      flag_rules = fd_rules d, flag_version = fd_version d\<rparr>;
                    issues = (case validate X candidate of Inl is \<Rightarrow> is | Inr _ \<Rightarrow> []);
                    dangling = (case validate_references candidate (set (map fst segments)) of Inl is \<Rightarrow> is | Inr _ \<Rightarrow> [])
                in issues @ dangling)
      | None \<Rightarrow> [])"

definition is_dirty :: "flag_draft option \<Rightarrow> flag_draft load_state \<Rightarrow> bool" where
  "is_dirty draft loaded =
     (case (draft, loaded) of (Some current, Ready original) \<Rightarrow> current \<noteq> original | _ \<Rightarrow> False)"

section \<open>Rules\<close>

text \<open>\<^verbatim>\<open>Vec::get_mut\<close> with an update, and \<^verbatim>\<open>Vec::remove\<close>, which the page only calls on a row it shows.\<close>

definition update_at :: "nat \<Rightarrow> ('a \<Rightarrow> 'a) \<Rightarrow> 'a list \<Rightarrow> 'a list" where
  "update_at i f xs = (if i < length xs then xs[i := f (xs ! i)] else xs)"

definition remove_at :: "nat \<Rightarrow> 'a list \<Rightarrow> 'a list" where
  "remove_at i xs = take i xs @ drop (Suc i) xs"

definition edit_rule :: "nat \<Rightarrow> (rule \<Rightarrow> rule) \<Rightarrow> flag_draft \<Rightarrow> flag_draft" where
  "edit_rule i f d = d\<lparr>fd_rules := update_at i f (fd_rules d)\<rparr>"

definition add_rule :: "uuid \<Rightarrow> variant list \<Rightarrow> flag_draft \<Rightarrow> flag_draft" where
  "add_rule new_uuid variants d =
     (case variants of
        [] \<Rightarrow> d
      | v # _ \<Rightarrow> d\<lparr>fd_rules := fd_rules d @ [rule_new new_uuid
            [\<lparr>cond_attribute = ''plan'', cond_operator = In, cond_values = [AString ''pro'']\<rparr>] (Fixed (variant_key v))]\<rparr>)"

definition remove_rule :: "nat \<Rightarrow> flag_draft \<Rightarrow> flag_draft" where
  "remove_rule i d = d\<lparr>fd_rules := remove_at i (fd_rules d)\<rparr>"

definition describe_rule :: "nat \<Rightarrow> string \<Rightarrow> flag_draft \<Rightarrow> flag_draft" where
  "describe_rule i text = edit_rule i (\<lambda>r. r\<lparr>rule_description :=
     (if str_trim text = [] then None else Some (str_trim text))\<rparr>)"

definition add_condition :: "nat \<Rightarrow> flag_draft \<Rightarrow> flag_draft" where
  "add_condition i = edit_rule i (\<lambda>r. r\<lparr>rule_conditions := rule_conditions r @
     [\<lparr>cond_attribute = ''country'', cond_operator = In, cond_values = [AString ''ES'']\<rparr>]\<rparr>)"

definition serve_variant :: "nat \<Rightarrow> string \<Rightarrow> flag_draft \<Rightarrow> flag_draft" where
  "serve_variant i v = edit_rule i (\<lambda>r. r\<lparr>rule_distribution := Fixed v\<rparr>)"

section \<open>Segments of a rule\<close>

definition segment_entries :: "segment_match option \<Rightarrow> (bool \<times> string) list" where
  "segment_entries m =
     (case m of None \<Rightarrow> []
      | Some r \<Rightarrow> map (\<lambda>k. (True, k)) (sm_any_of r) @ map (\<lambda>k. (False, k)) (sm_none_of r))"

fun match_of_entries :: "(bool \<times> string) list \<Rightarrow> segment_match \<Rightarrow> segment_match" where
  "match_of_entries [] m = m"
| "match_of_entries ((must_be_in, k) # es) m =
     match_of_entries es
       (if must_be_in then m\<lparr>sm_any_of := sm_any_of m @ [k]\<rparr> else m\<lparr>sm_none_of := sm_none_of m @ [k]\<rparr>)"

definition to_segment_match :: "(bool \<times> string) list \<Rightarrow> segment_match option" where
  "to_segment_match es =
     (if es = [] then None else Some (match_of_entries es \<lparr>sm_any_of = [], sm_none_of = []\<rparr>))"

definition edit_segments ::
  "nat \<Rightarrow> ((bool \<times> string) list \<Rightarrow> (bool \<times> string) list) \<Rightarrow> flag_draft \<Rightarrow> flag_draft" where
  "edit_segments i f = edit_rule i (\<lambda>r. r\<lparr>rule_segments := to_segment_match (f (segment_entries (rule_segments r)))\<rparr>)"

definition add_segment :: "nat \<Rightarrow> segment_set \<Rightarrow> flag_draft \<Rightarrow> flag_draft" where
  "add_segment i segments d =
     (case segments of [] \<Rightarrow> d | (first, _) # _ \<Rightarrow> edit_segments i (\<lambda>es. es @ [(True, first)]) d)"

definition set_membership :: "nat \<Rightarrow> nat \<Rightarrow> string \<Rightarrow> flag_draft \<Rightarrow> flag_draft" where
  "set_membership i j choice = edit_segments i (update_at j (\<lambda>(_, k). (choice = ''in'', k)))"

definition set_segment :: "nat \<Rightarrow> nat \<Rightarrow> string \<Rightarrow> flag_draft \<Rightarrow> flag_draft" where
  "set_segment i j k = edit_segments i (update_at j (\<lambda>(must_be_in, _). (must_be_in, k)))"

definition remove_segment :: "nat \<Rightarrow> nat \<Rightarrow> flag_draft \<Rightarrow> flag_draft" where
  "remove_segment i j = edit_segments i (remove_at j)"

section \<open>Conditions\<close>

text \<open>The wire names of the operators, in the order of the menu.\<close>

definition OPERATORS :: "(string \<times> operator) list" where
  "OPERATORS =
     [(''in'', In), (''not_in'', NotIn), (''contains'', Contains), (''not_contains'', NotContains),
      (''starts_with'', StartsWith), (''ends_with'', EndsWith), (''greater_than'', GreaterThan),
      (''greater_than_or_equal'', GreaterThanOrEqual), (''less_than'', LessThan),
      (''less_than_or_equal'', LessThanOrEqual), (''matches'', Matches), (''not_matches'', NotMatches),
      (''semver_equal'', SemverEqual), (''semver_greater_than'', SemverGreaterThan),
      (''semver_less_than'', SemverLessThan), (''exists'', Exists), (''not_exists'', NotExists)]"

definition operator_from :: "string \<Rightarrow> operator option" where
  "operator_from raw = map_of OPERATORS raw"

definition operator_key :: "operator \<Rightarrow> string" where
  "operator_key op = (case find (\<lambda>(_, o'). o' = op) OPERATORS of Some (k, _) \<Rightarrow> k | None \<Rightarrow> ''in'')"

definition parse_value :: "string \<Rightarrow> attribute_value" where
  "parse_value piece = (case parse_f64 piece of Some n \<Rightarrow> ANumber n | None \<Rightarrow> AString piece)"

definition parse_values :: "string \<Rightarrow> attribute_value list" where
  "parse_values raw = map parse_value (filter (\<lambda>piece. piece \<noteq> []) (map str_trim (split_on CHR '','' raw)))"

definition values_text :: "attribute_value list \<Rightarrow> string" where
  "values_text vs = join '', '' (List.map_filter attr_to_text vs)"

definition edit_condition :: "nat \<Rightarrow> nat \<Rightarrow> (condition \<Rightarrow> condition) \<Rightarrow> flag_draft \<Rightarrow> flag_draft" where
  "edit_condition i j f = edit_rule i (\<lambda>r. r\<lparr>rule_conditions := update_at j f (rule_conditions r)\<rparr>)"

definition set_attribute :: "nat \<Rightarrow> nat \<Rightarrow> string \<Rightarrow> flag_draft \<Rightarrow> flag_draft" where
  "set_attribute i j text = edit_condition i j (\<lambda>c. c\<lparr>cond_attribute := text\<rparr>)"

definition set_operator :: "nat \<Rightarrow> nat \<Rightarrow> string \<Rightarrow> flag_draft \<Rightarrow> flag_draft" where
  "set_operator i j raw = edit_condition i j (\<lambda>c.
     case operator_from raw of Some op \<Rightarrow> c\<lparr>cond_operator := op\<rparr> | None \<Rightarrow> c)"

definition set_values :: "nat \<Rightarrow> nat \<Rightarrow> string \<Rightarrow> flag_draft \<Rightarrow> flag_draft" where
  "set_values i j raw = edit_condition i j (\<lambda>c. c\<lparr>cond_values := parse_values raw\<rparr>)"

definition remove_condition :: "nat \<Rightarrow> nat \<Rightarrow> flag_draft \<Rightarrow> flag_draft" where
  "remove_condition i j = edit_rule i (\<lambda>r. r\<lparr>rule_conditions := remove_at j (rule_conditions r)\<rparr>)"

section \<open>The default distribution\<close>

text \<open>The count of variants is converted to 32 bits; the remainder of the division goes to the first.\<close>

definition even_split :: "variant list \<Rightarrow> weighted_variant list" where
  "even_split variants =
     (if variants = [] then []
      else let n = of_nat (length variants) :: u32;
               share = TOTAL_WEIGHT div n;
               weights = map (\<lambda>v. \<lparr>wv_variant = variant_key v, wv_weight = share\<rparr>) variants;
               assigned = share * n
           in (hd weights)\<lparr>wv_weight := wv_weight (hd weights) + (TOTAL_WEIGHT - assigned)\<rparr> # tl weights)"

definition set_mode :: "bool \<Rightarrow> variant list \<Rightarrow> flag_draft \<Rightarrow> flag_draft" where
  "set_mode rollout variants d = d\<lparr>fd_fallthrough :=
     (if rollout then Rollout (even_split variants) None
      else Fixed (case variants of [] \<Rightarrow> [] | v # _ \<Rightarrow> variant_key v))\<rparr>"

definition set_fallthrough_variant :: "string \<Rightarrow> flag_draft \<Rightarrow> flag_draft" where
  "set_fallthrough_variant v d = d\<lparr>fd_fallthrough := Fixed v\<rparr>"

definition to_weight :: "f64 \<Rightarrow> f64" where
  "to_weight value = f64_round (f64_times (f64_div_by value 100) (of_nat (unat TOTAL_WEIGHT)))"

text \<open>The slider of a rollout over two variants, and the field of one variant otherwise.\<close>

definition set_split :: "f64 \<Rightarrow> flag_draft \<Rightarrow> flag_draft" where
  "set_split value d =
     (case fd_fallthrough d of
        Rollout [a, b] by \<Rightarrow>
          (let first = min (f64_as_u32 (to_weight value)) TOTAL_WEIGHT
           in d\<lparr>fd_fallthrough := Rollout [a\<lparr>wv_weight := first\<rparr>, b\<lparr>wv_weight := TOTAL_WEIGHT - first\<rparr>] by\<rparr>)
      | _ \<Rightarrow> d)"

definition set_share :: "nat \<Rightarrow> f64 \<Rightarrow> flag_draft \<Rightarrow> flag_draft" where
  "set_share i value d =
     (case fd_fallthrough d of
        Rollout weights by \<Rightarrow> d\<lparr>fd_fallthrough := Rollout (update_at i (\<lambda>w. w\<lparr>wv_weight :=
            f64_as_u32 (f64_clamp 0 (of_nat (unat TOTAL_WEIGHT)) (to_weight value))\<rparr>) weights) by\<rparr>
      | Fixed _ \<Rightarrow> d)"

definition set_enabled :: "bool \<Rightarrow> flag_draft \<Rightarrow> flag_draft" where
  "set_enabled b d = d\<lparr>fd_enabled := b\<rparr>"

lemmas editor_defs [model_defs] =
  draft_of_config_def save_body_def editor_issues_def is_dirty_def update_at_def remove_at_def edit_rule_def add_rule_def
  remove_rule_def describe_rule_def add_condition_def serve_variant_def segment_entries_def to_segment_match_def
  edit_segments_def add_segment_def set_membership_def set_segment_def remove_segment_def operator_from_def
  parse_value_def parse_values_def values_text_def edit_condition_def set_attribute_def set_operator_def set_values_def
  remove_condition_def set_mode_def set_fallthrough_variant_def set_split_def set_share_def set_enabled_def

section \<open>The preview\<close>

definition SIMULATED_SUBJECTS :: nat where
  "SIMULATED_SUBJECTS = 2000"

definition PREVIEW_SALT :: string where
  "PREVIEW_SALT = ''preview''"

text \<open>\<^verbatim>\<open>str::lines\<close>: a line ends with a line feed, before which a carriage return is dropped.\<close>

definition str_lines :: "string \<Rightarrow> string list" where
  "str_lines s =
     (let parts = split_on (char_of (10::nat)) s;
          full = map (\<lambda>l. if l \<noteq> [] \<and> last l = char_of (13::nat) then butlast l else l) (butlast parts)
      in if last parts = [] then full else full @ [last parts])"

definition preview_attribute :: "string \<Rightarrow> attribute_value" where
  "preview_attribute v =
     (case parse_f64 v of
        Some n \<Rightarrow> ANumber n
      | None \<Rightarrow> if v = ''true'' then ABool True else if v = ''false'' then ABool False else AString v)"

fun preview_lines :: "string list \<Rightarrow> evaluation_context \<Rightarrow> evaluation_context" where
  "preview_lines [] ctx = ctx"
| "preview_lines (l # ls) ctx =
     preview_lines ls
       (case split_once CHR ''='' l of
          None \<Rightarrow> ctx
        | Some (name, v) \<Rightarrow>
            if str_trim name = [] then ctx
            else context_with ctx (str_trim name) (preview_attribute (str_trim v)))"

definition preview_context :: "string \<Rightarrow> string \<Rightarrow> evaluation_context" where
  "preview_context subject attributes = preview_lines (str_lines attributes) (context_new subject)"

definition preview_flag :: "string \<Rightarrow> variant list \<Rightarrow> flag_draft \<Rightarrow> flag" where
  "preview_flag fkey variants d =
     \<lparr>flag_key = fkey, flag_variants = variants, flag_enabled = fd_enabled d, flag_off_variant = fd_off_variant d,
      flag_fallthrough = fd_fallthrough d, flag_rules = fd_rules d, flag_version = fd_version d\<rparr>"

definition preview_decision ::
  "('re, 'ver) externals \<Rightarrow> string \<Rightarrow> variant list \<Rightarrow> segment_set \<Rightarrow> evaluation_context \<Rightarrow> flag_draft option \<Rightarrow> evaluation option" where
  "preview_decision X fkey variants segments ctx draft =
     map_option (\<lambda>d. evaluate X (preview_flag fkey variants d) ctx (evaluation_env_with_segments PREVIEW_SALT segments)) draft"

text \<open>The tally of the simulation, in the order in which the labels first appear.\<close>

fun tally_add :: "string \<Rightarrow> (string \<times> nat) list \<Rightarrow> (string \<times> nat) list" where
  "tally_add label [] = [(label, 1)]"
| "tally_add label ((name, n) # t) = (if name = label then (name, Suc n) # t else (name, n) # tally_add label t)"

definition simulated_label ::
  "('re, 'ver) externals \<Rightarrow> flag \<Rightarrow> segment_set \<Rightarrow> evaluation_context \<Rightarrow> nat \<Rightarrow> string" where
  "simulated_label X f segments base i =
     unwrap_or (ev_variant (evaluate X f (base\<lparr>ctx_key := ''sim-'' @ show_nat i\<rparr>)
       (evaluation_env_with_segments PREVIEW_SALT segments))) ''error''"

text \<open>The sort is stable; a label that is no variant comes last.\<close>

definition variant_position :: "variant list \<Rightarrow> string \<Rightarrow> nat" where
  "variant_position variants label = unwrap_or (position (\<lambda>v. variant_key v = label) variants) (2 ^ 64 - 1)"

definition simulation ::
  "('re, 'ver) externals \<Rightarrow> string \<Rightarrow> variant list \<Rightarrow> segment_set \<Rightarrow> evaluation_context \<Rightarrow> flag_draft option \<Rightarrow>
     (string \<times> nat) list" where
  "simulation X fkey variants segments base draft =
     (case draft of
        None \<Rightarrow> []
      | Some d \<Rightarrow>
          sort_key (\<lambda>(name, _). variant_position variants name)
            (fold (\<lambda>i. tally_add (simulated_label X (preview_flag fkey variants d) segments base i)) [0..<SIMULATED_SUBJECTS] []))"

lemmas preview_defs [model_defs] =
  str_lines_def preview_attribute_def preview_context_def preview_flag_def preview_decision_def simulated_label_def
  variant_position_def simulation_def

section \<open>Lemmas\<close>

lemma validate_version: "validate X (f\<lparr>flag_version := v\<rparr>) = validate X f"
  by (simp add: validate_def)

lemma validate_references_version: "validate_references (f\<lparr>flag_version := v\<rparr>) known = validate_references f known"
  by (simp add: validate_references_def)

text \<open>The rows of a segment requirement and the requirement; an empty requirement becomes none.\<close>

lemma match_of_entries_append:
  "match_of_entries es m =
     \<lparr>sm_any_of = sm_any_of m @ map snd (filter fst es), sm_none_of = sm_none_of m @ map snd (filter (\<lambda>e. \<not> fst e) es)\<rparr>"
  by (induction es m rule: match_of_entries.induct) simp_all

lemma segment_rows_roundtrip:
  "to_segment_match (segment_entries m) = (if m = Some \<lparr>sm_any_of = [], sm_none_of = []\<rparr> then None else m)"
proof (cases m)
  case (Some r)
  have "filter fst (map (Pair True) xs) = map (Pair True) xs" "filter fst (map (Pair False) xs) = []"
    "filter (\<lambda>e. \<not> fst e) (map (Pair True) xs) = []" "filter (\<lambda>e. \<not> fst e) (map (Pair False) xs) = map (Pair False) xs"
    for xs :: "string list"
    by (induction xs) simp_all
  with Some show ?thesis
    by (cases r) (simp add: segment_entries_def to_segment_match_def match_of_entries_append comp_def)
qed (simp add: segment_entries_def to_segment_match_def)

lemma segment_rows_resorted:
  "segment_entries (to_segment_match es) = filter fst es @ filter (\<lambda>e. \<not> fst e) es"
proof -
  have "map (\<lambda>e. (True, snd e)) (filter fst es) = filter fst es" 
    "map (\<lambda>e. (False, snd e)) (filter (\<lambda>e. \<not> fst e) es) = filter (\<lambda>e. \<not> fst e) es"
    by (induction es) auto
  then show ?thesis
    by (cases "es = []") (simp_all add: segment_entries_def to_segment_match_def match_of_entries_append comp_def)
qed

text \<open>Weights.\<close>

lemma unat_add_small:
  "unat (x :: u32) = a \<Longrightarrow> unat y = b \<Longrightarrow> a \<le> 100000 \<Longrightarrow> b \<le> 100000 \<Longrightarrow> unat (x + y) = a + b"
  by (simp add: unat_word_ariths)

lemma even_split_sum:
  assumes "variants \<noteq> []" and "length variants < 2 ^ 32"
  shows "weight_sum (even_split variants) = 100000"
proof -
  let ?n = "of_nat (length variants) :: u32"
  have n: "unat ?n = length variants" using assms(2) by (simp add: unat_of_nat take_bit_nat_eq_self)
  have share: "unat (TOTAL_WEIGHT div ?n) = 100000 div length variants" by (simp add: unat_div n)
  have le: "100000 div length variants * length variants \<le> 100000" by simp
  have m: "unat ((TOTAL_WEIGHT div ?n) * ?n) = 100000 div length variants * length variants"
    using le le_less_trans [OF le, of 4294967296] le_less_trans [OF div_le_dividend [of 100000 "length variants"], of 4294967296]
    by (simp add: unat_word_ariths share n)
  have d: "unat (TOTAL_WEIGHT - (TOTAL_WEIGHT div ?n) * ?n) = 100000 - 100000 div length variants * length variants"
    using le by (simp add: unat_sub word_le_nat_alt m)
  have s: "unat (TOTAL_WEIGHT div ?n + (TOTAL_WEIGHT - (TOTAL_WEIGHT div ?n) * ?n)) =
      100000 div length variants + (100000 - 100000 div length variants * length variants)"
    using unat_add_small [OF share d] div_le_dividend [of 100000 "length variants"] by simp
  have rest: "weight_sum (map (\<lambda>v. \<lparr>wv_variant = variant_key v, wv_weight = w\<rparr>) vs) = length vs * unat w" for vs :: "variant list" and w
    by (induction vs) simp_all
  from assms(1) obtain v vs where vs: "variants = v # vs" by (cases variants) auto
  then show ?thesis 
    using s share le by (simp add: even_split_def Let_def rest vs)
qed

lemma set_split_sum: "w \<le> TOTAL_WEIGHT \<Longrightarrow> unat w + unat (TOTAL_WEIGHT - w) = 100000"
  by (simp add: unat_sub word_le_nat_alt)

section \<open>The editor and the server\<close>


text \<open>
  C31. Splitting keeps a rollout whole. Choosing a percentage rollout gives every variant an equal
  share, in the order of the variants and with the remainder on the first, and moving the slider,
  whatever the number, keeps the two variants; in both cases the weights add up to the whole.
\<close>

theorem editor_keeps_rollouts_balanced:
  assumes "0 < length variants" and "length variants < 2 ^ 32"
  shows "(\<exists>ws. fd_fallthrough (set_mode True variants d) = Rollout ws None \<and> weight_sum ws = unat TOTAL_WEIGHT \<and>
      map wv_variant ws = map variant_key variants \<and> (\<forall>w \<in> set (tl ws). unat (wv_weight w) = unat TOTAL_WEIGHT div length variants)) \<and>
    (\<forall>a b by percentage. fd_fallthrough d = Rollout [a, b] by \<longrightarrow>
      (\<exists>a' b'. fd_fallthrough (set_split percentage d) = Rollout [a', b'] by \<and> weight_sum [a', b'] = unat TOTAL_WEIGHT \<and>
         wv_variant a' = wv_variant a \<and> wv_variant b' = wv_variant b))"
proof -
  have "unat (TOTAL_WEIGHT div (of_nat (length variants) :: u32)) = unat TOTAL_WEIGHT div length variants"
    using assms(2) by (simp add: unat_div unat_of_nat take_bit_nat_eq_self)
  moreover have "map wv_variant (even_split variants) = map variant_key variants"
    using assms(1) by (cases variants) (simp_all add: even_split_def Let_def comp_def)
  moreover have "wv_weight w = TOTAL_WEIGHT div (of_nat (length variants) :: u32)" if "w \<in> set (tl (even_split variants))" for w
    using that assms(1) by (cases variants) (auto simp: even_split_def Let_def)
  ultimately show ?thesis
    using even_split_sum [of variants] assms set_split_sum
    by (auto simp: set_mode_def set_split_def Let_def simp del: unat_TOTAL_WEIGHT) (auto simp: unat_TOTAL_WEIGHT)
qed


theorem editor_keeps_rollouts_balanced_witness:
  "\<forall>d. \<exists>ws. fd_fallthrough (set_mode True (flag_variants (flag_boolean ''f'')) d) = Rollout ws None \<and> weight_sum ws = unat TOTAL_WEIGHT"
proof
  fix d :: flag_draft
  show "\<exists>ws. fd_fallthrough (set_mode True (flag_variants (flag_boolean ''f'')) d) = Rollout ws None \<and> weight_sum ws = unat TOTAL_WEIGHT"
    using editor_keeps_rollouts_balanced [of "flag_variants (flag_boolean ''f'')" d] by (auto simp: flag_boolean_def)
qed

section \<open>The simulation\<close>

text \<open>A distribution that does not look at the key of the context.\<close>

fun keyless :: "distribution \<Rightarrow> bool" where
  "keyless (Fixed _) = True"
| "keyless (Rollout _ by) = (by \<noteq> None)"

lemma condition_matches_key [simp]: "condition_matches X c (ctx\<lparr>ctx_key := k\<rparr>) = condition_matches X c ctx"
  by (simp add: condition_matches_def ctx_attribute_def)

lemma rule_matches_key:
  "rule_segments r = None \<Longrightarrow> rule_matches X r (ctx\<lparr>ctx_key := k\<rparr>) env = rule_matches X r ctx env"
  by (simp add: rule_matches_def)

lemma answer_key: "keyless sd \<Longrightarrow> answer X f sd (ctx\<lparr>ctx_key := k\<rparr>) salt reason = answer X f sd ctx salt reason"
  by (cases sd) (auto simp: answer_def resolve_def bucketing_subject_def)

lemma eval_rules_key:
  "\<forall>r \<in> set rs. rule_segments r = None \<and> keyless (rule_distribution r) \<Longrightarrow>
     eval_rules X f (ctx\<lparr>ctx_key := k\<rparr>) env i rs = eval_rules X f ctx env i rs"
  by (induction rs arbitrary: i) (simp_all add: rule_matches_key answer_key)

lemma fold_tally_const: "0 < n \<Longrightarrow> fold (\<lambda>i. tally_add label) [0..<n] [] = [(label, n)]"
proof (induction n)
  case (Suc n)
  then show ?case by (cases n) simp_all
qed simp

lemma tally_add_counts: "map_of (tally_add label t) name =
    (if name = label then Some (Suc (unwrap_or (map_of t name) 0)) else map_of t name)"
  by (induction label t rule: tally_add.induct) (auto simp: unwrap_or_def)

lemma tally_add_names: "fst ` set (tally_add label t) = insert label (fst ` set t)"
  by (induction label t rule: tally_add.induct) auto

lemma tally_add_distinct: "distinct (map fst t) \<Longrightarrow> distinct (map fst (tally_add label t))"
proof (induction label t rule: tally_add.induct)
  case (2 label name n t)
  then show ?case using tally_add_names [of label t] by (auto simp: image_iff)
qed simp

lemma tally_names_distinct: "distinct (map fst (fold (\<lambda>i. tally_add (label i)) es []))"
  by (induction es rule: rev_induct) (simp_all add: tally_add_distinct)

lemma tally_counts:
  "unwrap_or (map_of (fold (\<lambda>i. tally_add (label i)) es []) name) 0 = length (filter (\<lambda>i. label i = name) es)"
  by (induction es rule: rev_induct) (auto simp: tally_add_counts unwrap_or_def)

text \<open>
  C32. The simulation ignores a rollout's attribute. If every distribution of the flag that looks at
  anything buckets on an attribute, and no rule names a segment, then all simulated subjects, which
  differ in their key alone, get one and the same variant: the preview shows the whole population on
  it, whatever the weights are.
\<close>

theorem simulation_ignores_bucket_attributes:
  assumes "keyless (fd_fallthrough d)" and "\<forall>r \<in> set (fd_rules d). rule_segments r = None \<and> keyless (rule_distribution r)"
  shows "simulation X fkey variants segments base (Some d) =
    [(simulated_label X (preview_flag fkey variants d) segments base 0, SIMULATED_SUBJECTS)]"
proof -
  let ?f = "preview_flag fkey variants d" and ?env = "evaluation_env_with_segments PREVIEW_SALT segments"
  have fields: "flag_fallthrough ?f = fd_fallthrough d" "flag_rules ?f = fd_rules d" by (simp_all add: preview_flag_def)
  have "evaluate X ?f (base\<lparr>ctx_key := k\<rparr>) ?env = evaluate X ?f base ?env" for k
    using assms by (simp add: evaluate_def fields answer_key eval_rules_key split: option.splits)
  then have same: "simulated_label X ?f segments base i = simulated_label X ?f segments base 0" for i
    by (simp add: simulated_label_def)
  have same_tally: "(\<lambda>i. tally_add (simulated_label X ?f segments base i)) = (\<lambda>i. tally_add (simulated_label X ?f segments base 0))"
    by (rule ext, rule arg_cong [OF same])
  have "fold (\<lambda>i. tally_add (simulated_label X ?f segments base i)) [0..<SIMULATED_SUBJECTS] [] =
      [(simulated_label X ?f segments base 0, SIMULATED_SUBJECTS)]"
    unfolding same_tally by (rule fold_tally_const) (simp add: SIMULATED_SUBJECTS_def)
  then show ?thesis by (simp add: simulation_def)
qed

text \<open>
  C33. A number typed into a condition loses its text. A value that reads as a number is stored as that
  number: the field then shows the number's own text, every operator on texts or on versions compares
  with that text (version 1.10 becomes version 1.1), and a condition on a pattern is refused, so
  that a pattern of digits alone cannot be entered.
\<close>

theorem typed_numbers_lose_their_text:
  assumes "parse_f64 piece = Some n" and "str_trim piece = piece" and "CHR '','' \<notin> set piece" and "piece \<noteq> []"
  shows "parse_values piece = [ANumber n] \<and> values_text (parse_values piece) = format_number n \<and>
    (\<forall>op \<in> {Contains, StartsWith, EndsWith, SemverEqual, SemverGreaterThan, SemverLessThan}. \<forall>actual.
       compare X op actual (ANumber n) = compare X op actual (AString (format_number n))) \<and>
    check_condition X \<lparr>cond_attribute = attribute, cond_operator = Matches, cond_values = parse_values piece\<rparr> path \<noteq> []"
proof -
  have "parse_values piece = [ANumber n]"
    using assms split_on_word by (simp add: parse_values_def parse_value_def)
  then show ?thesis
    by (simp add: values_text_def List.map_filter_def check_condition_def text_pair_def semver_pair_def)
qed

theorem typed_numbers_lose_their_text_witness:
  "values_text (parse_values ''1.10'') = ''1.1''"
proof -
  have "parse_f64 ''1.10'' = Some (Finite (2476979795053773 / 2251799813685248))" by code_simp
  moreover have "str_trim ''1.10'' = ''1.10''" by (rule trim_alphanumeric) (simp_all add: is_ascii_alphanumeric_def)
  ultimately have "values_text (parse_values ''1.10'') = format_number (Finite (2476979795053773 / 2251799813685248))"
    by (rule typed_numbers_lose_their_text [THEN conjunct2, THEN conjunct1]) simp_all
  also have "format_number (Finite (2476979795053773 / 2251799813685248)) = ''1.1''" by code_simp
  finally show ?thesis .
qed

theorem simulation_ignores_bucket_attributes_witness:
  "simulation demo_externals ''f'' (flag_variants (flag_boolean ''f'')) [] (context_new ''u'') (Some \<lparr>fd_enabled = True, fd_off_variant = ''off'',
     fd_fallthrough = Rollout (even_split (flag_variants (flag_boolean ''f''))) (Some ''company''), fd_rules = [], fd_version = 1\<rparr>) =
   [(''error'', 2000)]"
proof -
  let ?vs = "flag_variants (flag_boolean ''f'')"
  let ?d = "\<lparr>fd_enabled = True, fd_off_variant = ''off'', fd_fallthrough = Rollout (even_split ?vs) (Some ''company''),
    fd_rules = [], fd_version = 1\<rparr>"
  have "simulated_label demo_externals (preview_flag ''f'' ?vs ?d) [] (context_new ''u'') 0 = ''error''"
    by (simp add: simulated_label_def preview_flag_def evaluate_def answer_def resolve_def bucketing_subject_def context_new_def
        degrade_def unwrap_or_def bt_get_def)
  then show ?thesis
    using simulation_ignores_bucket_attributes [of ?d demo_externals "''f''" ?vs "[]" "context_new ''u''"]
    by (simp add: SIMULATED_SUBJECTS_def)
qed

end
