(* ===== verification/Web_Session.thy ===== *)
theory Web_Session
  imports Web_Api
begin

text \<open>
  \<^verbatim>\<open>crates/web/src/session.rs\<close>, \<^verbatim>\<open>toast.rs\<close> and \<^verbatim>\<open>theme.rs\<close>: the state every page of the dashboard
  shares. A signal is a field, an asynchronous call leaves a pending entry that some later step
  answers, and a timer leaves a pending entry that some later step fires.
\<close>

section \<open>The session\<close>

record web_organization =
  wo_id :: string
  wo_name :: string
  wo_slug :: string

record web_identity =
  wm_user :: web_user
  wm_organization :: web_organization

text \<open>The stored token is the one in \<^verbatim>\<open>localStorage\<close>; \<open>ss_asked\<close> are the tokens whose identity has
  been asked for and not been answered yet.\<close>

record session =
  ss_stored :: "string option"
  ss_token :: "string option"
  ss_identity :: "web_identity option"
  ss_resolving :: bool
  ss_asked :: "string list"

definition session_new :: "string option \<Rightarrow> session" where
  "session_new stored =
     \<lparr>ss_stored = stored, ss_token = stored, ss_identity = None, ss_resolving = (stored \<noteq> None), ss_asked = []\<rparr>"

definition is_authenticated :: "session \<Rightarrow> bool" where
  "is_authenticated s = (ss_token s \<noteq> None)"

definition refresh_identity :: "session \<Rightarrow> session" where
  "refresh_identity s =
     (case ss_token s of
        None \<Rightarrow> s\<lparr>ss_resolving := False\<rparr>
      | Some token \<Rightarrow> s\<lparr>ss_asked := ss_asked s @ [token]\<rparr>)"

definition sign_in :: "string \<Rightarrow> session \<Rightarrow> session" where
  "sign_in token s =
     refresh_identity (s\<lparr>ss_stored := Some token, ss_token := Some token, ss_resolving := True\<rparr>)"

definition sign_out :: "session \<Rightarrow> session" where
  "sign_out s = s\<lparr>ss_stored := None, ss_token := None, ss_identity := None, ss_resolving := False\<rparr>"

definition identity_answered :: "web_error + web_identity \<Rightarrow> session \<Rightarrow> session" where
  "identity_answered r s =
     (case r of
        Inr who \<Rightarrow> s\<lparr>ss_identity := Some who, ss_resolving := False\<rparr>
      | Inl error \<Rightarrow> if is_unauthorized error then sign_out s else s\<lparr>ss_resolving := False\<rparr>)"

text \<open>
  The page starts with a check of the stored token. What can happen then: a sign-in, a sign-out,
  and the answer to a check, in any order. \<open>answers token\<close> are the answers the server may give to that token. With \<open>calm\<close> the user
  signs in and out only while no check is outstanding, and signs in only when signed out.
\<close>

definition session_start :: "string option \<Rightarrow> session" where
  "session_start stored = refresh_identity (session_new stored)"

inductive session_step :: "bool \<Rightarrow> (string \<Rightarrow> (web_error + web_identity) set) \<Rightarrow> session \<Rightarrow> session \<Rightarrow> bool"
  for calm :: bool and answers :: "string \<Rightarrow> (web_error + web_identity) set" where
  ses_sign_in: "(calm \<Longrightarrow> ss_asked s = [] \<and> ss_token s = None) \<Longrightarrow> session_step calm answers s (sign_in token s)"
| ses_sign_out: "(calm \<Longrightarrow> ss_asked s = []) \<Longrightarrow> session_step calm answers s (sign_out s)"
| ses_answer:
    "i < length (ss_asked s) \<Longrightarrow> r \<in> answers (ss_asked s ! i) \<Longrightarrow>
     session_step calm answers s
       (identity_answered r (s\<lparr>ss_asked := take i (ss_asked s) @ drop (Suc i) (ss_asked s)\<rparr>))"

inductive_cases session_stepE: "session_step calm answers s s'"

lemmas session_defs [model_defs] =
  session_new_def session_start_def is_authenticated_def refresh_identity_def sign_in_def sign_out_def identity_answered_def

section \<open>Notifications\<close>

datatype level = SuccessLevel | ErrorLevel

record toast =
  to_id :: u64
  to_level :: level
  to_title :: string
  to_detail :: "string option"

text \<open>\<open>ts_timers\<close> are the identifiers whose timer is running.\<close>

record toaster =
  ts_items :: "toast list"
  ts_next_id :: u64
  ts_timers :: "u64 list"

definition toaster_new :: toaster where
  "toaster_new = \<lparr>ts_items = [], ts_next_id = 1, ts_timers = []\<rparr>"

definition toast_push :: "level \<Rightarrow> string \<Rightarrow> string option \<Rightarrow> toaster \<Rightarrow> toaster" where
  "toast_push level title detail t =
     (let i = ts_next_id t
      in t\<lparr>ts_next_id := i + 1,
           ts_items := ts_items t @ [\<lparr>to_id = i, to_level = level, to_title = title, to_detail = detail\<rparr>],
           ts_timers := ts_timers t @ [i]\<rparr>)"

definition toast_dismiss :: "u64 \<Rightarrow> toaster \<Rightarrow> toaster" where
  "toast_dismiss i t = t\<lparr>ts_items := filter (\<lambda>x. to_id x \<noteq> i) (ts_items t)\<rparr>"

definition toast_success :: "string \<Rightarrow> toaster \<Rightarrow> toaster" where
  "toast_success title = toast_push SuccessLevel title None"

definition toast_error :: "string \<Rightarrow> web_error \<Rightarrow> toaster \<Rightarrow> toaster" where
  "toast_error context error =
     toast_push ErrorLevel context
       (case we_issues error of
          first # _ \<Rightarrow> Some (issue_path first @ '': '' @ issue_message first)
        | [] \<Rightarrow> Some (we_title error))"

definition toast_message :: "level \<Rightarrow> string \<Rightarrow> string \<Rightarrow> toaster \<Rightarrow> toaster" where
  "toast_message level title detail = toast_push level title (Some detail)"

text \<open>The timer of a toast fires.\<close>

definition toast_expire :: "nat \<Rightarrow> toaster \<Rightarrow> toaster" where
  "toast_expire n t = toast_dismiss (ts_timers t ! n) (t\<lparr>ts_timers := take n (ts_timers t) @ drop (Suc n) (ts_timers t)\<rparr>)"

inductive toaster_reachable :: "toaster \<Rightarrow> bool" where
  tr_new: "toaster_reachable toaster_new"
| tr_push: "toaster_reachable t \<Longrightarrow> toaster_reachable (toast_push level title detail t)"
| tr_dismiss: "toaster_reachable t \<Longrightarrow> toaster_reachable (toast_dismiss i t)"
| tr_expire: "toaster_reachable t \<Longrightarrow> n < length (ts_timers t) \<Longrightarrow> toaster_reachable (toast_expire n t)"

section \<open>The theme\<close>

datatype web_theme = Light | Dark

fun theme_as_str :: "web_theme \<Rightarrow> string" where
  "theme_as_str Light = ''light''"
| "theme_as_str Dark = ''dark''"

fun toggled :: "web_theme \<Rightarrow> web_theme" where
  "toggled Light = Dark"
| "toggled Dark = Light"

text \<open>The signal, the attribute of the page's root and the stored preference.\<close>

record theme_state =
  th_signal :: web_theme
  th_attribute :: "string option"
  th_stored :: "string option"

definition theme_current :: "string option \<Rightarrow> web_theme" where
  "theme_current attribute = (if unwrap_or attribute [] = ''dark'' then Dark else Light)"

definition theme_toggle :: "theme_state \<Rightarrow> theme_state" where
  "theme_toggle s =
     (let next = toggled (th_signal s)
      in s\<lparr>th_signal := next, th_attribute := Some (theme_as_str next), th_stored := Some (theme_as_str next)\<rparr>)"

lemmas toast_defs [model_defs] =
  toaster_new_def toast_push_def toast_dismiss_def toast_success_def toast_error_def toast_message_def toast_expire_def
  theme_current_def theme_toggle_def

section \<open>Lemmas\<close>

lemma theme_current_toggled [simp]: "theme_current (Some (theme_as_str t)) = t"
  by (cases t) (simp_all add: theme_current_def unwrap_or_def)

text \<open>After a toggle the signal, the attribute and the stored preference agree, on either theme.\<close>

lemma theme_toggle_agrees:
  "theme_current (th_attribute (theme_toggle s)) = th_signal (theme_toggle s) \<and>
   theme_current (th_stored (theme_toggle s)) = th_signal (theme_toggle s) \<and> th_signal (theme_toggle s) \<noteq> th_signal s"
  by (cases "th_signal s") (simp_all add: theme_toggle_def theme_current_def unwrap_or_def)

text \<open>Every toast that is shown has a timer running that will take it away.\<close>

lemma toaster_timers: "toaster_reachable t \<Longrightarrow> to_id ` set (ts_items t) \<subseteq> set (ts_timers t)"
proof (induction rule: toaster_reachable.induct)
  case (tr_expire t n)
  have "set (ts_timers t) \<subseteq> insert (ts_timers t ! n) (set (take n (ts_timers t) @ drop (Suc n) (ts_timers t)))"
    using id_take_nth_drop [OF tr_expire.hyps(2)] by (metis Un_insert_right list.simps(15) set_append set_eq_subset)
  with tr_expire.IH show ?case by (auto simp: toast_expire_def toast_dismiss_def)
qed (auto simp: toaster_new_def toast_push_def toast_dismiss_def Let_def)

section \<open>Properties\<close>

lemma session_agrees:
  "(session_step calm answers)\<^sup>*\<^sup>* (session_start stored) s \<Longrightarrow>
     ss_stored s = ss_token s \<and> (ss_token s = None \<longrightarrow> \<not> ss_resolving s)"
proof (induction rule: rtranclp_induct)
  case (step s s')
  from step.hyps(2) step.IH show ?case
    by (cases rule: session_step.cases) (auto simp: session_defs split: option.splits sum.splits if_splits)
qed (simp add: session_defs split: option.splits)

text \<open>With a calm user the outstanding check, and a known identity, belong to the current token.\<close>

lemma session_calm:
  "(session_step True answers)\<^sup>*\<^sup>* (session_start stored) s \<Longrightarrow>
     (ss_asked s = [] \<or> (\<exists>t. ss_asked s = [t] \<and> ss_token s = Some t)) \<and>
     (\<forall>who. ss_identity s = Some who \<longrightarrow> (\<exists>t. ss_token s = Some t \<and> Inr who \<in> answers t))"
proof (induction rule: rtranclp_induct)
  case (step s s')
  from step.hyps(2) step.IH show ?case
    by (cases rule: session_step.cases) (auto simp: session_defs split: option.splits sum.splits if_splits)
qed (simp add: session_defs split: option.splits)


definition demo_me :: web_identity where
  "demo_me = \<lparr>wm_user = \<lparr>wu_id = ''5'', wu_organization_id = ''1'', wu_email = ''a@b.c'', wu_role = ''owner'', wu_created_at = ''now''\<rparr>,
     wm_organization = \<lparr>wo_id = ''1'', wo_name = ''Acme'', wo_slug = ''acme''\<rparr>\<rparr>"


text \<open>
  A late answer crosses sessions. The answer to a check is applied to whatever session is
  there when it arrives. If a check of an old token is slow, a user who signs out meanwhile gets
  the identity back without a token, and a user who signs in again meanwhile is signed out by the
  rejection of the old token, although the server accepts the new one.
\<close>

theorem late_answers_cross_sessions:
  assumes "Inr who \<in> answers old" and "Inl rejection \<in> answers old" and "is_unauthorized rejection"
  shows "(\<exists>s. (session_step False answers)\<^sup>*\<^sup>* (session_start (Some old)) s \<and>
      ss_token s = None \<and> ss_identity s = Some who) \<and>
    (\<exists>s s'. (session_step False answers)\<^sup>*\<^sup>* (session_start (Some old)) s \<and> ss_token s = Some new \<and>
      session_step False answers s s' \<and> ss_token s' = None)"
proof
  let ?start = "session_start (Some old)" and ?step = "session_step False answers"
  have out: "?step ?start (sign_out ?start)" by (rule ses_sign_out) simp
  let ?late = "identity_answered (Inr who) ((sign_out ?start)\<lparr>ss_asked := []\<rparr>)"
  have "?step (sign_out ?start) ?late"
    using ses_answer [of 0 "sign_out ?start" "Inr who" answers False] assms(1) by (simp add: session_defs)
  with out have "?step\<^sup>*\<^sup>* ?start ?late" by simp
  moreover have "ss_token ?late = None" "ss_identity ?late = Some who" by (simp_all add: session_defs)
  ultimately show "\<exists>s. ?step\<^sup>*\<^sup>* ?start s \<and> ss_token s = None \<and> ss_identity s = Some who" by blast
  let ?again = "sign_in new (sign_out ?start)"
  have "?step (sign_out ?start) ?again" by (rule ses_sign_in) simp
  with out have "?step\<^sup>*\<^sup>* ?start ?again" by simp
  moreover have "?step ?again (identity_answered (Inl rejection) (?again\<lparr>ss_asked := [new]\<rparr>))"
    using ses_answer [of 0 ?again "Inl rejection" answers False] assms(2) by (simp add: session_defs)
  moreover have "ss_token ?again = Some new" "ss_token (identity_answered (Inl rejection) (?again\<lparr>ss_asked := [new]\<rparr>)) = None"
    using assms(3) by (simp_all add: session_defs)
  ultimately show "\<exists>s s'. ?step\<^sup>*\<^sup>* ?start s \<and> ss_token s = Some new \<and> ?step s s' \<and> ss_token s' = None" by blast
qed

definition demo_rejection :: web_error where
  "demo_rejection = \<lparr>we_status = 401, we_kind = ''unauthorized'', we_title = ''token has expired'', we_issues = []\<rparr>"

theorem late_answers_cross_sessions_witness:
  "\<exists>s s'. (session_step False (\<lambda>t. if t = ''old'' then {Inr demo_me, Inl demo_rejection} else {Inr demo_me}))\<^sup>*\<^sup>*
       (session_start (Some ''old'')) s \<and> ss_token s = Some ''new'' \<and>
     session_step False (\<lambda>t. if t = ''old'' then {Inr demo_me, Inl demo_rejection} else {Inr demo_me}) s s' \<and> ss_token s' = None"
  using late_answers_cross_sessions [of demo_me "\<lambda>t. if t = ''old'' then {Inr demo_me, Inl demo_rejection} else {Inr demo_me}"
      "''old''" demo_rejection "''new''"]
  by (simp add: is_unauthorized_def demo_rejection_def)

end
