(* ===== verification/Web_Flag_Page.thy ===== *)
theory Web_Flag_Page
  imports Web_Editor Web_Session
begin

text \<open>
  The page of a flag in \<^verbatim>\<open>crates/web/src/pages/flag.rs\<close>: its signals, and what its calls to the server and
  its controls do to them. An asynchronous call is an entry of the calls in flight, which some later
  step answers; the answers of calls in flight arrive in any order.
\<close>

section \<open>The page\<close>

record web_environment =
  wenv_id :: string
  wenv_key :: string
  wenv_name :: string
  wenv_is_production :: bool

record web_flag =
  wfl_id :: string
  wfl_key :: string
  wfl_name :: string
  wfl_description :: "string option"
  wfl_variants :: "variant list"
  wfl_archived :: bool
  wfl_updated_at :: string
  wfl_measured_by :: "string list"

record web_segment =
  wsg_id :: string
  wsg_key :: string
  wsg_name :: string
  wsg_description :: "string option"
  wsg_included :: "string list"
  wsg_excluded :: "string list"
  wsg_rules :: "segment_rule list"
  wsg_version :: int
  wsg_updated_at :: string

text \<open>\<open>fp_listing\<close> says that the list of environments is being fetched; \<open>fp_loads\<close> and \<open>fp_saves\<close> are the loads
  and saves in flight, with their environments.\<close>

record flag_page =
  fp_environments :: "web_environment list load_state"
  fp_selected :: "string option"
  fp_variants :: "variant list"
  fp_measured_by :: "string list"
  fp_segments :: segment_set
  fp_loaded :: "flag_draft load_state"
  fp_draft :: "flag_draft option"
  fp_saving :: bool
  fp_toasts :: toaster
  fp_listing :: bool
  fp_loads :: "string list"
  fp_saves :: "(string \<times> flag_draft) list"

definition flag_page_new :: "toaster \<Rightarrow> flag_page" where
  "flag_page_new t =
     \<lparr>fp_environments = Loading, fp_selected = None, fp_variants = [], fp_measured_by = [], fp_segments = [],
      fp_loaded = Loading, fp_draft = None, fp_saving = False, fp_toasts = t, fp_listing = False, fp_loads = [], fp_saves = []\<rparr>"

definition load_environments :: "flag_page \<Rightarrow> flag_page" where
  "load_environments p = p\<lparr>fp_listing := True\<rparr>"

definition load_config :: "flag_page \<Rightarrow> flag_page" where
  "load_config p =
     (case fp_selected p of
        None \<Rightarrow> p
      | Some environment \<Rightarrow> p\<lparr>fp_loaded := Loading, fp_loads := fp_loads p @ [environment]\<rparr>)"

text \<open>A change of the selection runs the effect that loads the configuration.\<close>

definition select_environment :: "string option \<Rightarrow> flag_page \<Rightarrow> flag_page" where
  "select_environment key p = load_config (p\<lparr>fp_selected := key\<rparr>)"

definition initial_environment :: "web_environment list \<Rightarrow> string option" where
  "initial_environment es =
     map_option wenv_key
       (case find wenv_is_production es of Some e \<Rightarrow> Some e | None \<Rightarrow> (case es of [] \<Rightarrow> None | e # _ \<Rightarrow> Some e))"

definition environments_answered :: "web_error + web_environment list \<Rightarrow> flag_page \<Rightarrow> flag_page" where
  "environments_answered r p =
     (case r of
        Inr es \<Rightarrow> (select_environment (initial_environment es) p)\<lparr>fp_environments := load_from r, fp_listing := False\<rparr>
      | Inl _ \<Rightarrow> p\<lparr>fp_environments := load_from r, fp_listing := False\<rparr>)"

definition to_segment :: "web_segment \<Rightarrow> string \<times> segment" where
  "to_segment s =
     (wsg_key s, \<lparr>seg_key = wsg_key s, seg_description = wsg_description s, seg_included = wsg_included s,
        seg_excluded = wsg_excluded s, seg_rules = wsg_rules s, seg_version = wsg_version s\<rparr>)"

text \<open>The load asks for the flag, its configuration and the segments, and sets the signals once the last of
  the three has been answered; that the segments could not be loaded does not matter.\<close>

definition load_answered ::
  "web_error + web_flag \<Rightarrow> web_error + web_flag_config \<Rightarrow> web_error + web_segment list \<Rightarrow> flag_page \<Rightarrow> flag_page" where
  "load_answered def config segs p =
     (let p' = (case segs of Inr list \<Rightarrow> p\<lparr>fp_segments := bt_collect (map to_segment list) []\<rparr> | Inl _ \<Rightarrow> p)
      in case def of
           Inl e \<Rightarrow> p'\<lparr>fp_loaded := Failed e\<rparr>
         | Inr f \<Rightarrow>
             (case config of
                Inl e \<Rightarrow> p'\<lparr>fp_loaded := Failed e\<rparr>
              | Inr c \<Rightarrow> p'\<lparr>fp_variants := wfl_variants f, fp_measured_by := wfl_measured_by f,
                            fp_draft := Some (draft_of_config c), fp_loaded := Ready (draft_of_config c)\<rparr>))"

definition save_config :: "flag_page \<Rightarrow> flag_page" where
  "save_config p =
     (case (fp_selected p, fp_draft p) of
        (Some environment, Some current) \<Rightarrow>
          if fp_saving p then p
          else p\<lparr>fp_saving := True, fp_saves := fp_saves p @ [(environment, current)]\<rparr>
      | _ \<Rightarrow> p)"

definition save_request :: "string \<Rightarrow> string \<Rightarrow> string \<Rightarrow> string \<times> flag_draft \<Rightarrow> web_request" where
  "save_request token project fkey s = web_put_config token project (fst s) fkey (save_body (snd s))"

text \<open>The dash of the notification, in UTF-8.\<close>

definition em_dash :: string where
  "em_dash = map char_of [226, 128, 148 :: nat]"

definition save_answered :: "string \<Rightarrow> string \<Rightarrow> web_error + web_flag_config \<Rightarrow> flag_page \<Rightarrow> flag_page" where
  "save_answered fkey environment r p =
     (let p' = p\<lparr>fp_saving := False\<rparr>
      in case r of
           Inr c \<Rightarrow> p'\<lparr>fp_draft := Some (draft_of_config c), fp_loaded := Ready (draft_of_config c),
              fp_toasts := toast_success (''Saved '' @ em_dash @ '' '' @ fkey @ '' updated in '' @ environment) (fp_toasts p)\<rparr>
         | Inl error \<Rightarrow>
             if is_conflict error then p'\<lparr>fp_toasts := toast_message ErrorLevel ''Someone else saved first''
               ''Your changes were not applied. Reload to see theirs.'' (fp_toasts p)\<rparr>
             else p'\<lparr>fp_toasts := toast_error ''Could not save'' error (fp_toasts p)\<rparr>)"

text \<open>The save button is shown to those who can write when the draft differs, and enabled without issues.\<close>

definition page_issues :: "('re, 'ver) externals \<Rightarrow> string \<Rightarrow> flag_page \<Rightarrow> validation_issue list" where
  "page_issues X fkey p = editor_issues X fkey (fp_draft p) (fp_variants p) (fp_segments p)"

definition save_enabled :: "('re, 'ver) externals \<Rightarrow> string \<Rightarrow> bool \<Rightarrow> flag_page \<Rightarrow> bool" where
  "save_enabled X fkey may_write p =
     (may_write \<and> is_dirty (fp_draft p) (fp_loaded p) \<and> \<not> fp_saving p \<and> page_issues X fkey p = [])"

section \<open>The controls\<close>

datatype draft_edit =
    SetEnabled bool
  | AddRule uuid
  | RemoveRule nat
  | DescribeRule nat string
  | AddCondition nat
  | AddSegment nat
  | ServeVariant nat string
  | SetMembership nat nat string
  | SetSegment nat nat string
  | RemoveSegment nat nat
  | SetAttribute nat nat string
  | SetOperator nat nat string
  | SetValues nat nat string
  | RemoveCondition nat nat
  | SetMode bool
  | SetFallthroughVariant string
  | SetSplit f64
  | SetShare nat f64

fun apply_edit :: "draft_edit \<Rightarrow> variant list \<Rightarrow> segment_set \<Rightarrow> flag_draft \<Rightarrow> flag_draft" where
  "apply_edit (SetEnabled b) variants segments = set_enabled b"
| "apply_edit (AddRule i) variants segments = add_rule i variants"
| "apply_edit (RemoveRule i) variants segments = remove_rule i"
| "apply_edit (DescribeRule i text) variants segments = describe_rule i text"
| "apply_edit (AddCondition i) variants segments = add_condition i"
| "apply_edit (AddSegment i) variants segments = add_segment i segments"
| "apply_edit (ServeVariant i v) variants segments = serve_variant i v"
| "apply_edit (SetMembership i j choice) variants segments = set_membership i j choice"
| "apply_edit (SetSegment i j k) variants segments = set_segment i j k"
| "apply_edit (RemoveSegment i j) variants segments = remove_segment i j"
| "apply_edit (SetAttribute i j text) variants segments = set_attribute i j text"
| "apply_edit (SetOperator i j raw) variants segments = set_operator i j raw"
| "apply_edit (SetValues i j raw) variants segments = set_values i j raw"
| "apply_edit (RemoveCondition i j) variants segments = remove_condition i j"
| "apply_edit (SetMode rollout) variants segments = set_mode rollout variants"
| "apply_edit (SetFallthroughVariant v) variants segments = set_fallthrough_variant v"
| "apply_edit (SetSplit percentage) variants segments = set_split percentage"
| "apply_edit (SetShare i percentage) variants segments = set_share i percentage"

definition edit_draft :: "draft_edit \<Rightarrow> flag_page \<Rightarrow> flag_page" where
  "edit_draft e p = p\<lparr>fp_draft := map_option (apply_edit e (fp_variants p) (fp_segments p)) (fp_draft p)\<rparr>"

section \<open>What can happen\<close>

text \<open>
  The controls are on the page while a configuration is loaded, and the tabs once the environments are known.
  \<open>stored environment\<close> are the configurations the server may give for it over time. With \<open>calm\<close> the user
  changes the environment, or tries a failed load again, only while no call is in flight.
\<close>

inductive flag_page_step ::
  "('re, 'ver) externals \<Rightarrow> string \<Rightarrow> (string \<Rightarrow> web_flag_config set) \<Rightarrow> bool \<Rightarrow> flag_page \<Rightarrow> flag_page \<Rightarrow> bool"
  for X :: "('re, 'ver) externals" and fkey :: string and stored :: "string \<Rightarrow> web_flag_config set" and calm :: bool where
  fps_environments: "fp_listing p \<Longrightarrow> flag_page_step X fkey stored calm p (environments_answered r p)"
| fps_select:
    "fp_environments p = Ready es \<Longrightarrow> e \<in> set es \<Longrightarrow> (calm \<Longrightarrow> fp_loads p = [] \<and> fp_saves p = []) \<Longrightarrow>
     flag_page_step X fkey stored calm p (select_environment (Some (wenv_key e)) p)"
| fps_retry:
    "fp_loaded p = Failed error \<Longrightarrow> (calm \<Longrightarrow> fp_loads p = [] \<and> fp_saves p = []) \<Longrightarrow>
     flag_page_step X fkey stored calm p (load_config p)"
| fps_loaded:
    "i < length (fp_loads p) \<Longrightarrow> (\<And>c. config = Inr c \<Longrightarrow> c \<in> stored (fp_loads p ! i)) \<Longrightarrow>
     flag_page_step X fkey stored calm p (load_answered def config segs (p\<lparr>fp_loads := remove_at i (fp_loads p)\<rparr>))"
| fps_edit: "fp_loaded p = Ready original \<Longrightarrow> flag_page_step X fkey stored calm p (edit_draft e p)"
| fps_save: "save_enabled X fkey may_write p \<Longrightarrow> flag_page_step X fkey stored calm p (save_config p)"
| fps_saved:
    "i < length (fp_saves p) \<Longrightarrow> (\<And>c. r = Inr c \<Longrightarrow> c \<in> stored (fst (fp_saves p ! i))) \<Longrightarrow>
     flag_page_step X fkey stored calm p
       (save_answered fkey (fst (fp_saves p ! i)) r (p\<lparr>fp_saves := remove_at i (fp_saves p)\<rparr>))"

inductive_cases flag_page_stepE: "flag_page_step X fkey stored calm p p'"

definition flag_page_start :: "toaster \<Rightarrow> flag_page" where
  "flag_page_start t = load_config (load_environments (flag_page_new t))"

lemmas flag_page_defs [model_defs] =
  flag_page_new_def load_environments_def load_config_def select_environment_def initial_environment_def
  environments_answered_def to_segment_def load_answered_def save_config_def save_request_def em_dash_def
  save_answered_def page_issues_def save_enabled_def edit_draft_def flag_page_start_def

section \<open>Lemmas\<close>

lemma edits_keep_version [simp]: "fd_version (apply_edit e vs segs d) = fd_version d"
  by (cases e) (simp_all add: editor_defs Let_def split: list.splits prod.splits distribution.splits)

lemma edits_keep_off_variant [simp]: "fd_off_variant (apply_edit e vs segs d) = fd_off_variant d"
  by (cases e) (simp_all add: editor_defs Let_def split: list.splits prod.splits distribution.splits)

text \<open>With a calm user at most one call is in flight, and it is for the selected environment.\<close>

definition calm_page :: "('re, 'ver) externals \<Rightarrow> string \<Rightarrow> (string \<Rightarrow> web_flag_config set) \<Rightarrow> flag_page \<Rightarrow> bool" where
  "calm_page X fkey stored p =
     ((fp_listing p \<longrightarrow> fp_selected p = None) \<and>
      (fp_selected p = None \<longrightarrow> fp_loads p = [] \<and> fp_saves p = [] \<and> fp_draft p = None) \<and>
      (fp_loads p = [] \<or> fp_saves p = [] \<and> fp_loaded p = Loading \<and> (\<exists>e. fp_selected p = Some e \<and> fp_loads p = [e])) \<and>
      (fp_saving p \<longleftrightarrow> fp_saves p \<noteq> []) \<and>
      (\<forall>l. fp_loaded p = Ready l \<longrightarrow> (\<exists>d e c. fp_draft p = Some d \<and> fp_selected p = Some e \<and> c \<in> stored e \<and>
         l = draft_of_config c \<and> fd_version d = wfc_version c \<and> fd_off_variant d = wfc_off_variant c)) \<and>
      (fp_saves p = [] \<or> (\<exists>e d c. fp_saves p = [(e, d)] \<and> fp_selected p = Some e \<and> c \<in> stored e \<and>
         fd_version d = wfc_version c \<and> fd_off_variant d = wfc_off_variant c \<and>
         editor_issues X fkey (Some d) (fp_variants p) (fp_segments p) = [])))"

lemma select_calm:
  "calm_page X fkey stored p \<Longrightarrow> fp_loads p = [] \<Longrightarrow> fp_saves p = [] \<Longrightarrow> \<not> fp_listing p \<Longrightarrow> calm_page X fkey stored (select_environment (Some k) p)"
  by (auto simp: calm_page_def select_environment_def load_config_def)

lemma environments_calm:
  "calm_page X fkey stored p \<Longrightarrow> fp_listing p \<Longrightarrow> calm_page X fkey stored (environments_answered r p)"
  by (cases r; cases "initial_environment (projr r)")
     (auto simp: calm_page_def environments_answered_def select_environment_def load_config_def)

lemma load_answered_calm:
  assumes "calm_page X fkey stored p" and "fp_loads p = [e]" and "\<And>c. config = Inr c \<Longrightarrow> c \<in> stored e"
  shows "calm_page X fkey stored (load_answered def config segs (p\<lparr>fp_loads := []\<rparr>))"
  using assms
  by (cases def; cases config; cases segs)
     (auto simp: calm_page_def load_answered_def draft_of_config_def)

lemma save_calm:
  "calm_page X fkey stored p \<Longrightarrow> save_enabled X fkey may_write p \<Longrightarrow> calm_page X fkey stored (save_config p)"
  by (auto simp: calm_page_def save_config_def is_dirty_def save_enabled_def page_issues_def split: option.splits load_state.splits)

lemma save_answered_calm:
  assumes "calm_page X fkey stored p" and "fp_saves p = [(e, d)]" and "\<And>c. r = Inr c \<Longrightarrow> c \<in> stored e"
  shows "calm_page X fkey stored (save_answered fkey e r (p\<lparr>fp_saves := []\<rparr>))"
  using assms
  by (cases r) (auto simp: calm_page_def save_answered_def draft_of_config_def Let_def)

lemma edit_calm: "calm_page X fkey stored p \<Longrightarrow> fp_loaded p = Ready l \<Longrightarrow> calm_page X fkey stored (edit_draft e p)"
  by (auto simp: calm_page_def edit_draft_def)

lemma one_call: "i < length xs \<Longrightarrow> xs = [x] \<Longrightarrow> remove_at i xs = [] \<and> xs ! i = x"
  by (simp add: remove_at_def)

lemma calm_page_kept:
  assumes "calm_page X fkey stored p" and "flag_page_step X fkey stored True p p'"
    and listing: "fp_environments p = Loading \<or> \<not> fp_listing p"
  shows "calm_page X fkey stored p'"
  using assms(2)
proof cases
  case (fps_environments r)
  with assms(1) show ?thesis by (simp add: environments_calm)
next
  case (fps_select es e)
  then show ?thesis using assms(1) listing by (auto intro: select_calm)
next
  case (fps_retry error)
  then show ?thesis using assms(1) by (auto simp: calm_page_def load_config_def split: option.splits)
next
  case (fps_loaded i config def segs)
  then obtain e where "fp_loads p = [e]" using assms(1) by (auto simp: calm_page_def)
  with fps_loaded one_call [OF fps_loaded(2) this] show ?thesis by (auto intro: load_answered_calm [OF assms(1)])
next
  case (fps_edit original e)
  with assms(1) show ?thesis by (auto intro: edit_calm)
next
  case (fps_save may_write)
  with assms(1) show ?thesis by (auto intro: save_calm)
next
  case (fps_saved i r)
  then obtain e d where "fp_saves p = [(e, d)]" using assms(1) by (auto simp: calm_page_def)
  with fps_saved one_call [OF fps_saved(2) this] show ?thesis by (auto intro: save_answered_calm [OF assms(1)])
qed

lemma listing_kept:
  assumes "fp_environments p = Loading \<or> \<not> fp_listing p" and "flag_page_step X fkey stored calm p p'"
  shows "fp_environments p' = Loading \<or> \<not> fp_listing p'"
  using assms(2,1)
  by cases
     (auto simp: flag_page_defs Let_def split: sum.splits option.splits)

section \<open>Properties\<close>

text \<open>
  C34. A calm page saves what it read. If the user changes the environment only while no call is in
  flight, then every save goes to the environment on display, names the version of a configuration
  that the server gave for that environment, keeps that configuration's off variant, which the page cannot
  change, and has no issue; and there is one save at a time.
\<close>

theorem calm_page_saves_what_it_read:
  assumes "(flag_page_step X fkey stored True)\<^sup>*\<^sup>* (flag_page_start t) p" and "(environment, d) \<in> set (fp_saves p)"
  shows "fp_selected p = Some environment \<and> fp_saves p = [(environment, d)] \<and>
    (\<exists>c \<in> stored environment. cb_expected_version (save_body d) = wfc_version c \<and> cb_off_variant (save_body d) = wfc_off_variant c) \<and>
    editor_issues X fkey (Some d) (fp_variants p) (fp_segments p) = []"
proof -
  have "calm_page X fkey stored p \<and> (fp_environments p = Loading \<or> \<not> fp_listing p)"
    using assms(1)
  proof (induction rule: rtranclp_induct)
    case base
    show ?case by (simp add: calm_page_def flag_page_start_def load_config_def load_environments_def flag_page_new_def)
  next
    case (step p p')
    then show ?case using calm_page_kept listing_kept by blast
  qed
  with assms(2) show ?thesis by (auto simp: calm_page_def save_body_def)
qed

text \<open>
  C35. A late answer saves one environment into another. The answer to a load is applied whatever
  environment is selected when it arrives. If the user moves on from a slow environment and the first load
  answers last, the page shows the first environment's configuration under the second one's name,
  and the next save sends it there, with the version of the first.
\<close>

theorem late_load_saves_elsewhere:
  fixes f :: web_flag and first second :: web_environment
  assumes "initial_environment [first, second] = Some (wenv_key first)"
    and "ca \<in> stored (wenv_key first)" and "cb \<in> stored (wenv_key second)"
    and "editor_issues X fkey (Some (set_enabled (\<not> wfc_enabled ca) (draft_of_config ca))) (wfl_variants f) [] = []"
  shows "\<exists>p. (flag_page_step X fkey stored False)\<^sup>*\<^sup>* (flag_page_start t) p \<and> fp_selected p = Some (wenv_key second) \<and>
    fp_saves p = [(wenv_key second, set_enabled (\<not> wfc_enabled ca) (draft_of_config ca))]"
proof -
  let ?step = "flag_page_step X fkey stored False"
  let ?d = "set_enabled (\<not> wfc_enabled ca) (draft_of_config ca)"
  let ?start = "flag_page_start t"
  let ?listed = "environments_answered (Inr [first, second]) ?start"
  let ?moved = "select_environment (Some (wenv_key second)) ?listed"
  let ?shown = "load_answered (Inr f) (Inr cb) (Inr []) (?moved\<lparr>fp_loads := remove_at 1 (fp_loads ?moved)\<rparr>)"
  let ?late = "load_answered (Inr f) (Inr ca) (Inr []) (?shown\<lparr>fp_loads := remove_at 0 (fp_loads ?shown)\<rparr>)"
  let ?edited = "edit_draft (SetEnabled (\<not> wfc_enabled ca)) ?late"
  have start: "fp_listing ?start" "fp_loads ?start = []" "fp_saves ?start = []" "\<not> fp_saving ?start"
    by (simp_all add: flag_page_defs)
  have listed: "fp_environments ?listed = Ready [first, second]" "fp_loads ?listed = [wenv_key first]" "fp_saves ?listed = []"
      "\<not> fp_saving ?listed"
    using start by (simp_all add: environments_answered_def select_environment_def load_config_def assms(1))
  have moved: "fp_loads ?moved = [wenv_key first, wenv_key second]" "fp_selected ?moved = Some (wenv_key second)"
      "fp_saves ?moved = []" "\<not> fp_saving ?moved"
    using listed by (simp_all add: select_environment_def load_config_def)
  have shown: "fp_loads ?shown = [wenv_key first]" "fp_selected ?shown = Some (wenv_key second)" "fp_saves ?shown = []"
      "\<not> fp_saving ?shown"
    using moved by (simp_all add: load_answered_def remove_at_def)
  have late: "fp_loaded ?late = Ready (draft_of_config ca)" "fp_draft ?late = Some (draft_of_config ca)"
      "fp_variants ?late = wfl_variants f" "fp_segments ?late = []" "fp_selected ?late = Some (wenv_key second)"
      "fp_saves ?late = []" "\<not> fp_saving ?late"
    using shown by (simp_all add: load_answered_def)
  have edited: "fp_draft ?edited = Some ?d" "fp_loaded ?edited = Ready (draft_of_config ca)"
      "fp_variants ?edited = wfl_variants f" "fp_segments ?edited = []" "fp_selected ?edited = Some (wenv_key second)"
      "fp_saves ?edited = []" "\<not> fp_saving ?edited"
    using late by (simp_all add: edit_draft_def)
  have s1: "?step ?start ?listed" using start(1) by (rule fps_environments)
  have s2: "?step ?listed ?moved" using listed(1) by (rule fps_select) simp_all
  have s3: "?step ?moved ?shown"
    using fps_loaded [of 1 ?moved "Inr cb" stored X fkey False "Inr f" "Inr []"] moved(1) assms(3) by simp
  have s4: "?step ?shown ?late"
    using fps_loaded [of 0 ?shown "Inr ca" stored X fkey False "Inr f" "Inr []"] shown(1) assms(2) by simp
  have s5: "?step ?late ?edited" using late(1) by (rule fps_edit)
  have s6: "?step ?edited (save_config ?edited)"
    using edited assms(4)
    by (intro fps_save [of X fkey True]) (simp add: save_enabled_def is_dirty_def page_issues_def, simp add: set_enabled_def draft_of_config_def)
  have r1: "?step\<^sup>*\<^sup>* ?start ?listed" using s1 by (rule r_into_rtranclp)
  have r2: "?step\<^sup>*\<^sup>* ?start ?moved" using r1 s2 by (rule rtranclp.rtrancl_into_rtrancl)
  have r3: "?step\<^sup>*\<^sup>* ?start ?shown" using r2 s3 by (rule rtranclp.rtrancl_into_rtrancl)
  have r4: "?step\<^sup>*\<^sup>* ?start ?late" using r3 s4 by (rule rtranclp.rtrancl_into_rtrancl)
  have r5: "?step\<^sup>*\<^sup>* ?start ?edited" using r4 s5 by (rule rtranclp.rtrancl_into_rtrancl)
  have "?step\<^sup>*\<^sup>* ?start (save_config ?edited)" using r5 s6 by (rule rtranclp.rtrancl_into_rtrancl)
  moreover have "fp_selected (save_config ?edited) = Some (wenv_key second)" "fp_saves (save_config ?edited) = [(wenv_key second, ?d)]"
    using edited by (simp_all add: save_config_def)
  ultimately show ?thesis by blast
qed

section \<open>Demonstrations\<close>

definition demo_web_config :: web_flag_config where
  "demo_web_config = \<lparr>wfc_flag_id = ''4'', wfc_environment_id = ''3'', wfc_enabled = False, wfc_off_variant = ''off'',
     wfc_fallthrough = Fixed ''on'', wfc_rules = [], wfc_version = 1, wfc_updated_at = ''now''\<rparr>"

definition demo_web_flag :: web_flag where
  "demo_web_flag = \<lparr>wfl_id = ''4'', wfl_key = ''f'', wfl_name = ''F'', wfl_description = None,
     wfl_variants = flag_variants (flag_boolean ''f''), wfl_archived = False, wfl_updated_at = ''now'', wfl_measured_by = []\<rparr>"

definition demo_web_environment :: "string \<Rightarrow> web_environment" where
  "demo_web_environment k = \<lparr>wenv_id = k, wenv_key = k, wenv_name = k, wenv_is_production = True\<rparr>"

abbreviation demo_stored :: "string \<Rightarrow> web_flag_config set" where
  "demo_stored k \<equiv> {demo_web_config}"

lemma demo_draft_valid:
  "editor_issues demo_externals ''f'' (Some (set_enabled (\<not> wfc_enabled demo_web_config) (draft_of_config demo_web_config)))
     (wfl_variants demo_web_flag) [] = []"
proof -
  have "validate demo_externals \<lparr>flag_key = ''f'', flag_variants = flag_variants (flag_boolean ''f''), flag_enabled = True,
      flag_off_variant = ''off'', flag_fallthrough = Fixed ''on'', flag_rules = [], flag_version = 1\<rparr> = Inr ()"
    using demo_valid_flag validate_version [of demo_externals 1 "candidate ''f'' (flag_variants (flag_boolean ''f'')) ''off'' (Fixed ''on'') []"]
    by simp
  then show ?thesis
    by (simp add: editor_issues_def demo_web_config_def demo_web_flag_def draft_of_config_def set_enabled_def validate_references_def
        issues_result_def)
qed

theorem late_load_saves_elsewhere_witness:
  "\<exists>p. (flag_page_step demo_externals ''f'' demo_stored False)\<^sup>*\<^sup>* (flag_page_start toaster_new) p \<and>
     fp_selected p = Some ''dev'' \<and> fp_saves p = [(''dev'', set_enabled True (draft_of_config demo_web_config))]"
  using late_load_saves_elsewhere [of "demo_web_environment ''prod''" "demo_web_environment ''dev''" demo_web_config demo_stored
      demo_web_config demo_externals "''f''" demo_web_flag toaster_new] demo_draft_valid
  by (simp add: initial_environment_def demo_web_environment_def) (simp add: demo_web_config_def)

text \<open>The first save of a page with one environment.\<close>

lemma demo_first_save:
  "\<exists>p. (flag_page_step demo_externals ''f'' demo_stored True)\<^sup>*\<^sup>* (flag_page_start toaster_new) p \<and>
     fp_saves p = [(''prod'', set_enabled True (draft_of_config demo_web_config))]"
proof -
  let ?step = "flag_page_step demo_externals ''f'' demo_stored True"
  let ?start = "flag_page_start toaster_new"
  let ?listed = "environments_answered (Inr [demo_web_environment ''prod'']) ?start"
  let ?shown = "load_answered (Inr demo_web_flag) (Inr demo_web_config) (Inr []) (?listed\<lparr>fp_loads := remove_at 0 (fp_loads ?listed)\<rparr>)"
  let ?edited = "edit_draft (SetEnabled True) ?shown"
  have listed: "fp_loads ?listed = [''prod'']" "fp_selected ?listed = Some ''prod''" "fp_saves ?listed = []" "\<not> fp_saving ?listed"
    by (simp_all add: flag_page_defs demo_web_environment_def)
  have shown: "fp_loaded ?shown = Ready (draft_of_config demo_web_config)" "fp_draft ?shown = Some (draft_of_config demo_web_config)"
      "fp_variants ?shown = wfl_variants demo_web_flag" "fp_segments ?shown = []" "fp_selected ?shown = Some ''prod''"
      "fp_saves ?shown = []" "\<not> fp_saving ?shown"
    using listed by (simp_all add: load_answered_def)
  have enabled: "save_enabled demo_externals ''f'' True ?edited"
    using shown demo_draft_valid
    by (simp add: save_enabled_def is_dirty_def page_issues_def edit_draft_def) (simp add: set_enabled_def draft_of_config_def demo_web_config_def)
  have "?step\<^sup>*\<^sup>* ?start ?listed" by (rule r_into_rtranclp, rule fps_environments) (simp add: flag_page_defs)
  moreover have "?step ?listed ?shown"
    using fps_loaded [of 0 ?listed "Inr demo_web_config" demo_stored demo_externals "''f''" True "Inr demo_web_flag" "Inr []"] listed by simp
  ultimately have r2: "?step\<^sup>*\<^sup>* ?start ?shown" by (rule rtranclp.rtrancl_into_rtrancl)
  moreover have "?step ?shown ?edited" using shown(1) by (rule fps_edit)
  ultimately have r3: "?step\<^sup>*\<^sup>* ?start ?edited" by (rule rtranclp.rtrancl_into_rtrancl)
  moreover have "?step ?edited (save_config ?edited)" using enabled by (rule fps_save)
  ultimately have "?step\<^sup>*\<^sup>* ?start (save_config ?edited)" by (rule rtranclp.rtrancl_into_rtrancl)
  moreover have "fp_saves (save_config ?edited) = [(''prod'', set_enabled True (draft_of_config demo_web_config))]"
    using shown by (simp add: save_config_def edit_draft_def)
  ultimately show ?thesis by blast
qed

theorem calm_page_saves_what_it_read_witness:
  "\<exists>p. (flag_page_step demo_externals ''f'' demo_stored True)\<^sup>*\<^sup>* (flag_page_start toaster_new) p \<and>
     fp_selected p = Some ''prod'' \<and> fp_saves p = [(''prod'', set_enabled True (draft_of_config demo_web_config))]"
proof -
  obtain p where "(flag_page_step demo_externals ''f'' demo_stored True)\<^sup>*\<^sup>* (flag_page_start toaster_new) p"
    and "fp_saves p = [(''prod'', set_enabled True (draft_of_config demo_web_config))]"
    using demo_first_save by blast
  with calm_page_saves_what_it_read [OF this(1), of "''prod''" "set_enabled True (draft_of_config demo_web_config)"]
  show ?thesis by auto
qed

end
