(* ===== verification/Web_Segments.thy ===== *)
theory Web_Segments
  imports Web_Flag_Page
begin

text \<open>
  \<^verbatim>\<open>crates/web/src/pages/segments.rs\<close>: the edit buffer of a segment, whose two lists of members are held
  as text, and the page with its calls in flight.
\<close>

section \<open>The draft\<close>

record segment_draft =
  sgd_key :: string
  sgd_name :: string
  sgd_included :: string
  sgd_excluded :: string
  sgd_rules :: "segment_rule list"
  sgd_version :: int
  sgd_referenced_by :: "string list"

abbreviation newline :: char where
  "newline \<equiv> CHR 0x0A"

definition to_lines :: "string list \<Rightarrow> string" where
  "to_lines keys = join [newline] keys"

text \<open>A set collects into the ascending list of its elements.\<close>

definition from_lines :: "string \<Rightarrow> string list" where
  "from_lines raw =
     sort (remdups (filter (\<lambda>line. line \<noteq> [])
       (map str_trim (concat (map (split_on CHR '','') (split_on newline raw))))))"

definition segment_draft_from :: "web_segment \<Rightarrow> string list \<Rightarrow> segment_draft" where
  "segment_draft_from s referenced_by =
     \<lparr>sgd_key = wsg_key s, sgd_name = wsg_name s, sgd_included = to_lines (wsg_included s),
      sgd_excluded = to_lines (wsg_excluded s), sgd_rules = wsg_rules s, sgd_version = wsg_version s,
      sgd_referenced_by = referenced_by\<rparr>"

definition segment_save_body :: "segment_draft \<Rightarrow> segment_body" where
  "segment_save_body d =
     \<lparr>sb_name = sgd_name d, sb_included = from_lines (sgd_included d), sb_excluded = from_lines (sgd_excluded d),
      sb_rules = sgd_rules d, sb_expected_version = sgd_version d\<rparr>"

definition web_segment_is_empty :: "web_segment \<Rightarrow> bool" where
  "web_segment_is_empty s = (wsg_included s = [] \<and> wsg_rules s = [])"

text \<open>The dot between the parts is encoded in UTF-8.\<close>

definition describe_segment :: "web_segment \<Rightarrow> string" where
  "describe_segment s =
     join ('' '' @ map char_of [194, 183 :: nat] @ '' '')
       ((if wsg_included s \<noteq> [] then [show_nat (length (wsg_included s)) @ '' always in''] else []) @
        (if wsg_rules s \<noteq> []
         then [show_nat (length (wsg_rules s)) @ '' rule'' @ (if length (wsg_rules s) = 1 then [] else ''s'')] else []) @
        (if wsg_excluded s \<noteq> [] then [show_nat (length (wsg_excluded s)) @ '' excluded''] else []))"

section \<open>The rollout of a rule\<close>

text \<open>A text that is no number gives no rollout, as a hundred percent does.\<close>

definition from_percent :: "string \<Rightarrow> u32 option" where
  "from_percent raw =
     (case parse_f64 (str_trim raw) of
        None \<Rightarrow> None
      | Some v \<Rightarrow>
          (let clamped = f64_clamp 0 100 v
           in if f64_le (Finite 100) clamped then None
              else Some (f64_as_u32 (f64_round (f64_times clamped 1000)))))"

text \<open>\<^verbatim>\<open>{:.1}\<close> of a non-negative double: one decimal of its exact value, ties to even.\<close>

definition show_tenths :: "rat \<Rightarrow> string" where
  "show_tenths x = (let n = nat (round_half_even (10 * x)) in show_nat (n div 10) @ ''.'' @ show_nat (n mod 10))"

definition to_percent :: "u32 \<Rightarrow> string" where
  "to_percent weight =
     (case f64_div_by (f64_times (Finite (of_nat (unat weight))) 100) (of_nat (unat TOTAL_WEIGHT)) of
        Finite p \<Rightarrow>
          (let near = rat_of (f64_round (Finite p))
           in if \<bar>p - near\<bar> < 1 / 2 ^ 52 then show_nat (nat \<lfloor>near\<rfloor>) else show_tenths p)
      | _ \<Rightarrow> [])"

section \<open>Edits\<close>

definition edit_segment_rule :: "nat \<Rightarrow> (segment_rule \<Rightarrow> segment_rule) \<Rightarrow> segment_draft \<Rightarrow> segment_draft" where
  "edit_segment_rule i f d = d\<lparr>sgd_rules := update_at i f (sgd_rules d)\<rparr>"

definition edit_segment_name :: "string \<Rightarrow> segment_draft \<Rightarrow> segment_draft" where
  "edit_segment_name text d = d\<lparr>sgd_name := text\<rparr>"

definition edit_included :: "string \<Rightarrow> segment_draft \<Rightarrow> segment_draft" where
  "edit_included text d = d\<lparr>sgd_included := text\<rparr>"

definition edit_excluded :: "string \<Rightarrow> segment_draft \<Rightarrow> segment_draft" where
  "edit_excluded text d = d\<lparr>sgd_excluded := text\<rparr>"

definition add_segment_rule :: "uuid \<Rightarrow> segment_draft \<Rightarrow> segment_draft" where
  "add_segment_rule new_uuid d = d\<lparr>sgd_rules := sgd_rules d @ [segment_rule_new new_uuid
     [\<lparr>cond_attribute = ''plan'', cond_operator = In, cond_values = [AString ''pro'']\<rparr>]]\<rparr>"

definition describe_segment_rule :: "nat \<Rightarrow> string \<Rightarrow> segment_draft \<Rightarrow> segment_draft" where
  "describe_segment_rule i text = edit_segment_rule i (\<lambda>r. r\<lparr>srule_description :=
     (if str_trim text = [] then None else Some (str_trim text))\<rparr>)"

definition remove_segment_rule :: "nat \<Rightarrow> segment_draft \<Rightarrow> segment_draft" where
  "remove_segment_rule i d = d\<lparr>sgd_rules := remove_at i (sgd_rules d)\<rparr>"

definition add_segment_condition :: "nat \<Rightarrow> segment_draft \<Rightarrow> segment_draft" where
  "add_segment_condition i = edit_segment_rule i (\<lambda>r. r\<lparr>srule_conditions := srule_conditions r @
     [\<lparr>cond_attribute = ''country'', cond_operator = In, cond_values = [AString ''ES'']\<rparr>]\<rparr>)"

definition set_rollout :: "nat \<Rightarrow> string \<Rightarrow> segment_draft \<Rightarrow> segment_draft" where
  "set_rollout i raw = edit_segment_rule i (\<lambda>r. r\<lparr>srule_rollout :=
     map_option (\<lambda>percentage. \<lparr>sr_percentage = percentage, sr_bucket_by = Option.bind (srule_rollout r) sr_bucket_by\<rparr>)
       (from_percent raw)\<rparr>)"

definition edit_segment_condition :: "nat \<Rightarrow> nat \<Rightarrow> (condition \<Rightarrow> condition) \<Rightarrow> segment_draft \<Rightarrow> segment_draft" where
  "edit_segment_condition i j f = edit_segment_rule i (\<lambda>r. r\<lparr>srule_conditions := update_at j f (srule_conditions r)\<rparr>)"

definition set_segment_attribute :: "nat \<Rightarrow> nat \<Rightarrow> string \<Rightarrow> segment_draft \<Rightarrow> segment_draft" where
  "set_segment_attribute i j text = edit_segment_condition i j (\<lambda>c. c\<lparr>cond_attribute := text\<rparr>)"

definition set_segment_operator :: "nat \<Rightarrow> nat \<Rightarrow> string \<Rightarrow> segment_draft \<Rightarrow> segment_draft" where
  "set_segment_operator i j raw = edit_segment_condition i j (\<lambda>c.
     case operator_from raw of Some op \<Rightarrow> c\<lparr>cond_operator := op\<rparr> | None \<Rightarrow> c)"

definition set_segment_values :: "nat \<Rightarrow> nat \<Rightarrow> string \<Rightarrow> segment_draft \<Rightarrow> segment_draft" where
  "set_segment_values i j raw = edit_segment_condition i j (\<lambda>c. c\<lparr>cond_values := parse_values raw\<rparr>)"

definition remove_segment_condition :: "nat \<Rightarrow> nat \<Rightarrow> segment_draft \<Rightarrow> segment_draft" where
  "remove_segment_condition i j = edit_segment_rule i (\<lambda>r. r\<lparr>srule_conditions := remove_at j (srule_conditions r)\<rparr>)"

lemmas segment_draft_defs [model_defs] =
  to_lines_def from_lines_def segment_draft_from_def segment_save_body_def web_segment_is_empty_def describe_segment_def
  from_percent_def show_tenths_def to_percent_def edit_segment_rule_def edit_segment_name_def edit_included_def
  edit_excluded_def add_segment_rule_def describe_segment_rule_def remove_segment_rule_def add_segment_condition_def
  set_rollout_def edit_segment_condition_def set_segment_attribute_def set_segment_operator_def set_segment_values_def
  remove_segment_condition_def

section \<open>The page\<close>

text \<open>The calls in flight: lists of an environment, openings, saves and deletions of a segment.\<close>

record segments_page =
  sp_environments :: "web_environment list load_state"
  sp_selected :: "string option"
  sp_segments :: "web_segment list load_state"
  sp_draft :: "segment_draft option"
  sp_creating :: bool
  sp_saving :: bool
  sp_toasts :: toaster
  sp_listing :: bool
  sp_loads :: "string list"
  sp_opens :: "(string \<times> string) list"
  sp_saves :: "(string \<times> segment_draft) list"
  sp_deletes :: "(string \<times> string) list"

definition segments_page_new :: "toaster \<Rightarrow> segments_page" where
  "segments_page_new t =
     \<lparr>sp_environments = Loading, sp_selected = None, sp_segments = Loading, sp_draft = None, sp_creating = False,
      sp_saving = False, sp_toasts = t, sp_listing = True, sp_loads = [], sp_opens = [], sp_saves = [], sp_deletes = []\<rparr>"

definition load_segments :: "segments_page \<Rightarrow> segments_page" where
  "load_segments p =
     (case sp_selected p of None \<Rightarrow> p
      | Some e \<Rightarrow> p\<lparr>sp_segments := Loading, sp_loads := sp_loads p @ [e]\<rparr>)"

text \<open>A change of the environment closes the editor and lists the segments.\<close>

definition sp_select :: "string option \<Rightarrow> segments_page \<Rightarrow> segments_page" where
  "sp_select key p = load_segments (p\<lparr>sp_selected := key, sp_draft := None\<rparr>)"

definition sp_environments_answered :: "web_error + web_environment list \<Rightarrow> segments_page \<Rightarrow> segments_page" where
  "sp_environments_answered r p =
     (case r of
        Inr es \<Rightarrow> (sp_select (initial_environment es) p)\<lparr>sp_environments := load_from r, sp_listing := False\<rparr>
      | Inl _ \<Rightarrow> p\<lparr>sp_environments := load_from r, sp_listing := False\<rparr>)"

definition segments_answered :: "web_error + web_segment list \<Rightarrow> segments_page \<Rightarrow> segments_page" where
  "segments_answered r p = p\<lparr>sp_segments := load_from r\<rparr>"

definition open_segment :: "string \<Rightarrow> segments_page \<Rightarrow> segments_page" where
  "open_segment key p =
     (case sp_selected p of None \<Rightarrow> p | Some e \<Rightarrow> p\<lparr>sp_opens := sp_opens p @ [(e, key)]\<rparr>)"

definition segment_opened :: "web_error + web_segment \<times> string list \<Rightarrow> segments_page \<Rightarrow> segments_page" where
  "segment_opened r p =
     (case r of
        Inr (s, referenced_by) \<Rightarrow> p\<lparr>sp_draft := Some (segment_draft_from s referenced_by)\<rparr>
      | Inl error \<Rightarrow> p\<lparr>sp_toasts := toast_error ''Could not open the segment'' error (sp_toasts p)\<rparr>)"

definition save_segment :: "segments_page \<Rightarrow> segments_page" where
  "save_segment p =
     (case (sp_draft p, sp_selected p) of
        (Some current, Some e) \<Rightarrow>
          if sp_saving p then p else p\<lparr>sp_saving := True, sp_saves := sp_saves p @ [(e, current)]\<rparr>
      | _ \<Rightarrow> p)"

definition segment_save_request :: "string \<Rightarrow> string \<Rightarrow> string \<times> segment_draft \<Rightarrow> web_request" where
  "segment_save_request token project s = web_put_segment token project (fst s) (sgd_key (snd s)) (segment_save_body (snd s))"

definition segment_saved :: "segment_draft \<Rightarrow> web_error + web_segment \<Rightarrow> segments_page \<Rightarrow> segments_page" where
  "segment_saved current r p =
     (let p' = p\<lparr>sp_saving := False\<rparr>
      in case r of
           Inr s \<Rightarrow> load_segments (p'\<lparr>sp_draft := Some (segment_draft_from s (sgd_referenced_by current)),
             sp_toasts := toast_success (''Segment saved '' @ em_dash @ '' every flag that references it follows'') (sp_toasts p)\<rparr>)
         | Inl error \<Rightarrow>
             if is_conflict error then
               open_segment (sgd_key current)
                 (p'\<lparr>sp_toasts := toast_error (''Someone else changed this segment '' @ em_dash @ '' reopen it'') error (sp_toasts p)\<rparr>)
             else p'\<lparr>sp_toasts := toast_error ''Could not save the segment'' error (sp_toasts p)\<rparr>)"

definition delete_segment_clicked :: "string \<Rightarrow> segments_page \<Rightarrow> segments_page" where
  "delete_segment_clicked key p =
     (case sp_selected p of None \<Rightarrow> p | Some e \<Rightarrow> p\<lparr>sp_deletes := sp_deletes p @ [(e, key)]\<rparr>)"

definition segment_deleted :: "web_error + unit \<Rightarrow> segments_page \<Rightarrow> segments_page" where
  "segment_deleted r p =
     (case r of
        Inr _ \<Rightarrow> load_segments (p\<lparr>sp_toasts := toast_success ''Segment deleted'' (sp_toasts p), sp_draft := None\<rparr>)
      | Inl error \<Rightarrow> p\<lparr>sp_toasts := toast_error ''Could not delete the segment'' error (sp_toasts p)\<rparr>)"

text \<open>A segment was created in the modal: it is closed, the list is loaded and the segment opened.\<close>

definition segment_created :: "string \<Rightarrow> segments_page \<Rightarrow> segments_page" where
  "segment_created key p = open_segment key (load_segments (p\<lparr>sp_creating := False\<rparr>))"

lemmas segments_page_defs [model_defs] =
  segments_page_new_def load_segments_def sp_select_def sp_environments_answered_def segments_answered_def open_segment_def
  segment_opened_def save_segment_def segment_save_request_def segment_saved_def delete_segment_clicked_def
  segment_deleted_def segment_created_def

text \<open>What can happen: the tabs and the rows of the list are there once they are loaded; the editor while there
  is a draft. \<open>stored environment\<close> are the segments the server may give for an environment.\<close>

inductive segments_page_step :: "(string \<Rightarrow> web_segment set) \<Rightarrow> segments_page \<Rightarrow> segments_page \<Rightarrow> bool"
  for stored :: "string \<Rightarrow> web_segment set" where
  sps_environments: "sp_listing p \<Longrightarrow> segments_page_step stored p (sp_environments_answered r p)"
| sps_select:
    "sp_environments p = Ready es \<Longrightarrow> e \<in> set es \<Longrightarrow> segments_page_step stored p (sp_select (Some (wenv_key e)) p)"
| sps_segments:
    "i < length (sp_loads p) \<Longrightarrow> (\<And>xs. r = Inr xs \<Longrightarrow> set xs \<subseteq> stored (sp_loads p ! i)) \<Longrightarrow>
     segments_page_step stored p (segments_answered r (p\<lparr>sp_loads := remove_at i (sp_loads p)\<rparr>))"
| sps_open: "sp_segments p = Ready xs \<Longrightarrow> s \<in> set xs \<Longrightarrow> segments_page_step stored p (open_segment (wsg_key s) p)"
| sps_opened:
    "i < length (sp_opens p) \<Longrightarrow>
     (\<And>s refs. r = Inr (s, refs) \<Longrightarrow> s \<in> stored (fst (sp_opens p ! i)) \<and> wsg_key s = snd (sp_opens p ! i)) \<Longrightarrow>
     segments_page_step stored p (segment_opened r (p\<lparr>sp_opens := remove_at i (sp_opens p)\<rparr>))"
| sps_edit: "sp_draft p = Some d \<Longrightarrow> sgd_key d' = sgd_key d \<Longrightarrow> sgd_version d' = sgd_version d \<Longrightarrow>
     segments_page_step stored p (p\<lparr>sp_draft := Some d'\<rparr>)"
| sps_save: "sp_draft p = Some d \<Longrightarrow> segments_page_step stored p (save_segment p)"
| sps_saved:
    "i < length (sp_saves p) \<Longrightarrow> (\<And>s. r = Inr s \<Longrightarrow> s \<in> stored (fst (sp_saves p ! i))) \<Longrightarrow>
     segments_page_step stored p
       (segment_saved (snd (sp_saves p ! i)) r (p\<lparr>sp_saves := remove_at i (sp_saves p)\<rparr>))"
| sps_delete: "sp_draft p = Some d \<Longrightarrow> segments_page_step stored p (delete_segment_clicked (sgd_key d) p)"
| sps_deleted:
    "i < length (sp_deletes p) \<Longrightarrow>
     segments_page_step stored p (segment_deleted r (p\<lparr>sp_deletes := remove_at i (sp_deletes p)\<rparr>))"
| sps_new: "segments_page_step stored p (p\<lparr>sp_creating := True\<rparr>)"
| sps_close: "segments_page_step stored p (p\<lparr>sp_creating := False\<rparr>)"
| sps_created: "sp_creating p \<Longrightarrow> segments_page_step stored p (segment_created key p)"

inductive_cases segments_page_stepE: "segments_page_step stored p p'"

section \<open>Lemmas\<close>

definition plain_member :: "string \<Rightarrow> bool" where
  "plain_member k = (k \<noteq> [] \<and> str_trim k = k \<and> CHR '','' \<notin> set k \<and> newline \<notin> set k)"

lemma split_join:
  "keys \<noteq> [] \<Longrightarrow> \<forall>k \<in> set keys. newline \<notin> set k \<Longrightarrow> split_on newline (join [newline] keys) = keys"
  by (induction "[newline]" keys rule: join.induct) (simp_all add: split_on_append)

lemma concat_words: "\<forall>k \<in> set keys. CHR '','' \<notin> set k \<Longrightarrow> concat (map (split_on CHR '','') keys) = keys"
  by (induction keys) simp_all

lemma from_to_lines:
  assumes "sorted keys" and "distinct keys" and "\<forall>k \<in> set keys. plain_member k"
  shows "from_lines (to_lines keys) = keys"
proof (cases "keys = []")
  case True
  have "str_trim [] = []" by code_simp
  with True show ?thesis by (simp add: from_lines_def to_lines_def)
next
  case False
  have "filter (\<lambda>line. line \<noteq> []) (map str_trim keys) = keys"
    using assms(3) by (auto simp: plain_member_def map_idI intro!: filter_True)
  with False assms show ?thesis
    by (simp add: from_lines_def to_lines_def split_join concat_words plain_member_def sorted_sort_id distinct_remdups_id)
qed

section \<open>Properties\<close>


text \<open>
  A member with a comma is torn apart. The interface accepts any text as a context key; a segment whose
  only member contains a comma is saved by the page with the two halves as members instead.
\<close>

theorem members_with_commas_are_split:
  assumes "plain_member a" and "plain_member b" and "a < b"
  shows "sb_included (segment_save_body (segment_draft_from (s\<lparr>wsg_included := [a @ '','' @ b]\<rparr>) referenced_by)) = [a, b]"
proof -
  have no: "newline \<notin> set (a @ '','' @ b)" using assms by (simp add: plain_member_def)
  have "split_on CHR '','' (a @ CHR '','' # b) = [a, b]" using assms by (simp add: plain_member_def split_on_append)
  with no assms order.strict_implies_order [OF assms(3)] order.strict_implies_not_eq [OF assms(3)] show ?thesis
    by (simp add: segment_save_body_def segment_draft_from_def from_lines_def to_lines_def plain_member_def)
qed

text \<open>
  Clearing the percentage admits everyone. A field that holds no number, an empty one for example, removes the
  rollout of the rule, so the rule then admits everybody whom its conditions match.
\<close>

theorem blank_percentage_admits_everyone:
  assumes "parse_f64 (str_trim raw) = None" and "i < length (sgd_rules d)"
  shows "segment_rule_matches X (sgd_rules (set_rollout i raw d) ! i) key ctx salt =
    list_all (\<lambda>c. condition_matches X c ctx) (srule_conditions (sgd_rules d ! i))"
  using assms by (simp add: set_rollout_def edit_segment_rule_def update_at_def from_percent_def segment_rule_matches_def)

text \<open>
  A late opening saves one environment into another. The answer to the opening of a segment is displayed
  whatever environment is selected when it arrives, and the save then goes to that environment, with the
  version of the other.
\<close>

theorem late_opening_saves_elsewhere:
  fixes first second :: web_environment and s :: web_segment
  assumes "initial_environment [first, second] = Some (wenv_key first)" and "s \<in> stored (wenv_key first)"
  shows "\<exists>p. (segments_page_step stored)\<^sup>*\<^sup>* (segments_page_new t) p \<and> sp_selected p = Some (wenv_key second) \<and>
    sp_saves p = [(wenv_key second, segment_draft_from s referenced_by)]"
proof -
  let ?step = "segments_page_step stored"
  define new where "new = segments_page_new t"
  define listed where "listed = sp_environments_answered (Inr [first, second]) new"
  define shown where "shown = segments_answered (Inr [s]) (listed\<lparr>sp_loads := remove_at 0 (sp_loads listed)\<rparr>)"
  define asked where "asked = open_segment (wsg_key s) shown"
  define moved where "moved = sp_select (Some (wenv_key second)) asked"
  define late where "late = segment_opened (Inr (s, referenced_by)) (moved\<lparr>sp_opens := remove_at 0 (sp_opens moved)\<rparr>)"
  have l: "sp_loads listed = [wenv_key first]" "sp_environments listed = Ready [first, second]"
      "sp_selected listed = Some (wenv_key first)" "sp_opens listed = []" "sp_saves listed = []" "\<not> sp_saving listed"
    by (simp_all add: listed_def new_def sp_environments_answered_def sp_select_def load_segments_def segments_page_new_def assms(1))
  then have s: "sp_segments shown = Ready [s]" "sp_selected shown = Some (wenv_key first)" "sp_opens shown = []"
      "sp_environments shown = Ready [first, second]" "sp_saves shown = []" "\<not> sp_saving shown"
    by (simp_all add: shown_def segments_answered_def)
  then have a: "sp_opens asked = [(wenv_key first, wsg_key s)]" "sp_environments asked = Ready [first, second]"
      "sp_saves asked = []" "\<not> sp_saving asked"
    by (simp_all add: asked_def open_segment_def)
  then have m: "sp_opens moved = [(wenv_key first, wsg_key s)]" "sp_selected moved = Some (wenv_key second)"
      "sp_saves moved = []" "\<not> sp_saving moved"
    by (simp_all add: moved_def sp_select_def load_segments_def)
  then have d: "sp_draft late = Some (segment_draft_from s referenced_by)" "sp_selected late = Some (wenv_key second)"
      "sp_saves late = []" "\<not> sp_saving late"
    by (simp_all add: late_def segment_opened_def)
  have "?step new listed" unfolding listed_def by (rule sps_environments) (simp add: new_def segments_page_new_def)
  then have r1: "?step\<^sup>*\<^sup>* new listed" by (rule r_into_rtranclp)
  have "?step listed shown"
    unfolding shown_def using l(1) assms(2) by (intro sps_segments) auto
  with r1 have r2: "?step\<^sup>*\<^sup>* new shown" by (rule rtranclp.rtrancl_into_rtrancl)
  have "?step shown asked" unfolding asked_def using s(1) by (rule sps_open) simp
  with r2 have r3: "?step\<^sup>*\<^sup>* new asked" by (rule rtranclp.rtrancl_into_rtrancl)
  have "?step asked moved" unfolding moved_def using a(2) by (rule sps_select) simp
  with r3 have r4: "?step\<^sup>*\<^sup>* new moved" by (rule rtranclp.rtrancl_into_rtrancl)
  have "?step moved late"
    unfolding late_def using m(1) assms(2) by (intro sps_opened) simp_all
  with r4 have r5: "?step\<^sup>*\<^sup>* new late" by (rule rtranclp.rtrancl_into_rtrancl)
  have "?step late (save_segment late)" using d(1) by (rule sps_save)
  with r5 have "?step\<^sup>*\<^sup>* new (save_segment late)" by (rule rtranclp.rtrancl_into_rtrancl)
  moreover have "sp_selected (save_segment late) = Some (wenv_key second)"
      "sp_saves (save_segment late) = [(wenv_key second, segment_draft_from s referenced_by)]"
    using d by (simp_all add: save_segment_def)
  ultimately show ?thesis unfolding new_def by blast
qed

section \<open>Demonstrations\<close>

definition demo_web_segment :: web_segment where
  "demo_web_segment = \<lparr>wsg_id = ''9'', wsg_key = ''beta'', wsg_name = ''Beta'', wsg_description = None, wsg_included = [''u1'', ''u2''],
     wsg_excluded = [], wsg_rules = [segment_rule_new 1 []], wsg_version = 3, wsg_updated_at = ''now''\<rparr>"

lemma demo_members: "plain_member ''u1''" "plain_member ''u2''" "''u1'' < ''u2''"
proof -
  have "str_trim ''u1'' = ''u1''" "str_trim ''u2'' = ''u2''" by (rule trim_alphanumeric; simp add: is_ascii_alphanumeric_def)+
  then show "plain_member ''u1''" "plain_member ''u2''" by (simp_all add: plain_member_def)
  show "''u1'' < ''u2''" by (simp add: less_char_def)
qed


theorem members_with_commas_are_split_witness:
  "sb_included (segment_save_body (segment_draft_from (demo_web_segment\<lparr>wsg_included := [''u1,u2'']\<rparr>) [])) = [''u1'', ''u2'']"
  using members_with_commas_are_split [of "''u1''" "''u2''" demo_web_segment "[]"] demo_members by simp

theorem blank_percentage_admits_everyone_witness:
  "segment_rule_matches demo_externals (sgd_rules (set_rollout 0 [] (segment_draft_from demo_web_segment [])) ! 0) ''beta'' (context_new ''u'') ''salt''"
proof -
  have "parse_f64 (str_trim []) = None" by code_simp
  then show ?thesis
    using blank_percentage_admits_everyone [of "[]" 0 "segment_draft_from demo_web_segment []" demo_externals "''beta''" "context_new ''u''" "''salt''"]
    by (simp add: segment_draft_from_def demo_web_segment_def segment_rule_new_def)
qed

theorem late_opening_saves_elsewhere_witness:
  "\<exists>p. (segments_page_step (\<lambda>_. {demo_web_segment}))\<^sup>*\<^sup>* (segments_page_new toaster_new) p \<and> sp_selected p = Some ''dev'' \<and>
     sp_saves p = [(''dev'', segment_draft_from demo_web_segment [])]"
  using late_opening_saves_elsewhere [of "demo_web_environment ''prod''" "demo_web_environment ''dev''" demo_web_segment
      "\<lambda>_. {demo_web_segment}" toaster_new "[]"]
  by (simp add: initial_environment_def demo_web_environment_def)

end
