(* ===== verification/Web_Audit.thy ===== *)
theory Web_Audit
  imports Web_Session Api_Projects
begin

text \<open>
  \<^verbatim>\<open>crates/web/src/pages/audit.rs\<close> and \<^verbatim>\<open>login.rs\<close>: the change history, which grows page by page, and the
  form that signs in. An entry of the history is any type: the page only lists them.
\<close>

section \<open>The change history\<close>

definition PAGE_SIZE :: u32 where
  "PAGE_SIZE = 40"

record 'e history =
  hi_entries :: "'e list load_state"
  hi_cursor :: "int option"
  hi_loading_more :: bool
  hi_expanded :: "int option"

definition history_new :: "'e history" where
  "history_new = \<lparr>hi_entries = Loading, hi_cursor = None, hi_loading_more = False, hi_expanded = None\<rparr>"

definition load_first :: "'e history \<Rightarrow> 'e history" where
  "load_first h = h\<lparr>hi_entries := Loading\<rparr>"

definition first_request :: "string \<Rightarrow> web_request" where
  "first_request token = web_audit token PAGE_SIZE None"

definition first_answered :: "web_error + 'e list \<times> int option \<Rightarrow> 'e history \<Rightarrow> 'e history" where
  "first_answered r h =
     (case r of
        Inr (entries, next) \<Rightarrow> h\<lparr>hi_cursor := next, hi_entries := Ready entries\<rparr>
      | Inl error \<Rightarrow> h\<lparr>hi_entries := Failed error\<rparr>)"

text \<open>The request for the next page, if it is sent.\<close>

definition load_more :: "string \<Rightarrow> 'e history \<Rightarrow> web_request option \<times> 'e history" where
  "load_more token h =
     (case hi_cursor h of
        None \<Rightarrow> (None, h)
      | Some before \<Rightarrow>
          if hi_loading_more h then (None, h)
          else (Some (web_audit token PAGE_SIZE (Some before)), h\<lparr>hi_loading_more := True\<rparr>))"

definition more_answered :: "web_error + 'e list \<times> int option \<Rightarrow> 'e history \<Rightarrow> 'e history" where
  "more_answered r h =
     (case r of
        Inr (entries, next) \<Rightarrow>
          h\<lparr>hi_cursor := next, hi_loading_more := False,
            hi_entries := (case hi_entries h of Ready list \<Rightarrow> Ready (list @ entries) | other \<Rightarrow> other)\<rparr>
      | Inl _ \<Rightarrow> h\<lparr>hi_loading_more := False\<rparr>)"

definition toggle_entry :: "int \<Rightarrow> 'e history \<Rightarrow> 'e history" where
  "toggle_entry i h = h\<lparr>hi_expanded := (if hi_expanded h = Some i then None else Some i)\<rparr>"

definition badge_for :: "string \<Rightarrow> string" where
  "badge_for action =
     (if ends_with action ''.deleted'' \<or> ends_with action ''.revoked'' then ''badge badge--danger''
      else if ends_with action ''.created'' then ''badge badge--on'' else ''badge badge--accent'')"

section \<open>Signing in\<close>

datatype login_mode = SignIn | SignUp

record login_form =
  lf_mode :: login_mode
  lf_organization :: string
  lf_email :: string
  lf_password :: string
  lf_error :: "string option"
  lf_busy :: bool

definition login_form_new :: login_form where
  "login_form_new = \<lparr>lf_mode = SignIn, lf_organization = [], lf_email = [], lf_password = [], lf_error = None, lf_busy = False\<rparr>"

definition login_submit :: "login_form \<Rightarrow> web_request option \<times> login_form" where
  "login_submit f =
     (if lf_busy f then (None, f)
      else (Some (case lf_mode f of
               SignIn \<Rightarrow> web_login \<lparr>lb_email = lf_email f, lb_password = lf_password f\<rparr>
             | SignUp \<Rightarrow> web_register \<lparr>rb_organization_name = lf_organization f, rb_email = lf_email f, rb_password = lf_password f\<rparr>),
            f\<lparr>lf_busy := True, lf_error := None\<rparr>))"

text \<open>The answer carries a token; the session signs in with it.\<close>

definition login_answered :: "web_error + string \<Rightarrow> login_form \<times> session \<Rightarrow> login_form \<times> session" where
  "login_answered r s =
     (let f = (fst s)\<lparr>lf_busy := False\<rparr>
      in case r of
           Inr token \<Rightarrow> (f, sign_in token (snd s))
         | Inl failure \<Rightarrow> (f\<lparr>lf_error := Some (we_title failure)\<rparr>, snd s))"

definition login_set_mode :: "login_mode \<Rightarrow> login_form \<Rightarrow> login_form" where
  "login_set_mode m f = f\<lparr>lf_mode := m, lf_error := None\<rparr>"

lemmas history_defs [model_defs] =
  PAGE_SIZE_def history_new_def load_first_def first_request_def first_answered_def load_more_def more_answered_def
  toggle_entry_def badge_for_def login_form_new_def login_submit_def login_answered_def login_set_mode_def

section \<open>The history against the server\<close>

text \<open>What the route answers to the page, from a database.\<close>

definition history_answer :: "auth_user \<Rightarrow> int option \<Rightarrow> db \<Rightarrow> web_error + audit_entry list \<times> int option" where
  "history_answer caller before d =
     (case fst (audit_routes_list caller
        \<lparr>aq_resource_type = None, aq_resource_id = None, aq_before_id = before, aq_limit = Some (uint PAGE_SIZE)\<rparr> (app_new d)) of
        Inr p \<Rightarrow> Inr (ap_entries p, ap_next_cursor p)
      | Inl e \<Rightarrow> Inl \<lparr>we_status = status e, we_kind = kind e, we_title = api_error_to_string e, we_issues = []\<rparr>)"

fun browse :: "auth_user \<Rightarrow> db list \<Rightarrow> audit_entry history \<Rightarrow> audit_entry history" where
  "browse caller [] h = h"
| "browse caller (d # ds) h =
     browse caller ds
       (case load_more [] h of
          (None, h') \<Rightarrow> h'
        | (Some _, h') \<Rightarrow> more_answered (history_answer caller (hi_cursor h) d) h')"

lemma history_answer_list:
  assumes "can_administer (caller_role caller)"
  shows "history_answer caller before d =
    (let entries = audit_list (caller_org caller) None None before 40 d
     in Inr (entries, if 40 \<le> length entries then Some (au_id (last entries)) else None))"
proof -
  have "clamp_limit 40 = 40" by (simp add: clamp_limit_def MAX_PAGE_SIZE_def)
  with assms show ?thesis
    by (auto simp: history_answer_def audit_routes_list_def handler_defs require_admin_def unwrap_or_def PAGE_SIZE_def app_new_def
        map_err_def Let_def)
qed

text \<open>The page after \<open>k\<close> entries of the log have been shown.\<close>

definition shown_upto :: "audit_entry list \<Rightarrow> nat \<Rightarrow> audit_entry history \<Rightarrow> bool" where
  "shown_upto v n h =
     (hi_entries h = Ready (take (n * 40) v) \<and> \<not> hi_loading_more h \<and>
      hi_cursor h = (if n * 40 \<le> length v then Some (au_id (v ! (n * 40 - Suc 0))) else None))"

lemma shown_first:
  assumes "can_administer (caller_role caller)"
  shows "shown_upto (audit_view (caller_org caller) None None d) 1 (first_answered (history_answer caller None d) (load_first history_new))"
proof -
  let ?v = "audit_view (caller_org caller) None None d"
  have "audit_list (caller_org caller) None None None 40 d = take 40 ?v"
    by (simp add: audit_list_view opt_filter_def clamp_limit_def MAX_PAGE_SIZE_def)
  moreover have "last (take 40 ?v) = ?v ! 39" if "40 \<le> length ?v"
    using that by (subst last_conv_nth) auto
  ultimately show ?thesis
    using assms by (auto simp: history_answer_list first_answered_def load_first_def history_new_def shown_upto_def Let_def)
qed

lemma audit_page_at:
  assumes "audit_wf d0" and "audit_grows d0 d" and "0 < k" and "k \<le> length (audit_view g rt ri d0)"
  shows "audit_list g rt ri (Some (au_id (audit_view g rt ri d0 ! (k - Suc 0)))) limit d =
    take (clamp_limit limit) (drop k (audit_view g rt ri d0))"
proof -
  let ?v = "audit_view g rt ri d0"
  have "?v ! (k - Suc 0) \<in> set ?v" using assms(3,4) by simp
  then have b: "au_id (?v ! (k - Suc 0)) \<le> db_next_audit_id d0"
    using assms(1) by (auto simp: audit_wf_def audit_view_def intro: less_imp_le)
  show ?thesis
    using audit_list_grows [OF assms(2) b] descending_cursor [OF audit_view_descending [OF assms(1)] assms(3,4)]
    by (simp add: audit_list_view opt_filter_def)
qed

lemma shown_next:
  assumes "audit_wf d0" and "audit_grows d0 d" and "can_administer (caller_role caller)"
    and "shown_upto (audit_view (caller_org caller) None None d0) n h" and "0 < n" and "load_more [] h = (Some rq, h')"
  shows "shown_upto (audit_view (caller_org caller) None None d0) (Suc n) (more_answered (history_answer caller (hi_cursor h) d) h')"
proof -
  let ?v = "audit_view (caller_org caller) None None d0"
  have cursor: "hi_cursor h = Some (au_id (?v ! (n * 40 - Suc 0)))" "n * 40 \<le> length ?v"
    using assms(4,6) by (auto simp: shown_upto_def load_more_def split: if_splits)
  have h': "h' = h\<lparr>hi_loading_more := True\<rparr>" "hi_entries h = Ready (take (n * 40) ?v)"
    using assms(4,6) by (auto simp: shown_upto_def load_more_def split: if_splits)
  have "audit_list (caller_org caller) None None (hi_cursor h) 40 d = take 40 (drop (n * 40) ?v)"
    using audit_page_at [OF assms(1,2), of "n * 40" "caller_org caller" None None 40] assms(5) cursor
    by (simp add: clamp_limit_def MAX_PAGE_SIZE_def)
  moreover have "take (n * 40) ?v @ take 40 (drop (n * 40) ?v) = take (Suc n * 40) ?v"
    using take_add [of "n * 40" 40 ?v] by (simp add: add.commute [of 40])
  moreover have "last (take 40 (drop (n * 40) ?v)) = ?v ! (Suc n * 40 - Suc 0)" if "Suc n * 40 \<le> length ?v"
    using last_page [of "n * 40" ?v 40] that by (simp add: min_def add.commute)
  ultimately show ?thesis
    using h' assms(3) by (auto simp: more_answered_def history_answer_list shown_upto_def Let_def)
qed

text \<open>
  C38. The history shows the log. An administrator who opens the page and then asks for more, while entries are
  recorded in between, sees the newest entries of the log as it was when the page was opened, each once
  and newest first, forty more with every page.
\<close>

theorem history_shows_the_log:
  assumes "audit_wf d" and "\<forall>d' \<in> set ds. audit_grows d d'" and "can_administer (caller_role caller)"
  shows "\<exists>h. browse caller ds (first_answered (history_answer caller None d) (load_first history_new)) = h \<and>
    hi_entries h = Ready (take (Suc (length ds) * 40) (audit_view (caller_org caller) None None d))"
proof -
  let ?v = "audit_view (caller_org caller) None None d"
  have "hi_entries (browse caller ds h) = Ready (take ((n + length ds) * 40) ?v)"
    if "shown_upto ?v n h" "0 < n" "\<forall>d' \<in> set ds. audit_grows d d'" for h n
    using that
  proof (induction ds arbitrary: h n)
    case Nil
    then show ?case by (simp add: shown_upto_def)
  next
    case (Cons d' ds)
    show ?case
    proof (cases "load_more [] h")
      case (Pair rq h')
      show ?thesis
      proof (cases rq)
        case None
        with Pair Cons.prems(1) have "h' = h" "length ?v < n * 40"
          by (auto simp: load_more_def shown_upto_def split: if_splits)
        moreover from this Cons.prems have "shown_upto ?v (Suc n) h" by (simp add: shown_upto_def)
        ultimately show ?thesis using Cons.IH [of "Suc n" h] Cons.prems Pair None by simp
      next
        case (Some r)
        with Pair shown_next [OF assms(1) _ assms(3) Cons.prems(1,2)] Cons.prems(3)
        have "shown_upto ?v (Suc n) (more_answered (history_answer caller (hi_cursor h) d') h')" by simp
        then show ?thesis using Cons.IH [of "Suc n"] Cons.prems Pair Some by simp
      qed
    qed
  qed
  from this [OF shown_first [OF assms(3)] _ assms(2)] show ?thesis by simp
qed

definition demo_admin :: auth_user where
  "demo_admin = \<lparr>caller_user_id = 5, caller_org = 1, caller_email = ''a@b.c'', caller_role = Owner\<rparr>"

theorem history_shows_the_log_witness:
  "hi_entries (browse demo_admin [demo_audit_db] (first_answered (history_answer demo_admin None demo_audit_db) (load_first history_new))) =
     Ready (audit_view 1 None None demo_audit_db)"
proof -
  have "audit_wf demo_audit_db" "\<forall>d' \<in> set [demo_audit_db]. audit_grows demo_audit_db d'"
    by (simp_all add: audit_wf_def audit_grows_def demo_audit_db_def)
  moreover have "length (audit_view 1 None None demo_audit_db) \<le> 80" by (simp add: audit_view_def demo_audit_db_def)
  ultimately show ?thesis
    using history_shows_the_log [of demo_audit_db "[demo_audit_db]" demo_admin] by (auto simp: demo_admin_def can_administer_def)
qed

end
