(* ===== verification/Web_Project.thy ===== *)
theory Web_Project
  imports Web_Flag_Page
begin

text \<open>
  \<^verbatim>\<open>crates/web/src/pages/projects.rs\<close> and \<^verbatim>\<open>project.rs\<close>: the list of projects, the page of a project with its
  environments and the switches of its flags, and the forms that create a project, an environment or a flag.
\<close>

section \<open>The forms\<close>

definition web_slugify :: "string \<Rightarrow> string" where
  "web_slugify name = trim_end_matches CHR ''-'' (slug_loop [] True name)"

text \<open>The three forms share their fields; \<open>cr_derived\<close> says that the key follows the name.\<close>

record create_form =
  cr_name :: string
  cr_key :: string
  cr_derived :: bool
  cr_busy :: bool

record environment_form = create_form +
  cr_production :: bool

definition create_form_new :: create_form where
  "create_form_new = \<lparr>cr_name = [], cr_key = [], cr_derived = True, cr_busy = False\<rparr>"

definition environment_form_new :: environment_form where
  "environment_form_new = \<lparr>cr_name = [], cr_key = [], cr_derived = True, cr_busy = False, cr_production = False\<rparr>"

definition type_name :: "string \<Rightarrow> 'a create_form_scheme \<Rightarrow> 'a create_form_scheme" where
  "type_name text f = f\<lparr>cr_key := (if cr_derived f then web_slugify text else cr_key f), cr_name := text\<rparr>"

definition type_key :: "string \<Rightarrow> 'a create_form_scheme \<Rightarrow> 'a create_form_scheme" where
  "type_key text f = f\<lparr>cr_derived := False, cr_key := text\<rparr>"

text \<open>A submission sends its request and makes the form busy, unless it is busy already.\<close>

definition submit_form :: "('a create_form_scheme \<Rightarrow> web_request) \<Rightarrow> 'a create_form_scheme \<Rightarrow> web_request option \<times> 'a create_form_scheme" where
  "submit_form request f = (if cr_busy f then (None, f) else (Some (request f), f\<lparr>cr_busy := True\<rparr>))"

definition project_request :: "string \<Rightarrow> create_form \<Rightarrow> web_request" where
  "project_request token f = web_create_project token \<lparr>np_key = cr_key f, np_name = cr_name f, np_description = None\<rparr>"

definition flag_request :: "string \<Rightarrow> string \<Rightarrow> create_form \<Rightarrow> web_request" where
  "flag_request token project f = web_create_flag token project
     \<lparr>nf_key = cr_key f, nf_name = cr_name f, nf_description = None, nf_variants = None, nf_off_variant = None, nf_fallthrough = None\<rparr>"

definition environment_request :: "string \<Rightarrow> string \<Rightarrow> environment_form \<Rightarrow> web_request" where
  "environment_request token project f = web_create_environment token project
     \<lparr>ne_key = cr_key f, ne_name = cr_name f, ne_is_production = cr_production f\<rparr>"

text \<open>A failure is notified and the form is there for another attempt.\<close>

definition form_failed :: "string \<Rightarrow> web_error \<Rightarrow> 'a create_form_scheme \<times> toaster \<Rightarrow> 'a create_form_scheme \<times> toaster" where
  "form_failed title error s = ((fst s)\<lparr>cr_busy := False\<rparr>, toast_error title error (snd s))"

lemmas create_form_defs [model_defs] =
  web_slugify_def create_form_new_def environment_form_new_def type_name_def type_key_def submit_form_def
  project_request_def flag_request_def environment_request_def form_failed_def

section \<open>The list of projects\<close>

record web_project =
  wpr_id :: string
  wpr_key :: string
  wpr_name :: string
  wpr_description :: "string option"
  wpr_created_at :: string

record projects_page =
  pj_projects :: "web_project list load_state"
  pj_creating :: bool
  pj_toasts :: toaster

definition projects_page_new :: "toaster \<Rightarrow> projects_page" where
  "projects_page_new t = \<lparr>pj_projects = Loading, pj_creating = False, pj_toasts = t\<rparr>"

definition reload_projects :: "projects_page \<Rightarrow> projects_page" where
  "reload_projects p = p\<lparr>pj_projects := Loading\<rparr>"

definition projects_answered :: "web_error + web_project list \<Rightarrow> projects_page \<Rightarrow> projects_page" where
  "projects_answered r p = p\<lparr>pj_projects := load_from r\<rparr>"

text \<open>The quotation marks of the notifications are encoded in UTF-8.\<close>

definition in_quotes :: "string \<Rightarrow> string" where
  "in_quotes s = map char_of [226, 128, 156 :: nat] @ s @ map char_of [226, 128, 157 :: nat]"

definition project_created :: "web_project \<Rightarrow> projects_page \<Rightarrow> projects_page" where
  "project_created created p =
     reload_projects (p\<lparr>pj_creating := False,
       pj_toasts := toast_success (''Project '' @ in_quotes (wpr_name created) @ '' created'') (pj_toasts p)\<rparr>)"

lemmas projects_page_defs [model_defs] =
  projects_page_new_def reload_projects_def projects_answered_def in_quotes_def project_created_def

section \<open>The row of a flag\<close>

record configured_flag =
  cfl_flag :: web_flag
  cfl_config :: web_flag_config

abbreviation row_key :: "configured_flag \<Rightarrow> string" where
  "row_key row \<equiv> wfl_key (cfl_flag row)"

text \<open>The last of the heaviest.\<close>

fun max_by_weight :: "weighted_variant list \<Rightarrow> weighted_variant option" where
  "max_by_weight [] = None"
| "max_by_weight (w # ws) =
     (case max_by_weight ws of None \<Rightarrow> Some w | Some m \<Rightarrow> Some (if wv_weight w \<le> wv_weight m then m else w))"

text \<open>\<^verbatim>\<open>{:.4}\<close> of a non-negative double: four decimals of its exact value, ties to even.\<close>

definition show_four_decimals :: "rat \<Rightarrow> string" where
  "show_four_decimals x =
     (let n = nat (round_half_even (10000 * x)); fraction = show_nat (n mod 10000)
      in show_nat (n div 10000) @ ''.'' @ replicate (4 - length fraction) CHR ''0'' @ fraction)"

definition trim_zeros :: "rat \<Rightarrow> string" where
  "trim_zeros percent = trim_end_matches CHR ''.'' (trim_end_matches CHR ''0'' (show_four_decimals percent))"

definition headline :: "string \<Rightarrow> weighted_variant list \<Rightarrow> weighted_variant option" where
  "headline off_variant ws =
     (case max_by_weight (filter (\<lambda>w. wv_variant w \<noteq> off_variant) ws) of Some w \<Rightarrow> Some w | None \<Rightarrow> max_by_weight ws)"

definition describe_targeting :: "nat \<Rightarrow> distribution \<Rightarrow> string \<Rightarrow> bool \<Rightarrow> string" where
  "describe_targeting rules fallthrough off_variant enabled =
     (if \<not> enabled then em_dash
      else let base = (case fallthrough of
                 Fixed v \<Rightarrow> if rules = 0 then ''everyone gets '' @ v else v
               | Rollout ws b \<Rightarrow>
                   (case headline off_variant ws of
                      Some w \<Rightarrow>
                        (case f64_times (f64_div_by (Finite (of_nat (unat (wv_weight w)))) (of_nat (unat TOTAL_WEIGHT))) 100 of
                           Finite percent \<Rightarrow> trim_zeros percent @ ''% '' @ wv_variant w
                         | _ \<Rightarrow> [])
                    | None \<Rightarrow> ''rollout''))
           in if rules = 0 then base
              else if rules = 1 then ''1 rule, then '' @ base
              else show_nat rules @ '' rules, then '' @ base)"

text \<open>The rows a filter leaves; \<open>lower\<close> is the conversion of Unicode text to lower case.\<close>

definition visible_rows :: "(string \<Rightarrow> string) \<Rightarrow> string \<Rightarrow> configured_flag list \<Rightarrow> configured_flag list" where
  "visible_rows lower text rows =
     (let needle = lower text
      in filter (\<lambda>row. needle = [] \<or> str_contains (lower (row_key row)) needle \<or>
           str_contains (lower (wfl_name (cfl_flag row))) needle) rows)"

lemmas row_defs [model_defs] =
  show_four_decimals_def trim_zeros_def headline_def describe_targeting_def visible_rows_def

section \<open>The page of a project\<close>

text \<open>In flight: lists of the environments, lists of flags with their environments, switched rows with
  their environments, and deletions of the project.\<close>

record project_page =
  pp_environments :: "web_environment list load_state"
  pp_selected :: "string option"
  pp_flags :: "configured_flag list load_state"
  pp_creating_flag :: bool
  pp_creating_env :: bool
  pp_filter :: string
  pp_toasts :: toaster
  pp_listings :: nat
  pp_loads :: "string list"
  pp_toggles :: "(string \<times> configured_flag) list"
  pp_deletes :: nat

definition project_page_new :: "toaster \<Rightarrow> project_page" where
  "project_page_new t =
     \<lparr>pp_environments = Loading, pp_selected = None, pp_flags = Loading, pp_creating_flag = False,
      pp_creating_env = False, pp_filter = [], pp_toasts = t, pp_listings = 0, pp_loads = [], pp_toggles = [], pp_deletes = 0\<rparr>"

definition list_project_environments :: "project_page \<Rightarrow> project_page" where
  "list_project_environments p = p\<lparr>pp_environments := Loading, pp_listings := pp_listings p + 1\<rparr>"

definition load_flags :: "project_page \<Rightarrow> project_page" where
  "load_flags p =
     (case pp_selected p of
        None \<Rightarrow> p\<lparr>pp_flags := Ready []\<rparr>
      | Some environment \<Rightarrow> p\<lparr>pp_flags := Loading, pp_loads := pp_loads p @ [environment]\<rparr>)"

definition pp_select :: "string option \<Rightarrow> project_page \<Rightarrow> project_page" where
  "pp_select key p = load_flags (p\<lparr>pp_selected := key\<rparr>)"

definition pp_environments_answered :: "web_error + web_environment list \<Rightarrow> project_page \<Rightarrow> project_page" where
  "pp_environments_answered r p =
     (case r of
        Inr es \<Rightarrow> (pp_select (initial_environment es) p)\<lparr>pp_environments := load_from r, pp_listings := pp_listings p - 1\<rparr>
      | Inl _ \<Rightarrow> p\<lparr>pp_environments := load_from r, pp_listings := pp_listings p - 1\<rparr>)"

definition flags_answered :: "web_error + configured_flag list \<Rightarrow> project_page \<Rightarrow> project_page" where
  "flags_answered r p = p\<lparr>pp_flags := load_from r\<rparr>"

text \<open>The first row of a flag is changed, if the rows are there.\<close>

fun update_first :: "('a \<Rightarrow> bool) \<Rightarrow> ('a \<Rightarrow> 'a) \<Rightarrow> 'a list \<Rightarrow> 'a list" where
  "update_first found f [] = []"
| "update_first found f (x # xs) = (if found x then f x # xs else x # update_first found f xs)"

definition edit_row :: "string \<Rightarrow> (web_flag_config \<Rightarrow> web_flag_config) \<Rightarrow> project_page \<Rightarrow> project_page" where
  "edit_row key f p =
     (case pp_flags p of
        Ready rows \<Rightarrow> p\<lparr>pp_flags := Ready (update_first (\<lambda>row. row_key row = key) (\<lambda>row. row\<lparr>cfl_config := f (cfl_config row)\<rparr>) rows)\<rparr>
      | _ \<Rightarrow> p)"

text \<open>The switch moves at once; what is sent is the configuration of the row as it was.\<close>

definition toggle_row :: "configured_flag \<Rightarrow> project_page \<Rightarrow> project_page" where
  "toggle_row entry p =
     (case pp_selected p of
        None \<Rightarrow> p
      | Some environment \<Rightarrow>
          edit_row (row_key entry) (\<lambda>c. c\<lparr>wfc_enabled := \<not> wfc_enabled (cfl_config entry)\<rparr>)
            (p\<lparr>pp_toggles := pp_toggles p @ [(environment, entry)]\<rparr>))"

definition toggle_body :: "configured_flag \<Rightarrow> config_body" where
  "toggle_body entry =
     \<lparr>cb_enabled = \<not> wfc_enabled (cfl_config entry), cb_off_variant = wfc_off_variant (cfl_config entry),
      cb_fallthrough = wfc_fallthrough (cfl_config entry), cb_rules = wfc_rules (cfl_config entry),
      cb_expected_version = wfc_version (cfl_config entry)\<rparr>"

definition toggle_request :: "string \<Rightarrow> string \<Rightarrow> string \<times> configured_flag \<Rightarrow> web_request" where
  "toggle_request token project t = web_put_config token project (fst t) (row_key (snd t)) (toggle_body (snd t))"

definition toggle_answered :: "string \<times> configured_flag \<Rightarrow> web_error + web_flag_config \<Rightarrow> project_page \<Rightarrow> project_page" where
  "toggle_answered t r p =
     (case r of
        Inr config \<Rightarrow>
          (let p' = edit_row (row_key (snd t)) (\<lambda>_. config) p
           in p'\<lparr>pp_toasts := toast_success (row_key (snd t) @ '' is now '' @
                (if wfc_enabled (cfl_config (snd t)) then ''off'' else ''on'') @ '' in '' @ fst t) (pp_toasts p')\<rparr>)
      | Inl error \<Rightarrow>
          (let p' = load_flags p
           in if is_conflict error then p'\<lparr>pp_toasts := toast_message ErrorLevel ''Someone else changed this flag''
                (''Reloaded the latest configuration '' @ em_dash @ '' try again.'') (pp_toasts p')\<rparr>
              else p'\<lparr>pp_toasts := toast_error ''Could not change the flag'' error (pp_toasts p')\<rparr>))"

definition flag_created :: "web_flag \<Rightarrow> project_page \<Rightarrow> project_page" where
  "flag_created created p =
     load_flags (p\<lparr>pp_creating_flag := False,
       pp_toasts := toast_success (''Flag '' @ in_quotes (wfl_key created) @ '' created, off everywhere'') (pp_toasts p)\<rparr>)"

definition environment_created :: "web_environment \<Rightarrow> project_page \<Rightarrow> project_page" where
  "environment_created created p =
     list_project_environments (p\<lparr>pp_creating_env := False,
       pp_toasts := toast_success (''Environment '' @ in_quotes (wenv_key created) @ '' created'') (pp_toasts p)\<rparr>)"

definition delete_project_clicked :: "project_page \<Rightarrow> project_page" where
  "delete_project_clicked p = p\<lparr>pp_deletes := pp_deletes p + 1\<rparr>"

definition project_deleted :: "string \<Rightarrow> web_error + unit \<Rightarrow> project_page \<Rightarrow> project_page" where
  "project_deleted key r p =
     (case r of
        Inr _ \<Rightarrow> p\<lparr>pp_deletes := pp_deletes p - 1,
          pp_toasts := toast_success (''Project '' @ in_quotes key @ '' deleted'') (pp_toasts p)\<rparr>
      | Inl error \<Rightarrow> p\<lparr>pp_deletes := pp_deletes p - 1,
          pp_toasts := toast_error ''Could not delete the project'' error (pp_toasts p)\<rparr>)"

definition project_page_start :: "toaster \<Rightarrow> project_page" where
  "project_page_start t = load_flags (list_project_environments (project_page_new t))"

lemmas project_page_defs [model_defs] =
  project_page_new_def list_project_environments_def load_flags_def pp_select_def pp_environments_answered_def
  flags_answered_def edit_row_def toggle_row_def toggle_body_def toggle_request_def toggle_answered_def flag_created_def
  environment_created_def delete_project_clicked_def project_deleted_def project_page_start_def

section \<open>What can happen\<close>

definition idle :: "project_page \<Rightarrow> bool" where
  "idle p = (pp_listings p = 0 \<and> pp_loads p = [] \<and> pp_toggles p = [])"

text \<open>
  \<open>stored environment key\<close> are the configurations the server may give for a flag over time. With \<open>calm\<close>
  the user waits for the answers before the next action.
\<close>

inductive project_page_step ::
  "string \<Rightarrow> (string \<Rightarrow> string \<Rightarrow> web_flag_config set) \<Rightarrow> bool \<Rightarrow> project_page \<Rightarrow> project_page \<Rightarrow> bool"
  for project :: string and stored :: "string \<Rightarrow> string \<Rightarrow> web_flag_config set" and calm :: bool where
  pps_environments: "0 < pp_listings p \<Longrightarrow> project_page_step project stored calm p (pp_environments_answered r p)"
| pps_select:
    "pp_environments p = Ready es \<Longrightarrow> e \<in> set es \<Longrightarrow> (calm \<Longrightarrow> idle p) \<Longrightarrow>
     project_page_step project stored calm p (pp_select (Some (wenv_key e)) p)"
| pps_retry:
    "pp_flags p = Failed error \<Longrightarrow> (calm \<Longrightarrow> idle p) \<Longrightarrow> project_page_step project stored calm p (load_flags p)"
| pps_flags:
    "i < length (pp_loads p) \<Longrightarrow>
     (\<And>rows row. r = Inr rows \<Longrightarrow> row \<in> set rows \<Longrightarrow> cfl_config row \<in> stored (pp_loads p ! i) (row_key row)) \<Longrightarrow>
     project_page_step project stored calm p (flags_answered r (p\<lparr>pp_loads := remove_at i (pp_loads p)\<rparr>))"
| pps_toggle:
    "pp_flags p = Ready rows \<Longrightarrow> row \<in> set rows \<Longrightarrow> (calm \<Longrightarrow> idle p) \<Longrightarrow>
     project_page_step project stored calm p (toggle_row row p)"
| pps_toggled:
    "i < length (pp_toggles p) \<Longrightarrow>
     (\<And>c. r = Inr c \<Longrightarrow> c \<in> stored (fst (pp_toggles p ! i)) (row_key (snd (pp_toggles p ! i)))) \<Longrightarrow>
     project_page_step project stored calm p
       (toggle_answered (pp_toggles p ! i) r (p\<lparr>pp_toggles := remove_at i (pp_toggles p)\<rparr>))"
| pps_filter: "project_page_step project stored calm p (p\<lparr>pp_filter := text\<rparr>)"
| pps_dialogs: "project_page_step project stored calm p (p\<lparr>pp_creating_flag := b, pp_creating_env := c\<rparr>)"
| pps_flag_created:
    "pp_creating_flag p \<Longrightarrow> (calm \<Longrightarrow> idle p) \<Longrightarrow> project_page_step project stored calm p (flag_created f p)"
| pps_environment_created:
    "pp_creating_env p \<Longrightarrow> (calm \<Longrightarrow> idle p) \<Longrightarrow> project_page_step project stored calm p (environment_created e p)"
| pps_delete: "project_page_step project stored calm p (delete_project_clicked p)"
| pps_deleted: "0 < pp_deletes p \<Longrightarrow> project_page_step project stored calm p (project_deleted project r p)"

inductive_cases project_page_stepE: "project_page_step project stored calm p p'"

section \<open>Lemmas\<close>

lemma slug_loop_chars:
  "(\<exists>x \<in> set (slug_loop s d cs). slug_char x) \<longleftrightarrow> (\<exists>x \<in> set s. slug_char x) \<or> (\<exists>c \<in> set cs. is_ascii_alphanumeric c)"
proof (induction s d cs rule: slug_loop.induct)
  case (2 s d ch cs)
  have "\<not> slug_char CHR ''-''" by code_simp
  then show ?case using 2 lowercase_slug_char [of ch] by auto
qed simp

lemma web_slugify_wf: "slug_wf (web_slugify name)"
proof -
  have "slug_wf (slug_loop [] True name)" by (rule slug_loop_wf) (simp_all add: slug_wf_def)
  then show ?thesis unfolding web_slugify_def using trim_end_matches_parts slug_wf_prefix by metis
qed

lemma web_slugify_empty: "web_slugify name = [] \<longleftrightarrow> (\<forall>c \<in> set name. \<not> is_ascii_alphanumeric c)"
proof -
  obtain n where n: "slug_loop [] True name = web_slugify name @ replicate n CHR ''-''"
    using trim_end_matches_parts [of "slug_loop [] True name" "CHR ''-''"] unfolding web_slugify_def by blast
  have "\<not> slug_char CHR ''-''" by code_simp
  then have "(\<exists>x \<in> set (web_slugify name). slug_char x) \<longleftrightarrow> (\<exists>c \<in> set name. is_ascii_alphanumeric c)"
    using slug_loop_chars [of "[]" True name] unfolding n by auto
  moreover have "web_slugify name \<noteq> [] \<Longrightarrow> \<exists>x \<in> set (web_slugify name). slug_char x"
    using web_slugify_wf [of name] by (auto simp: slug_wf_def intro: hd_in_set)
  ultimately show ?thesis by (cases "web_slugify name = []") auto
qed

lemma slug_char_alphanumeric: "slug_char c \<Longrightarrow> is_ascii_alphanumeric c"
  by (auto simp: slug_char_def is_ascii_alphanumeric_def Let_def less_eq_char_def)

lemma set_update_first:
  "(\<And>x. x \<in> set xs \<Longrightarrow> Q x) \<Longrightarrow> (\<And>x. x \<in> set xs \<Longrightarrow> found x \<Longrightarrow> Q (f x)) \<Longrightarrow> y \<in> set (update_first found f xs) \<Longrightarrow> Q y"
  by (induction xs) (auto split: if_splits)

lemma update_first_twice:
  "(\<And>x. found (f x) = found x) \<Longrightarrow> (\<And>x. g (f x) = g x) \<Longrightarrow>
     update_first found g (update_first found f xs) = update_first found g xs"
  by (induction xs) auto

text \<open>With a calm user at most one call is in flight, and what it concerns is the selected environment.\<close>

definition rows_stored :: "(string \<Rightarrow> string \<Rightarrow> web_flag_config set) \<Rightarrow> string \<Rightarrow> configured_flag list \<Rightarrow> bool" where
  "rows_stored stored e rows = (\<forall>row \<in> set rows. cfl_config row \<in> stored e (row_key row))"

definition calm_project :: "(string \<Rightarrow> string \<Rightarrow> web_flag_config set) \<Rightarrow> project_page \<Rightarrow> bool" where
  "calm_project stored p =
     (pp_listings p \<le> 1 \<and>
      (pp_listings p = 0 \<or> pp_loads p = [] \<and> pp_toggles p = []) \<and>
      (pp_loads p = [] \<or> pp_toggles p = [] \<and> pp_flags p = Loading \<and> (\<exists>e. pp_selected p = Some e \<and> pp_loads p = [e])) \<and>
      (pp_toggles p = [] \<longrightarrow> (\<forall>rows. pp_flags p = Ready rows \<longrightarrow>
         rows = [] \<or> (\<exists>e. pp_selected p = Some e \<and> rows_stored stored e rows))) \<and>
      (pp_toggles p = [] \<or> (\<exists>e entry rows. pp_toggles p = [(e, entry)] \<and> pp_selected p = Some e \<and>
         cfl_config entry \<in> stored e (row_key entry) \<and> rows_stored stored e rows \<and>
         pp_flags p = Ready (update_first (\<lambda>row. row_key row = row_key entry)
           (\<lambda>row. row\<lparr>cfl_config := (cfl_config row)\<lparr>wfc_enabled := \<not> wfc_enabled (cfl_config entry)\<rparr>\<rparr>) rows))))"

lemma load_flags_calm:
  assumes "calm_project stored p" and "pp_listings p = 0" and "pp_loads p = []" and "pp_toggles p = []"
  shows "calm_project stored (load_flags p)" and "calm_project stored (pp_select k p)"
  using assms by (auto simp: calm_project_def load_flags_def pp_select_def split: option.splits)

lemma environments_answered_calm:
  assumes "calm_project stored p" and "0 < pp_listings p"
  shows "calm_project stored (pp_environments_answered r p)"
proof -
  have "pp_listings p = 1" "pp_loads p = []" "pp_toggles p = []" using assms by (auto simp: calm_project_def)
  with assms(1) show ?thesis
    by (cases r; cases "initial_environment (projr r)")
       (auto simp: calm_project_def pp_environments_answered_def pp_select_def load_flags_def)
qed

lemma flags_answered_calm:
  assumes "calm_project stored p" and "pp_loads p = [e]"
    and "\<And>rows row. r = Inr rows \<Longrightarrow> row \<in> set rows \<Longrightarrow> cfl_config row \<in> stored e (row_key row)"
  shows "calm_project stored (flags_answered r (p\<lparr>pp_loads := []\<rparr>))"
  using assms by (cases r) (auto simp: calm_project_def flags_answered_def rows_stored_def)

lemma toggle_calm:
  assumes "calm_project stored p" and "idle p" and "pp_flags p = Ready rows" and "row \<in> set rows"
  shows "calm_project stored (toggle_row row p)"
proof -
  obtain e where e: "pp_selected p = Some e" "rows_stored stored e rows"
    using assms by (auto simp: calm_project_def idle_def)
  then have "cfl_config row \<in> stored e (row_key row)" using assms(4) by (simp add: rows_stored_def)
  with e assms show ?thesis by (auto simp: calm_project_def toggle_row_def edit_row_def idle_def)
qed

lemma toggled_calm:
  assumes "calm_project stored p" and "pp_toggles p = [(e, entry)]" and "\<And>c. r = Inr c \<Longrightarrow> c \<in> stored e (row_key entry)"
  shows "calm_project stored (toggle_answered (e, entry) r (p\<lparr>pp_toggles := []\<rparr>))"
proof -
  let ?found = "\<lambda>row. row_key row = row_key entry"
  obtain rows where p: "pp_selected p = Some e" "rows_stored stored e rows" "pp_listings p = 0" "pp_loads p = []"
    "pp_flags p = Ready (update_first ?found
       (\<lambda>row. row\<lparr>cfl_config := (cfl_config row)\<lparr>wfc_enabled := \<not> wfc_enabled (cfl_config entry)\<rparr>\<rparr>) rows)"
    using assms(1,2) by (auto simp: calm_project_def)
  show ?thesis
  proof (cases r)
    case (Inl error)
    with p show ?thesis by (auto simp: calm_project_def toggle_answered_def load_flags_def Let_def)
  next
    case (Inr c)
    have "rows_stored stored e (update_first ?found (\<lambda>row. row\<lparr>cfl_config := c\<rparr>) rows)"
      using p(2) assms(3) [OF Inr] unfolding rows_stored_def
      by (intro ballI, elim set_update_first [rotated 2]) auto
    with p Inr show ?thesis
      by (simp add: calm_project_def toggle_answered_def edit_row_def Let_def update_first_twice)
  qed
qed

lemma single_remove_at: "length xs = 1 \<Longrightarrow> i < length xs \<Longrightarrow> i = 0 \<and> remove_at i xs = []"
  by (auto simp: remove_at_def)

lemma calm_project_step:
  assumes "project_page_step project stored True p p'" and "calm_project stored p"
  shows "calm_project stored p'"
  using assms(1)
proof (cases rule: project_page_step.cases)
  case (pps_flags i r)
  then obtain e where e: "pp_loads p = [e]" using assms(2) by (auto simp: calm_project_def)
  with pps_flags show ?thesis using flags_answered_calm [OF assms(2) e, of r] by (simp add: remove_at_def)
next
  case (pps_toggled i r)
  then obtain e entry where t: "pp_toggles p = [(e, entry)]" using assms(2) by (auto simp: calm_project_def)
  with pps_toggled show ?thesis using toggled_calm [OF assms(2) t, of r] by (simp add: remove_at_def)
next
  case (pps_toggle rows row)
  then show ?thesis using toggle_calm [OF assms(2)] by simp
next
  case (pps_flag_created f)
  then show ?thesis using assms(2)
    by (auto simp: flag_created_def idle_def intro!: load_flags_calm) (simp_all add: calm_project_def)
next
  case (pps_deleted r)
  then show ?thesis using assms(2) by (cases r) (auto simp: calm_project_def project_deleted_def)
qed (use assms(2) in \<open>auto simp: idle_def intro: load_flags_calm environments_answered_calm\<close>,
     (auto simp: calm_project_def idle_def environment_created_def list_project_environments_def delete_project_clicked_def)?)

lemma calm_project_kept:
  "(project_page_step project stored True)\<^sup>*\<^sup>* (project_page_start t) p \<Longrightarrow> calm_project stored p"
proof (induction rule: rtranclp_induct)
  case base
  show ?case by (simp add: calm_project_def project_page_start_def load_flags_def list_project_environments_def project_page_new_def)
next
  case (step p p')
  then show ?case using calm_project_step by blast
qed

section \<open>Properties\<close>

text \<open>
  When a suggested key is valid. The key suggested for a name is one that the interface accepts exactly
  if the name has a letter or a digit and the suggestion is at most 128 characters long.
\<close>

theorem suggested_key_is_valid:
  "is_valid_key (web_slugify name) \<longleftrightarrow>
     (\<exists>c \<in> set name. is_ascii_alphanumeric c) \<and> length (web_slugify name) \<le> MAX_KEY_LEN"
  using web_slugify_empty [of name] web_slugify_wf [of name] slug_char_alphanumeric
  by (auto simp: is_valid_key_def slug_wf_def list_all_iff)

text \<open>
  C39. A switch flips only itself. If the user waits for the answers before the next action, then the request
  of a switch goes to the environment that is selected, and it is a configuration the server gave for that flag in
  that environment, at its version, with nothing but the switch changed.
\<close>

theorem calm_switch_flips_only_itself:
  assumes "(project_page_step project stored True)\<^sup>*\<^sup>* (project_page_start t) p" and "(environment, entry) \<in> set (pp_toggles p)"
  shows "pp_selected p = Some environment \<and>
    (\<exists>c \<in> stored environment (row_key entry). toggle_body entry =
       \<lparr>cb_enabled = \<not> wfc_enabled c, cb_off_variant = wfc_off_variant c, cb_fallthrough = wfc_fallthrough c,
        cb_rules = wfc_rules c, cb_expected_version = wfc_version c\<rparr>)"
  using calm_project_kept [OF assms(1)] assms(2) by (auto simp: calm_project_def toggle_body_def)

text \<open>The row after its switch has moved, and what the server does with the request of a switch.\<close>

definition flipped :: "configured_flag \<Rightarrow> configured_flag" where
  "flipped row = row\<lparr>cfl_config := (cfl_config row)\<lparr>wfc_enabled := \<not> wfc_enabled (cfl_config row)\<rparr>\<rparr>"

definition put_switch ::
  "('re, 'ver) externals \<Rightarrow> int \<Rightarrow> uuid \<Rightarrow> uuid \<Rightarrow> configured_flag \<Rightarrow> db \<Rightarrow> storage_error + flag_config \<times> db" where
  "put_switch X now fid eid row d =
     (let b = toggle_body row
      in upsert_config X now fid eid (cb_enabled b) (cb_off_variant b) (cb_fallthrough b) (cb_rules b)
           (Some (cb_expected_version b)) d)"

lemma update_first_at: "\<forall>x \<in> set xs. \<not> found x \<Longrightarrow> found y \<Longrightarrow> update_first found f (xs @ y # ys) = xs @ f y # ys"
  by (induction xs) auto

lemma put_switch_twice:
  assumes "find_config fid eid d = Inr old" and "wfc_version (cfl_config row) = fc_version old"
  shows "\<exists>c d'. put_switch X now fid eid row d = Inr (c, d') \<and>
    put_switch X now fid eid (flipped row) d' = Inl (VersionConflict ''flag configuration'' (fc_version old))"
proof -
  have here: "find (\<lambda>c. fc_flag_id c = fid \<and> fc_environment_id c = eid) (db_configs d) = Some old"
    using assms(1) by (simp add: find_config_def)
  let ?P = "\<lambda>c. fc_flag_id c = fid \<and> fc_environment_id c = eid"
  define row' where "row' = old\<lparr>fc_enabled := \<not> wfc_enabled (cfl_config row), fc_off_variant := wfc_off_variant (cfl_config row),
    fc_fallthrough := wfc_fallthrough (cfl_config row), fc_rules := wfc_rules (cfl_config row),
    fc_version := fc_version old + 1, fc_updated_at := now\<rparr>"
  define d' where "d' = notify [eid] (d\<lparr>db_configs := map (\<lambda>b. if ?P b then row' else b) (db_configs d)\<rparr>)"
  have first: "put_switch X now fid eid row d = Inr (row', d')"
    using assms(2) unfolding d'_def row'_def by (simp add: put_switch_def toggle_body_def upsert_existing [OF assms(1)] Let_def)
  have "?P old" using here by (auto simp: find_Some_iff)
  then have "?P row'" by (simp add: row'_def)
  then have "find_config fid eid d' = Inr row'"
    using here by (simp add: d'_def find_config_def notify_def find_map_replace)
  then show ?thesis
    using first assms(2) by (simp add: put_switch_def toggle_body_def flipped_def upsert_existing Let_def row'_def unwrap_or_def)
qed


text \<open>
  A late list is switched elsewhere. If the flags of a first environment arrive after a second one has been
  selected and its own have been shown, the page shows the rows of the first under the second; a switch then sends
  the configuration of the first environment to the second.
\<close>

theorem late_list_is_switched_elsewhere:
  assumes "initial_environment [first, second] = Some (wenv_key first)"
    and "cfl_config row1 \<in> stored (wenv_key first) (row_key row1)"
    and "cfl_config row2 \<in> stored (wenv_key second) (row_key row2)"
  shows "\<exists>p. (project_page_step project stored False)\<^sup>*\<^sup>* (project_page_start t) p \<and>
    pp_selected p = Some (wenv_key second) \<and> pp_toggles p = [(wenv_key second, row1)]"
proof -
  let ?step = "project_page_step project stored False"
  define start where "start = project_page_start t"
  define listed where "listed = pp_environments_answered (Inr [first, second]) start"
  define moved where "moved = pp_select (Some (wenv_key second)) listed"
  define shown where "shown = flags_answered (Inr [row2]) (moved\<lparr>pp_loads := remove_at 1 (pp_loads moved)\<rparr>)"
  define late where "late = flags_answered (Inr [row1]) (shown\<lparr>pp_loads := remove_at 0 (pp_loads shown)\<rparr>)"
  have start: "pp_listings start = 1" "pp_loads start = []" "pp_toggles start = []"
    by (simp_all add: start_def project_page_start_def list_project_environments_def load_flags_def project_page_new_def)
  have listed: "pp_environments listed = Ready [first, second]" "pp_loads listed = [wenv_key first]" "pp_toggles listed = []"
    using start assms(1) by (simp_all add: listed_def pp_environments_answered_def pp_select_def load_flags_def)
  have moved: "pp_loads moved = [wenv_key first, wenv_key second]" "pp_selected moved = Some (wenv_key second)" "pp_toggles moved = []"
    using listed by (simp_all add: moved_def pp_select_def load_flags_def)
  have shown: "pp_loads shown = [wenv_key first]" "pp_selected shown = Some (wenv_key second)" "pp_toggles shown = []"
    using moved by (simp_all add: shown_def flags_answered_def remove_at_def)
  have late: "pp_flags late = Ready [row1]" "pp_selected late = Some (wenv_key second)" "pp_toggles late = []"
    using shown by (simp_all add: late_def flags_answered_def)
  have "?step start listed" unfolding listed_def by (rule pps_environments) (simp add: start)
  moreover have "?step listed moved" unfolding moved_def by (rule pps_select [OF listed(1)]) simp_all
  moreover have "?step moved shown"
    unfolding shown_def by (rule pps_flags) (use moved(1) assms(3) in auto)
  moreover have "?step shown late"
    unfolding late_def by (rule pps_flags) (use shown(1) assms(2) in auto)
  moreover have "?step late (toggle_row row1 late)" by (rule pps_toggle [OF late(1)]) simp_all
  ultimately have "?step\<^sup>*\<^sup>* start (toggle_row row1 late)" by (meson rtranclp.rtrancl_into_rtrancl rtranclp.rtrancl_refl)
  moreover have "pp_selected (toggle_row row1 late) = Some (wenv_key second)" "pp_toggles (toggle_row row1 late) = [(wenv_key second, row1)]"
    using late by (simp_all add: toggle_row_def edit_row_def)
  ultimately show ?thesis unfolding start_def by blast
qed

section \<open>Demonstrations\<close>

definition demo_row :: configured_flag where
  "demo_row = \<lparr>cfl_flag = demo_web_flag, cfl_config = demo_web_config\<rparr>"

abbreviation demo_rows :: "string \<Rightarrow> string \<Rightarrow> web_flag_config set" where
  "demo_rows e k \<equiv> {demo_web_config}"

theorem late_list_is_switched_elsewhere_witness:
  "\<exists>p. (project_page_step ''web'' demo_rows False)\<^sup>*\<^sup>* (project_page_start toaster_new) p \<and>
     pp_selected p = Some ''dev'' \<and> pp_toggles p = [(''dev'', demo_row)]"
  using late_list_is_switched_elsewhere [of "demo_web_environment ''prod''" "demo_web_environment ''dev''" demo_row demo_rows
      demo_row "''web''" toaster_new]
  by (simp add: initial_environment_def demo_web_environment_def demo_row_def)

lemma demo_first_switch:
  "\<exists>p. (project_page_step ''web'' demo_rows True)\<^sup>*\<^sup>* (project_page_start toaster_new) p \<and> pp_toggles p = [(''prod'', demo_row)]"
proof -
  let ?step = "project_page_step ''web'' demo_rows True"
  define start where "start = project_page_start toaster_new"
  define listed where "listed = pp_environments_answered (Inr [demo_web_environment ''prod'']) start"
  define shown where "shown = flags_answered (Inr [demo_row]) (listed\<lparr>pp_loads := remove_at 0 (pp_loads listed)\<rparr>)"
  have start: "pp_listings start = 1" "pp_loads start = []" "pp_toggles start = []"
    by (simp_all add: start_def project_page_start_def list_project_environments_def load_flags_def project_page_new_def)
  have listed: "pp_loads listed = [''prod'']" "pp_toggles listed = []" "pp_listings listed = 0" "pp_selected listed = Some ''prod''"
    using start by (simp_all add: listed_def pp_environments_answered_def pp_select_def load_flags_def initial_environment_def
        demo_web_environment_def)
  have shown: "pp_flags shown = Ready [demo_row]" "idle shown" "pp_selected shown = Some ''prod''" "pp_toggles shown = []"
    using listed by (simp_all add: shown_def flags_answered_def remove_at_def idle_def)
  have "?step start listed" unfolding listed_def by (rule pps_environments) (simp add: start)
  moreover have "?step listed shown"
    unfolding shown_def by (rule pps_flags) (use listed(1) in \<open>auto simp: demo_row_def\<close>)
  moreover have "?step shown (toggle_row demo_row shown)" by (rule pps_toggle [OF shown(1)]) (simp_all add: shown)
  ultimately have "?step\<^sup>*\<^sup>* start (toggle_row demo_row shown)" by (meson rtranclp.rtrancl_into_rtrancl rtranclp.rtrancl_refl)
  moreover have "pp_toggles (toggle_row demo_row shown) = [(''prod'', demo_row)]"
    using shown by (simp add: toggle_row_def edit_row_def)
  ultimately show ?thesis unfolding start_def by blast
qed

theorem calm_switch_flips_only_itself_witness:
  "\<exists>p. (project_page_step ''web'' demo_rows True)\<^sup>*\<^sup>* (project_page_start toaster_new) p \<and>
     pp_selected p = Some ''prod'' \<and> pp_toggles p = [(''prod'', demo_row)]"
proof -
  obtain p where p: "(project_page_step ''web'' demo_rows True)\<^sup>*\<^sup>* (project_page_start toaster_new) p"
    and t: "pp_toggles p = [(''prod'', demo_row)]"
    using demo_first_switch by blast
  with calm_switch_flips_only_itself [OF p, of "''prod''" demo_row] show ?thesis by auto
qed

definition demo_project_page :: project_page where
  "demo_project_page = (project_page_new toaster_new)\<lparr>pp_flags := Ready [demo_row], pp_selected := Some ''dev''\<rparr>"


end
