(* ===== verification/Web_Keys.thy ===== *)
theory Web_Keys
  imports Web_Flag_Page
begin

text \<open>
  \<^verbatim>\<open>crates/web/src/pages/keys.rs\<close>: the keys of an environment, their creation, the one display of a new
  secret, and their revocation.
\<close>

section \<open>The form\<close>

record key_form =
  kf_name :: string
  kf_scope :: string
  kf_busy :: bool

definition key_form_new :: key_form where
  "key_form_new = \<lparr>kf_name = [], kf_scope = ''server'', kf_busy = False\<rparr>"

definition submit_key :: "string \<Rightarrow> string \<Rightarrow> string \<Rightarrow> key_form \<Rightarrow> web_request option \<times> key_form" where
  "submit_key token project environment f =
     (if kf_busy f then (None, f)
      else (Some (web_create_key token project environment \<lparr>nk_name = kf_name f, nk_scope = kf_scope f\<rparr>), f\<lparr>kf_busy := True\<rparr>))"

section \<open>The page\<close>

record web_key =
  wk_id :: string
  wk_name :: string
  wk_prefix :: string
  wk_scope :: string
  wk_created_at :: string
  wk_last_used_at :: "string option"
  wk_revoked_at :: "string option"

text \<open>In flight: lists of keys with their environments, revocations with environment and key, and creations with
  environment and form: every opening of the form makes a new one, which \<open>kp_opened\<close> counts. A creation is answered
  with the name of the key and its secret.\<close>

record keys_page =
  kp_environments :: "web_environment list load_state"
  kp_selected :: "string option"
  kp_keys :: "web_key list load_state"
  kp_creating :: bool
  kp_revealed :: "(string \<times> string) option"
  kp_form :: key_form
  kp_opened :: nat
  kp_toasts :: toaster
  kp_listing :: bool
  kp_loads :: "string list"
  kp_revokes :: "(string \<times> string) list"
  kp_creations :: "(string \<times> nat) list"

definition keys_page_new :: "toaster \<Rightarrow> keys_page" where
  "keys_page_new t =
     \<lparr>kp_environments = Loading, kp_selected = None, kp_keys = Loading, kp_creating = False, kp_revealed = None,
      kp_form = key_form_new, kp_opened = 0, kp_toasts = t, kp_listing = True, kp_loads = [], kp_revokes = [], kp_creations = []\<rparr>"

definition load_keys :: "keys_page \<Rightarrow> keys_page" where
  "load_keys p =
     (case kp_selected p of None \<Rightarrow> p | Some e \<Rightarrow> p\<lparr>kp_keys := Loading, kp_loads := kp_loads p @ [e]\<rparr>)"

definition kp_select :: "string option \<Rightarrow> keys_page \<Rightarrow> keys_page" where
  "kp_select key p = load_keys (p\<lparr>kp_selected := key\<rparr>)"

definition kp_environments_answered :: "web_error + web_environment list \<Rightarrow> keys_page \<Rightarrow> keys_page" where
  "kp_environments_answered r p =
     (case r of
        Inr es \<Rightarrow> (kp_select (initial_environment es) p)\<lparr>kp_environments := load_from r, kp_listing := False\<rparr>
      | Inl _ \<Rightarrow> p\<lparr>kp_environments := load_from r, kp_listing := False\<rparr>)"

definition keys_answered :: "web_error + web_key list \<Rightarrow> keys_page \<Rightarrow> keys_page" where
  "keys_answered r p = p\<lparr>kp_keys := load_from r\<rparr>"

definition revoke_clicked :: "string \<Rightarrow> keys_page \<Rightarrow> keys_page" where
  "revoke_clicked i p = (case kp_selected p of None \<Rightarrow> p | Some e \<Rightarrow> p\<lparr>kp_revokes := kp_revokes p @ [(e, i)]\<rparr>)"

definition revoke_answered :: "web_error + unit \<Rightarrow> keys_page \<Rightarrow> keys_page" where
  "revoke_answered r p =
     (case r of
        Inr _ \<Rightarrow> load_keys (p\<lparr>kp_toasts :=
          toast_success (''Key revoked '' @ em_dash @ '' it stops working on the next request'') (kp_toasts p)\<rparr>)
      | Inl error \<Rightarrow> p\<lparr>kp_toasts := toast_error ''Could not revoke the key'' error (kp_toasts p)\<rparr>)"

text \<open>The button is there for owners and admins while the key is live.\<close>

definition revocable :: "web_user \<Rightarrow> web_key \<Rightarrow> bool" where
  "revocable u k = (wk_revoked_at k = None \<and> web_can_administer u)"

definition open_key_form :: "keys_page \<Rightarrow> keys_page" where
  "open_key_form p = p\<lparr>kp_creating := True, kp_form := key_form_new, kp_opened := kp_opened p + 1\<rparr>"

text \<open>Without a selection the form submits for the empty environment.\<close>

definition create_clicked :: "keys_page \<Rightarrow> keys_page" where
  "create_clicked p =
     (if kf_busy (kp_form p) then p
      else p\<lparr>kp_form := (kp_form p)\<lparr>kf_busy := True\<rparr>, kp_creations := kp_creations p @ [(unwrap_or (kp_selected p) [], kp_opened p)]\<rparr>)"

definition create_answered :: "nat \<Rightarrow> web_error + string \<times> string \<Rightarrow> keys_page \<Rightarrow> keys_page" where
  "create_answered form r p =
     (let p' = (if form = kp_opened p then p\<lparr>kp_form := (kp_form p)\<lparr>kf_busy := False\<rparr>\<rparr> else p)
      in case r of
           Inr created \<Rightarrow> load_keys (p'\<lparr>kp_creating := False, kp_revealed := Some created\<rparr>)
         | Inl error \<Rightarrow> p'\<lparr>kp_toasts := toast_error ''Could not create the key'' error (kp_toasts p)\<rparr>)"

definition dismiss_secret :: "keys_page \<Rightarrow> keys_page" where
  "dismiss_secret p = p\<lparr>kp_revealed := None\<rparr>"

lemmas keys_page_defs [model_defs] =
  key_form_new_def submit_key_def keys_page_new_def load_keys_def kp_select_def kp_environments_answered_def
  keys_answered_def revoke_clicked_def revoke_answered_def revocable_def open_key_form_def create_clicked_def
  create_answered_def dismiss_secret_def

text \<open>What can happen, except for the dismissal of a secret. \<open>issued environment\<close> are the keys the server issues there.\<close>

inductive keys_page_step :: "web_user \<Rightarrow> (string \<Rightarrow> (string \<times> string) set) \<Rightarrow> keys_page \<Rightarrow> keys_page \<Rightarrow> bool"
  for viewer :: web_user and issued :: "string \<Rightarrow> (string \<times> string) set" where
  kps_environments: "kp_listing p \<Longrightarrow> keys_page_step viewer issued p (kp_environments_answered r p)"
| kps_select:
    "kp_environments p = Ready es \<Longrightarrow> e \<in> set es \<Longrightarrow> keys_page_step viewer issued p (kp_select (Some (wenv_key e)) p)"
| kps_retry: "kp_keys p = Failed error \<Longrightarrow> keys_page_step viewer issued p (load_keys p)"
| kps_keys:
    "i < length (kp_loads p) \<Longrightarrow> keys_page_step viewer issued p (keys_answered r (p\<lparr>kp_loads := remove_at i (kp_loads p)\<rparr>))"
| kps_revoke:
    "kp_keys p = Ready ks \<Longrightarrow> k \<in> set ks \<Longrightarrow> revocable viewer k \<Longrightarrow> keys_page_step viewer issued p (revoke_clicked (wk_id k) p)"
| kps_revoked:
    "i < length (kp_revokes p) \<Longrightarrow>
     keys_page_step viewer issued p (revoke_answered r (p\<lparr>kp_revokes := remove_at i (kp_revokes p)\<rparr>))"
| kps_open: "web_can_administer viewer \<Longrightarrow> \<not> kp_creating p \<Longrightarrow> keys_page_step viewer issued p (open_key_form p)"
| kps_close: "keys_page_step viewer issued p (p\<lparr>kp_creating := False\<rparr>)"
| kps_type:
    "kp_creating p \<Longrightarrow> keys_page_step viewer issued p (p\<lparr>kp_form := (kp_form p)\<lparr>kf_name := n, kf_scope := s\<rparr>\<rparr>)"
| kps_create: "kp_creating p \<Longrightarrow> keys_page_step viewer issued p (create_clicked p)"
| kps_created:
    "i < length (kp_creations p) \<Longrightarrow> (\<And>c. r = Inr c \<Longrightarrow> c \<in> issued (fst (kp_creations p ! i))) \<Longrightarrow>
     keys_page_step viewer issued p (create_answered (snd (kp_creations p ! i)) r (p\<lparr>kp_creations := remove_at i (kp_creations p)\<rparr>))"

inductive_cases keys_page_stepE: "keys_page_step viewer issued p p'"

section \<open>Properties\<close>

lemma load_keys_revealed [simp]: "kp_revealed (load_keys p) = kp_revealed p" "kp_creations (load_keys p) = kp_creations p"
  by (simp_all add: load_keys_def split: option.splits)

lemma create_answered_revealed:
  "kp_revealed (create_answered form r p) = (case r of Inr created \<Rightarrow> Some created | Inl _ \<Rightarrow> kp_revealed p)"
  by (cases r) (simp_all add: create_answered_def Let_def)

text \<open>
  A secret stays until it is dismissed. While nobody dismisses it, a displayed secret can only give way to
  that of another key the server has just issued; no failure, list or change of environment hides it.
\<close>

theorem secret_stays_until_dismissed:
  assumes "(keys_page_step viewer issued)\<^sup>*\<^sup>* p p'" and "kp_revealed p = Some s"
  shows "\<exists>s'. kp_revealed p' = Some s' \<and> (s' = s \<or> (\<exists>e. s' \<in> issued e))"
  using assms
proof (induction rule: rtranclp_induct)
  case (step q q')
  then obtain s' where s': "kp_revealed q = Some s'" "s' = s \<or> (\<exists>e. s' \<in> issued e)" by blast
  from step(2) show ?case
  proof (cases rule: keys_page_step.cases)
    case (kps_created i r)
    then show ?thesis using s' by (cases r) (simp_all add: create_answered_revealed, blast)
  qed (use s' in \<open>auto simp: kp_environments_answered_def kp_select_def keys_answered_def revoke_clicked_def revoke_answered_def
      open_key_form_def create_clicked_def simp del: split_paired_Ex split: sum.splits option.splits\<close>)
qed blast

definition demo_key_page :: keys_page where
  "demo_key_page = (keys_page_new toaster_new)\<lparr>kp_revealed := Some (''ci'', ''ff_srv_x'')\<rparr>"

theorem secret_stays_until_dismissed_witness:
  "\<exists>s'. kp_revealed (kp_environments_answered (Inr []) demo_key_page) = Some s' \<and> s' = (''ci'', ''ff_srv_x'')"
proof -
  have "keys_page_step \<lparr>wu_id = ''1'', wu_organization_id = ''1'', wu_email = ''a'', wu_role = ''owner'', wu_created_at = ''now''\<rparr>
      (\<lambda>_. {}) demo_key_page (kp_environments_answered (Inr []) demo_key_page)"
    by (rule kps_environments) (simp add: demo_key_page_def keys_page_new_def)
  from secret_stays_until_dismissed [OF r_into_rtranclp [where r = "keys_page_step _ _", OF this], of "(''ci'', ''ff_srv_x'')"]
  show ?thesis by (simp add: demo_key_page_def)
qed

end
