(* ===== verification/Spec2Isabelle.thy ===== *)
theory Spec2Isabelle
  imports Api_System Api_Lifecycle Api_Dashboard Web_Segments Web_Audit Web_Project Web_Keys
begin

text \<open>
  A verification development of FlagForge, a feature-flag service written in Rust: an evaluation
  engine (\<^verbatim>\<open>crates/core\<close>), the PostgreSQL layer (\<^verbatim>\<open>crates/storage\<close> with \<^verbatim>\<open>migrations/\<close>), an HTTP
  service (\<^verbatim>\<open>crates/api\<close>), a client library for applications (\<^verbatim>\<open>crates/sdk\<close>) and a dashboard that
  runs in the browser (\<^verbatim>\<open>crates/web\<close>).

  \<^bold>\<open>How the parts interact.\<close> An operator edits flags, segments and experiments through the
  dashboard, which calls the management routes. A route authenticates the caller, checks its
  role, validates with the engine's validator, writes to storage in one statement or transaction,
  refreshes the snapshot cache of the environment and appends an audit entry. Triggers announce
  the environments a write affects, and a listener of every server process refreshes their
  snapshots; a periodic sweep refreshes all of them. An SDK authenticates with a key that is bound to
  one environment, downloads the snapshot (server keys) or asks for decisions (client keys), and
  flushes counts of experiment events, which storage adds to hourly counters.

  \<^bold>\<open>Which theory models what.\<close> Names are those of the source; a theory opens with the file it models.

    \<^item> \<^verbatim>\<open>FF_Prelude\<close>: Rust strings as lists of bytes with Unicode trimming, decimal and shortest
      printing of numbers, IEEE doubles as rationals with infinities and NaN, ordered maps as
      association lists (the locale \<^verbatim>\<open>ordered_map\<close> and its interpretation \<^verbatim>\<open>bt\<close>), fact collections.
    \<^item> \<^verbatim>\<open>Core_Values\<close>, \<^verbatim>\<open>Core_Model\<close>: \<^verbatim>\<open>value.rs\<close>, \<^verbatim>\<open>context.rs\<close>, \<^verbatim>\<open>flag.rs\<close>, \<^verbatim>\<open>segment.rs\<close>: JSON values,
      attributes, contexts, flags, distributions, rules, segments. The record \<^verbatim>\<open>externals\<close> holds the
      third-party functions the engine calls: SHA-256, regular expressions, semantic versions, the
      printing of UUIDs.
    \<^item> \<^verbatim>\<open>Core_Bucket\<close>, \<^verbatim>\<open>Core_Matcher\<close>, \<^verbatim>\<open>Core_Engine\<close>, \<^verbatim>\<open>Core_Validate\<close>, \<^verbatim>\<open>Core_Experiment\<close>,
      \<^verbatim>\<open>Core_Snapshot\<close>: the file of that name in \<^verbatim>\<open>crates/core/src\<close>. The process-wide cache of compiled
      patterns is a state that every comparison threads; the statistics are over the reals.
    \<^item> \<^verbatim>\<open>Storage_Db\<close>: rows, errors and the schema: a database is a record of tables, an operation a
      function to an error or a new database, and a constraint violation an error value.
      \<^verbatim>\<open>Storage_Flags\<close> (\<^verbatim>\<open>projects.rs\<close>, \<^verbatim>\<open>flags.rs\<close>), \<^verbatim>\<open>Storage_Segments\<close>, \<^verbatim>\<open>Storage_Experiments\<close>,
      \<^verbatim>\<open>Storage_Tenants\<close> (\<^verbatim>\<open>accounts.rs\<close>, \<^verbatim>\<open>api_keys.rs\<close>, \<^verbatim>\<open>audit.rs\<close>, \<^verbatim>\<open>snapshot.rs\<close>): every statement.
      \<^verbatim>\<open>Storage_Steps\<close>: the layer as one transition system, a read-then-write operation split in two
      steps so that other connections run in between. \<^verbatim>\<open>Storage_Announce\<close>: the notify triggers.
    \<^item> \<^verbatim>\<open>Api_Errors\<close>, \<^verbatim>\<open>Api_Limits\<close> (\<^verbatim>\<open>rate_limit.rs\<close>, \<^verbatim>\<open>auth/keys.rs\<close>, \<^verbatim>\<open>auth/usage.rs\<close>), \<^verbatim>\<open>Api_Auth\<close>
      (\<^verbatim>\<open>auth/jwt.rs\<close>, \<^verbatim>\<open>password.rs\<close>, \<^verbatim>\<open>extract.rs\<close>), \<^verbatim>\<open>Api_Cache\<close>, \<^verbatim>\<open>Api_State\<close>: a handler is a function
      from the server state (database, cache, usage tracker) to a result and the next state, built
      with \<^verbatim>\<open>h_bind\<close>, \<^verbatim>\<open>h_check\<close>, \<^verbatim>\<open>h_read\<close>, \<^verbatim>\<open>h_write\<close> and the like in the order of the source.
      \<^verbatim>\<open>Api_Accounts\<close>, \<^verbatim>\<open>Api_Projects\<close>, \<^verbatim>\<open>Api_Flags\<close>, \<^verbatim>\<open>Api_Experiments\<close>, \<^verbatim>\<open>Api_Evaluate\<close>: the files of
      \<^verbatim>\<open>routes/\<close>. \<^verbatim>\<open>Api_Router\<close>: the routes with their middleware, extractors and status codes.
      \<^verbatim>\<open>Api_Wire\<close>: paths, queries and bodies as they arrive.
    \<^item> \<^verbatim>\<open>Sdk_Events\<close>, \<^verbatim>\<open>Sdk_Client\<close>: the event recorder with its interleavings, and the client.
    \<^item> \<^verbatim>\<open>Web_Api\<close>, \<^verbatim>\<open>Web_Session\<close>: the dashboard's client and the state its pages share.

  \<^bold>\<open>What the groups of lemmas show.\<close> For the engine: the first matching rule decides, decisions
  are sound, the weighted pick is the cumulative-interval specification, validation accepts
  exactly the well-formed flags, and such flags decide. For storage: every operation keeps the integrity of the
  tables, guarded writes see what their author read, experiments only move forward, counters
  gain exactly their deltas, pagination of the audit trail is stable, a loaded snapshot is the stored
  configuration. For the server, \<^verbatim>\<open>Api_Logic\<close> states the interface \<^verbatim>\<open>management_writes\<close> between the management routes and
  storage, a locale over a relation on databases; it is interpreted three times: on the steps of
  storage (\<^verbatim>\<open>stored\<close>, in \<^verbatim>\<open>Api_System\<close>: well-typedness, audit, roles), on the audit trail
  (\<^verbatim>\<open>trail\<close>) and on the validity of what is served (\<^verbatim>\<open>served\<close>, in \<^verbatim>\<open>Api_Evaluable\<close>).
  \<^verbatim>\<open>Api_Effects\<close> and \<^verbatim>\<open>Api_Lifecycle\<close> follow a change to the next evaluation and a key from
  its creation to its revocation; \<^verbatim>\<open>Sdk_Server\<close> puts the client against the server. The locale
  \<^verbatim>\<open>versioned_rows\<close> (\<^verbatim>\<open>Storage_Steps\<close>) carries optimistic locking, interpreted on
  configurations, segments and experiments. \<^verbatim>\<open>Api_Cache\<close> has the eventual consistency of
  the cache for every interleaving of loads, stores, writes and notifications.

  \<^bold>\<open>Bounds and fuel.\<close> \<^verbatim>\<open>log2_search\<close> gets 1100 steps, more than the exponents of a double (from -1074 to
  1023); the shortest decimal of a double is searched up to 17 digits, which identify every
  double. Nothing else has fuel: the remaining loops are structural or have a measure. Machine
  integers keep their width where the source does arithmetic on them (weights and
  counts are words, with the wrap-around or saturation of the source); versions, limits and counters of the database are
  \<^typ>\<open>int\<close>, as far from their bounds no operation of the source can tell the difference.

  \<^bold>\<open>Parameters.\<close> Third-party code is an argument: \<^verbatim>\<open>externals\<close> as above; \<^verbatim>\<open>crypto\<close> (JWT signing,
  Argon2), \<^verbatim>\<open>services\<close> (those two, the JSON of audited objects, settings); the clock readings,
  random values and fresh UUIDs of a request; the JSON decoder and the HTTP exchange of the SDK and of
  the dashboard. What a theorem relies on of them is a hypothesis in its statement, and its witness instantiates them.

  \<^bold>\<open>Simplifications.\<close> A request's statements run without another request in between (the
  interleavings are in \<^verbatim>\<open>Storage_Steps\<close> and \<^verbatim>\<open>Api_Cache\<close>); the loss of the database connection is modelled for the
  cache's loads only; the spawned write of a key's last use runs where it is spawned; rejections by
  extractors, timeouts, body limits and escapes in paths and queries are not modelled; nested
  configuration values travel as values, not as text; statistics are not rounded.

  \<^bold>\<open>Not modelled.\<close> Start-up, logging, metrics export and the generated API description
  (\<^verbatim>\<open>main.rs\<close>, \<^verbatim>\<open>telemetry.rs\<close>, \<^verbatim>\<open>openapi.rs\<close>) and the static files of the dashboard: input and output
  around the handlers. The connection pool and the LISTEN stream (\<^verbatim>\<open>pool.rs\<close>, \<^verbatim>\<open>notify.rs\<close>): what they
  deliver is the step relation of the cache. The rendering of the dashboard's pages.
\<close>

end
